theory Spec2Isabelle
  imports Main
begin

section \<open>JavaScript values as server.js reads them\<close>

text \<open>
  A parsed JSON document, together with \<open>undefined\<close>, which a read of a missing property
  gives. Numbers are the integers (a fractional challenge rating is outside the model);
  strings are byte strings; an object lists its properties once each, in the order
  JavaScript enumerates them.
\<close>

datatype js = JUndefined | JNull | JBool bool | JNum int | JStr string
  | JArr "js list" | JObj "(string \<times> js) list"

text \<open>
  What server.js can throw: a TypeError of the runtime, a failed \<open>fetch\<close> or
  \<open>json()\<close>, the error object of a failed mysql query, and the \<open>new Error(...)\<close> of
  \<open>syncResource\<close>. Each carries its \<open>message\<close> property.
\<close>

datatype js_error = TypeError string | FetchError string | QueryError string | Error string

fun error_message :: "js_error \<Rightarrow> string" where
  "error_message (TypeError m) = m"
| "error_message (FetchError m) = m"
| "error_message (QueryError m) = m"
| "error_message (Error m) = m"

definition bindE :: "js_error + 'a \<Rightarrow> ('a \<Rightarrow> js_error + 'b) \<Rightarrow> js_error + 'b" where
  "bindE m f = (case m of Inl e \<Rightarrow> Inl e | Inr x \<Rightarrow> f x)"

fun show_nat :: "nat \<Rightarrow> string" where
  "show_nat n = (if n < 10 then [''0123456789'' ! n]
                 else show_nat (n div 10) @ [''0123456789'' ! (n mod 10)])"

declare show_nat.simps [simp del]

definition show_int :: "int \<Rightarrow> string" where
  "show_int i = (if i < 0 then CHR ''-'' # show_nat (nat (- i)) else show_nat (nat i))"

fun intercalate :: "string \<Rightarrow> string list \<Rightarrow> string" where
  "intercalate sep [] = []"
| "intercalate sep [x] = x"
| "intercalate sep (x # y # ys) = x @ sep @ intercalate sep (y # ys)"

definition nullish :: "js \<Rightarrow> bool" where
  "nullish v = (v = JUndefined \<or> v = JNull)"

text \<open>The string a template literal or \<open>join\<close> makes of a value.\<close>

fun ToString :: "js \<Rightarrow> string" where
  "ToString JUndefined = ''undefined''"
| "ToString JNull = ''null''"
| "ToString (JBool b) = (if b then ''true'' else ''false'')"
| "ToString (JNum n) = show_int n"
| "ToString (JStr s) = s"
| "ToString (JArr xs) =
     intercalate '','' (map (\<lambda>x. if x = JUndefined \<or> x = JNull then [] else ToString x) xs)"
| "ToString (JObj kvs) = ''[object Object]''"

fun truthy :: "js \<Rightarrow> bool" where
  "truthy JUndefined = False"
| "truthy JNull = False"
| "truthy (JBool b) = b"
| "truthy (JNum n) = (n \<noteq> 0)"
| "truthy (JStr s) = (s \<noteq> [])"
| "truthy (JArr xs) = True"
| "truthy (JObj kvs) = True"

text \<open>\<open>a || b\<close>\<close>

definition or_else :: "js \<Rightarrow> js \<Rightarrow> js" where
  "or_else a b = (if truthy a then a else b)"

text \<open>
  \<open>v.k\<close> for a \<open>v\<close> that is neither \<open>undefined\<close> nor \<open>null\<close>: the own property of an
  object, the length of an array or string, \<open>undefined\<close> otherwise.
\<close>

fun field :: "js \<Rightarrow> string \<Rightarrow> js" where
  "field (JObj kvs) k = (case map_of kvs k of Some v \<Rightarrow> v | None \<Rightarrow> JUndefined)"
| "field (JArr xs) k = (if k = ''length'' then JNum (int (length xs)) else JUndefined)"
| "field (JStr s) k = (if k = ''length'' then JNum (int (length s)) else JUndefined)"
| "field v k = JUndefined"

text \<open>\<open>v.k\<close> in general: reading a property of \<open>undefined\<close> or \<open>null\<close> throws.\<close>

definition read :: "js \<Rightarrow> string \<Rightarrow> js_error + js" where
  "read v k =
     (if nullish v
      then Inl (TypeError (''Cannot read properties of '' @ ToString v @ '' (reading '' @ k @ '')''))
      else Inr (field v k))"

text \<open>\<open>v.k1.k2...\<close>\<close>

fun path :: "js \<Rightarrow> string list \<Rightarrow> js_error + js" where
  "path v [] = Inr v"
| "path v (k # ks) = bindE (read v k) (\<lambda>u. path u ks)"

text \<open>
  A method call \<open>v.m(...)\<close> on something that need not be an array: it throws unless
  \<open>v\<close> is an array.
\<close>

definition as_array :: "js \<Rightarrow> string \<Rightarrow> js_error + js list" where
  "as_array v m =
     (case v of
        JArr xs \<Rightarrow> Inr xs
      | _ \<Rightarrow> if nullish v
             then Inl (TypeError (''Cannot read properties of '' @ ToString v @ '' (reading '' @ m @ '')''))
             else Inl (TypeError (m @ '' is not a function'')))"

text \<open>\<open>v.join(sep)\<close>\<close>

definition join :: "js \<Rightarrow> string \<Rightarrow> js_error + js" where
  "join v sep =
     bindE (as_array v ''join'')
       (\<lambda>xs. Inr (JStr (intercalate sep (map (\<lambda>x. if nullish x then [] else ToString x) xs))))"

fun mapE :: "('a \<Rightarrow> js_error + 'b) \<Rightarrow> 'a list \<Rightarrow> js_error + 'b list" where
  "mapE f [] = Inr []"
| "mapE f (x # xs) = bindE (f x) (\<lambda>y. bindE (mapE f xs) (\<lambda>ys. Inr (y # ys)))"

text \<open>\<open>v.map(f)\<close>, with a callback that may throw.\<close>

definition map_method :: "js \<Rightarrow> (js \<Rightarrow> js_error + js) \<Rightarrow> js_error + js" where
  "map_method v f = bindE (as_array v ''map'') (\<lambda>xs. bindE (mapE f xs) (\<lambda>ys. Inr (JArr ys)))"

text \<open>
  \<open>for (const x of v)\<close>: the elements of an array, the characters of a string, and a
  TypeError for anything else.
\<close>

definition for_of :: "js \<Rightarrow> js_error + js list" where
  "for_of v =
     (case v of
        JArr xs \<Rightarrow> Inr xs
      | JStr s \<Rightarrow> Inr (map (\<lambda>c. JStr [c]) s)
      | _ \<Rightarrow> Inl (TypeError (ToString v @ '' is not iterable'')))"

subsection \<open>JSON.stringify\<close>

definition hex_digit :: "nat \<Rightarrow> char" where
  "hex_digit n = ''0123456789abcdef'' ! n"

fun quote :: "string \<Rightarrow> string" where
  "quote [] = []"
| "quote (c # cs) =
    (if c = CHR 0x22 then [CHR 0x5C, CHR 0x22]
     else if c = CHR 0x5C then [CHR 0x5C, CHR 0x5C]
     else if c = CHR 0x08 then [CHR 0x5C, CHR ''b'']
     else if c = CHR 0x09 then [CHR 0x5C, CHR ''t'']
     else if c = CHR 0x0A then [CHR 0x5C, CHR ''n'']
     else if c = CHR 0x0C then [CHR 0x5C, CHR ''f'']
     else if c = CHR 0x0D then [CHR 0x5C, CHR ''r'']
     else if of_char c < (32 :: nat)
       then [CHR 0x5C, CHR ''u'', CHR ''0'', CHR ''0'',
             hex_digit (of_char c div 16), hex_digit (of_char c mod 16)]
     else [c]) @ quote cs"

definition quoted :: "string \<Rightarrow> string" where
  "quoted s = CHR 0x22 # quote s @ [CHR 0x22]"

text \<open>
  The text of a value that is not \<open>undefined\<close>. Inside an array \<open>undefined\<close> is written
  \<open>null\<close>; a property whose value is \<open>undefined\<close> is left out.
\<close>

fun stringify :: "js \<Rightarrow> string" where
  "stringify JUndefined = ''null''"
| "stringify JNull = ''null''"
| "stringify (JBool b) = (if b then ''true'' else ''false'')"
| "stringify (JNum n) = show_int n"
| "stringify (JStr s) = quoted s"
| "stringify (JArr xs) = ''['' @ intercalate '','' (map stringify xs) @ '']''"
| "stringify (JObj kvs) =
     ''{'' @ intercalate '',''
        (map (\<lambda>(k, v). quoted k @ '':'' @ stringify v) (filter (\<lambda>(k, v). v \<noteq> JUndefined) kvs))
      @ ''}''"

text \<open>\<open>JSON.stringify(v)\<close>: \<open>undefined\<close> for \<open>undefined\<close>, a string otherwise.\<close>

definition JSON_stringify :: "js \<Rightarrow> js" where
  "JSON_stringify v = (if v = JUndefined then JUndefined else JStr (stringify v))"

section \<open>The MySQL store\<close>

text \<open>
  A row holds the columns the server writes; the surrogate \<open>id\<close> and the \<open>last_updated\<close>
  timestamp, which the database fills in, are left out. Values compare by equality
  (a binary collation, no conversion between types).
\<close>

datatype sqlval = SqlNull | SqlNum int | SqlStr string | SqlBool bool

type_synonym row = "(string \<times> sqlval) list"

type_synonym db = "string \<Rightarrow> row list"

text \<open>
  How the mysql driver writes a value in place of a \<open>?\<close> (\<open>SqlString.escape\<close>). An array
  is written as the list of its elements, which stands for one value only when the array
  has one element. An object is written as its \<open>toString()\<close> inside an array or inside the
  object of \<open>SET ?\<close> (the flag), and as a list of assignments otherwise, which is not a
  value. What is not one value makes the statement fail.
\<close>

fun escape :: "bool \<Rightarrow> js \<Rightarrow> sqlval option" where
  "escape stringifyObjects JUndefined = Some SqlNull"
| "escape stringifyObjects JNull = Some SqlNull"
| "escape stringifyObjects (JBool b) = Some (SqlBool b)"
| "escape stringifyObjects (JNum n) = Some (SqlNum n)"
| "escape stringifyObjects (JStr s) = Some (SqlStr s)"
| "escape stringifyObjects (JArr [x]) = escape True x"
| "escape stringifyObjects (JArr xs) = None"
| "escape stringifyObjects (JObj kvs) =
     (if stringifyObjects then Some (SqlStr ''[object Object]'') else None)"

text \<open>
  The schema of the tables the server writes: the columns declared \<open>NOT NULL\<close> and the
  columns of the table's \<open>UNIQUE KEY\<close> (none for three of the class tables).
\<close>

definition parent_schema :: "string list \<Rightarrow> string list \<times> string list" where
  "parent_schema not_null = (not_null, [''index''])"

definition link_schema :: "string \<Rightarrow> string \<Rightarrow> string list \<times> string list" where
  "link_schema a b = ([a, b], [a, b])"

definition schema :: "(string \<times> (string list \<times> string list)) list" where
  "schema =
   [(''ability_scores'', parent_schema [''index'', ''name'']),
    (''skills'', parent_schema [''index'', ''name'']),
    (''languages'', parent_schema [''index'', ''name'']),
    (''alignments'', parent_schema [''index'', ''name'', ''abbreviation'']),
    (''rule_sections'', parent_schema [''index'', ''name'']),
    (''rules'', parent_schema [''index'', ''name'']),
    (''backgrounds'', parent_schema [''index'', ''name'']),
    (''feats'', parent_schema [''index'', ''name'']),
    (''races'', parent_schema [''index'', ''name'']),
    (''race_proficiencies'', link_schema ''race_index'' ''proficiency_index''),
    (''race_languages'', link_schema ''race_index'' ''language_index''),
    (''race_traits'', link_schema ''race_index'' ''trait_index''),
    (''subraces'', parent_schema [''index'', ''name'']),
    (''classes'', parent_schema [''index'', ''name'']),
    (''class_levels'', ([], [''class_index'', ''level''])),
    (''class_spells'', ([], [''class_index'', ''spell_index''])),
    (''class_proficiency_choices'', ([], [])),
    (''class_starting_equipment'', ([], [])),
    (''class_starting_equipment_options'', ([], [])),
    (''subclasses'', parent_schema [''index'', ''name'']),
    (''subclass_levels'', ([], [''subclass_index'', ''level''])),
    (''subclass_spells'', ([], [''subclass_index'', ''spell_index''])),
    (''features'', parent_schema [''index'', ''name'']),
    (''traits'', parent_schema [''index'', ''name'']),
    (''trait_races'', link_schema ''trait_index'' ''race_index''),
    (''trait_subraces'', link_schema ''trait_index'' ''subrace_index''),
    (''trait_proficiencies'', link_schema ''trait_index'' ''proficiency_index''),
    (''proficiencies'', parent_schema [''index'']),
    (''proficiency_classes'', link_schema ''proficiency_index'' ''class_index''),
    (''proficiency_races'', link_schema ''proficiency_index'' ''race_index''),
    (''spells'', parent_schema [''index'', ''name'']),
    (''spell_classes'', link_schema ''spell_index'' ''class_index''),
    (''spell_subclasses'', link_schema ''spell_index'' ''subclass_index''),
    (''magic_schools'', parent_schema [''index'']),
    (''damage_types'', parent_schema [''index'', ''name'']),
    (''conditions'', parent_schema [''index'', ''name'']),
    (''weapon_properties'', parent_schema [''index'', ''name'']),
    (''equipment'', parent_schema [''index'', ''name'']),
    (''equipment_categories'', parent_schema [''index'', ''name'']),
    (''magic_items'', parent_schema [''index'', ''name'']),
    (''monsters'', parent_schema [''index'', ''name'']),
    (''monster_proficiencies'', link_schema ''monster_index'' ''proficiency_index''),
    (''monster_condition_immunities'', link_schema ''monster_index'' ''condition_index'')]"

definition not_null :: "string \<Rightarrow> string list" where
  "not_null t = (case map_of schema t of Some (nn, uk) \<Rightarrow> nn | None \<Rightarrow> [])"

definition unique_key :: "string \<Rightarrow> string list" where
  "unique_key t = (case map_of schema t of Some (nn, uk) \<Rightarrow> uk | None \<Rightarrow> [])"

text \<open>The value of a column in a row; a column the row does not give is \<open>NULL\<close>.\<close>

definition cell :: "row \<Rightarrow> string \<Rightarrow> sqlval" where
  "cell r c = (case map_of r c of Some v \<Rightarrow> v | None \<Rightarrow> SqlNull)"

text \<open>
  Two rows collide on a unique key when they agree on all its columns and none of them
  is \<open>NULL\<close>.
\<close>

definition conflicts :: "string list \<Rightarrow> row \<Rightarrow> row \<Rightarrow> bool" where
  "conflicts uk old new =
     (uk \<noteq> [] \<and> (\<forall>c \<in> set uk. cell new c \<noteq> SqlNull \<and> cell old c = cell new c))"

definition null_violation :: "string \<Rightarrow> row \<Rightarrow> string option" where
  "null_violation t r = find (\<lambda>c. cell r c = SqlNull) (not_null t)"

definition bad_null :: "string \<Rightarrow> js_error" where
  "bad_null c = QueryError (''ER_BAD_NULL_ERROR: Column '' @ [CHR 0x27] @ c @ [CHR 0x27] @ '' cannot be null'')"

definition dup_entry :: "string \<Rightarrow> js_error" where
  "dup_entry t = QueryError (''ER_DUP_ENTRY: Duplicate entry for a unique key of '' @ t)"

definition parse_error :: js_error where
  "parse_error = QueryError ''ER_PARSE_ERROR: You have an error in your SQL syntax''"

definition no_such_table :: "string \<Rightarrow> js_error" where
  "no_such_table t = QueryError (''ER_NO_SUCH_TABLE: Table '' @ t @ '' does not exist'')"

text \<open>The row that a column list and the values bound to its \<open>?\<close>s make.\<close>

definition bind_values :: "bool \<Rightarrow> string list \<Rightarrow> js list \<Rightarrow> row option" where
  "bind_values stringifyObjects cols vals =
     (if length cols = length vals \<and> list_all (\<lambda>v. escape stringifyObjects v \<noteq> None) vals
      then Some (zip cols (map (\<lambda>v. the (escape stringifyObjects v)) vals))
      else None)"

text \<open>
  \<open>ON DUPLICATE KEY UPDATE\<close>: the colliding row takes the new value of every column the
  statement lists and keeps its own value elsewhere.
\<close>

definition update_row :: "string list \<Rightarrow> row \<Rightarrow> row \<Rightarrow> row" where
  "update_row upd old new = map (\<lambda>(c, v). (c, if c \<in> set upd then v else cell old c)) new"

fun update_first :: "(row \<Rightarrow> bool) \<Rightarrow> (row \<Rightarrow> row) \<Rightarrow> row list \<Rightarrow> row list" where
  "update_first p f [] = []"
| "update_first p f (r # rs) = (if p r then f r # rs else r # update_first p f rs)"

text \<open>
  The statements of server.js:
  \<^item> \<open>INSERT INTO t (cols) VALUES (?, ...) ON DUPLICATE KEY UPDATE c = VALUES(c), ...\<close>
  \<^item> \<open>INSERT INTO t (cols) VALUES (?, ...)\<close>
  \<^item> \<open>INSERT INTO t SET ?\<close> with an object
  \<^item> \<open>DELETE FROM t WHERE c = ?\<close>
\<close>

datatype statement =
    InsertOrUpdate string "string list" "string list"
  | InsertValues string "string list"
  | InsertSet string
  | DeleteWhere string string

text \<open>
  What the server has to do for a statement and its values, once the values are written
  into the text: write a row with or without update on collision, delete by a column
  value, or reject the statement (unknown table, text that does not parse, \<open>NULL\<close> for a
  column declared \<open>NOT NULL\<close>). None of this looks at the rows stored.
\<close>

datatype operation =
    Upsert string "string list" row
  | Insert string row
  | Delete string string sqlval
  | Rejected js_error

definition checked :: "string \<Rightarrow> row option \<Rightarrow> (row \<Rightarrow> operation) \<Rightarrow> operation" where
  "checked t bound make =
     (if map_of schema t = None then Rejected (no_such_table t)
      else case bound of
             None \<Rightarrow> Rejected parse_error
           | Some r \<Rightarrow> (case null_violation t r of
                          Some c \<Rightarrow> Rejected (bad_null c)
                        | None \<Rightarrow> make r))"

text \<open>
  For \<open>INSERT ... SET ?\<close> the values are the object; otherwise they are the array bound to
  the \<open>?\<close>s.
\<close>

fun prepare :: "statement \<Rightarrow> js \<Rightarrow> operation" where
  "prepare (InsertOrUpdate t cols upd) (JArr vals) =
     checked t (bind_values False cols vals) (Upsert t upd)"
| "prepare (InsertValues t cols) (JArr vals) =
     checked t (bind_values False cols vals) (Insert t)"
| "prepare (InsertSet t) (JObj kvs) =
     checked t (bind_values True (map fst kvs) (map snd kvs)) (Insert t)"
| "prepare (DeleteWhere t c) (JArr [v]) =
     (if map_of schema t = None then Rejected (no_such_table t)
      else case escape False v of
             None \<Rightarrow> Rejected parse_error
           | Some k \<Rightarrow> Delete t c k)"
| "prepare s v = Rejected parse_error"

text \<open>
  The effect on the store. An insert fails on a row that collides with a stored one; an
  upsert updates the first such row instead; \<open>c = NULL\<close> selects no row.
\<close>

fun perform :: "operation \<Rightarrow> db \<Rightarrow> js_error + db" where
  "perform (Upsert t upd r) d =
     (if list_ex (\<lambda>old. conflicts (unique_key t) old r) (d t)
      then Inr (d(t := update_first (\<lambda>old. conflicts (unique_key t) old r)
                                   (\<lambda>old. update_row upd old r) (d t)))
      else Inr (d(t := d t @ [r])))"
| "perform (Insert t r) d =
     (if list_ex (\<lambda>old. conflicts (unique_key t) old r) (d t) then Inl (dup_entry t)
      else Inr (d(t := d t @ [r])))"
| "perform (Delete t c k) d =
     Inr (d(t := filter (\<lambda>r. \<not> (k \<noteq> SqlNull \<and> cell r c = k)) (d t)))"
| "perform (Rejected e) d = Inl e"

text \<open>
  \<open>connection.query(sql, values)\<close>: the new store, or the error passed to the callback.
\<close>

definition query :: "statement \<Rightarrow> js \<Rightarrow> db \<Rightarrow> js_error + db" where
  "query sql vals d = perform (prepare sql vals) d"

section \<open>The world of one sync: the store and the requests sent\<close>

text \<open>
  The remote API is a function from the URL to the parsed document, or to the error that
  \<open>fetch\<close> or \<open>json()\<close> throws; it does not change during a sync. The world records
  every URL requested, in order. The connection is taken to stay up: \<open>connect\<close>,
  \<open>beginTransaction\<close> and \<open>commit\<close> succeed.
\<close>

type_synonym remote = "string \<Rightarrow> js_error + js"

record world =
  store :: db
  requests :: "string list"

record response =
  status :: nat
  success :: bool
  message :: string

text \<open>\<open>await fetch(url)\<close> followed by \<open>await response.json()\<close>\<close>

definition fetch_json :: "remote \<Rightarrow> string \<Rightarrow> world \<Rightarrow> (js_error + js) \<times> world" where
  "fetch_json api url w = (api url, w\<lparr>requests := requests w @ [url]\<rparr>)"

text \<open>
  The \<open>catch\<close> block of every sync function:
  \<open>res.status(500).json({ success: false, message: error.message || '...' })\<close>
\<close>

definition failure :: "js_error \<Rightarrow> response" where
  "failure e =
     \<lparr>status = 500, success = False,
      message = (if error_message e = [] then ''An error occurred on the server.''
                 else error_message e)\<rparr>"

section \<open>The generic path: syncResource\<close>

type_synonym js_object = "(string \<times> js) list"

definition Object_values :: "js_object \<Rightarrow> js" where
  "Object_values r = JArr (map snd r)"

text \<open>
  Every \<open>ON DUPLICATE KEY UPDATE\<close> clause of server.js lists all the columns of its
  statement but the first, \<open>index\<close>.
\<close>

definition on_duplicate_key_update :: "string \<Rightarrow> string list \<Rightarrow> statement" where
  "on_duplicate_key_update t cols = InsertOrUpdate t cols (tl cols)"

text \<open>
  How a request to a route can end: with the answer sent through \<open>res\<close>; with the
  process ended by a promise rejection that nothing handles, before any answer; or with
  the answer sent and the process ended afterwards. Node ends the process on an unhandled
  rejection (the default since version 15), and server.js installs no handler of its own.
\<close>

datatype outcome = Responds response | Exits js_error | Responds_then_exits response js_error

text \<open>\<open>await Promise.all(queryPromises)\<close>: the first rejection is thrown.\<close>

fun Promise_all :: "(js_error + unit) list \<Rightarrow> js_error + unit" where
  "Promise_all [] = Inr ()"
| "Promise_all (Inl e # ps) = Inl e"
| "Promise_all (Inr u # ps) = Promise_all ps"

text \<open>
  The loop of \<open>syncResource\<close>. Each pass awaits the detail document, builds the record
  and hands the query to the connection without awaiting it; \<open>queryPromises\<close> collects
  how each query settles. The connection runs its queries one at a time in the order
  they were handed over, and the model takes each to be settled before the next document
  arrives: the database is local, the API remote. A query that fails leaves the store as
  it was and rejects its promise with
  \<open>new Error(`Failed on ${resourceName} ${newRecord.name}: ${error.message}`)\<close>.

  The promises get their handlers only from \<open>Promise.all\<close>, after the loop. So when the
  loop comes to wait for the next detail document while a promise is rejected, that
  rejection is unhandled and ends the process: the request for the document has been
  sent, nothing more is done. The loop ends in one of three ways: it has gone through the
  list, it has thrown (what \<open>item.url\<close>, the fetch or the record builder throws), or the
  process has ended.
\<close>

datatype loop_end =
    Finished "(js_error + unit) list"
  | Thrown js_error "(js_error + unit) list"
  | Unhandled js_error

fun syncResource_loop ::
  "remote \<Rightarrow> string \<Rightarrow> (js \<Rightarrow> js_error + js_object \<times> statement) \<Rightarrow> js list
     \<Rightarrow> (js_error + unit) list \<Rightarrow> world \<Rightarrow> loop_end \<times> world" where
  "syncResource_loop api resourceName recordBuilder [] queryPromises w =
     (Finished queryPromises, w)"
| "syncResource_loop api resourceName recordBuilder (item # items) queryPromises w =
     (case read item ''url'' of
        Inl e \<Rightarrow> (Thrown e queryPromises, w)
      | Inr url \<Rightarrow>
         (case fetch_json api (''https://www.dnd5eapi.co'' @ ToString url) w of
            (fetched, w1) \<Rightarrow>
              (case Promise_all queryPromises of
                 Inl rejection \<Rightarrow> (Unhandled rejection, w1)
               | Inr u \<Rightarrow>
                  (case fetched of
                     Inl e \<Rightarrow> (Thrown e queryPromises, w1)
                   | Inr detailData \<Rightarrow>
                      (case recordBuilder detailData of
                         Inl e \<Rightarrow> (Thrown e queryPromises, w1)
                       | Inr (newRecord, sqlQuery) \<Rightarrow>
                          (case query sqlQuery (Object_values newRecord) (store w1) of
                             Inl error \<Rightarrow>
                               syncResource_loop api resourceName recordBuilder items
                                 (queryPromises @
                                   [Inl (Error (''Failed on '' @ resourceName @ '' ''
                                       @ ToString (field (JObj newRecord) ''name'') @ '': ''
                                       @ error_message error))])
                                 w1
                           | Inr d \<Rightarrow>
                               syncResource_loop api resourceName recordBuilder items
                                 (queryPromises @ [Inr ()]) (w1\<lparr>store := d\<rparr>)))))))"

text \<open>
  \<open>syncResource\<close>: the list, the loop, \<open>Promise.all\<close> and the answer, or the \<open>catch\<close>
  block with its answer. When the loop throws while a promise is rejected (\<open>item.url\<close>
  of an entry that is \<open>null\<close>, right after a query that fails), the \<open>catch\<close> block
  answers and the rejection, which \<open>Promise.all\<close> never sees, ends the process after
  that.
\<close>

definition syncResource ::
  "remote \<Rightarrow> string \<Rightarrow> string \<Rightarrow> (js \<Rightarrow> js_error + js_object \<times> statement) \<Rightarrow> world
     \<Rightarrow> outcome \<times> world" where
  "syncResource api resourceName tableName recordBuilder w =
     (case fetch_json api (''https://www.dnd5eapi.co/api/'' @ resourceName) w of
        (Inl e, w1) \<Rightarrow> (Responds (failure e), w1)
      | (Inr listData, w1) \<Rightarrow>
         (case bindE (read listData ''results'')
                 (\<lambda>endpoints. bindE (read endpoints ''length'') (\<lambda>n. for_of endpoints)) of
            Inl e \<Rightarrow> (Responds (failure e), w1)
          | Inr endpoints \<Rightarrow>
             (case syncResource_loop api resourceName recordBuilder endpoints [] w1 of
                (Unhandled rejection, w2) \<Rightarrow> (Exits rejection, w2)
              | (Thrown e queryPromises, w2) \<Rightarrow>
                 (case Promise_all queryPromises of
                    Inl rejection \<Rightarrow> (Responds_then_exits (failure e) rejection, w2)
                  | Inr u \<Rightarrow> (Responds (failure e), w2))
              | (Finished queryPromises, w2) \<Rightarrow>
                 (case Promise_all queryPromises of
                    Inl e \<Rightarrow> (Responds (failure e), w2)
                  | Inr u \<Rightarrow>
                     (Responds
                        \<lparr>status = 200, success = True,
                         message = resourceName @ '' synced successfully! ''
                           @ show_nat (length queryPromises) @ '' records processed.''\<rparr>,
                      w2)))))"

subsection \<open>The record builders of the generic endpoints\<close>

text \<open>\<open>d.a ? d.a.b : null\<close>, for a \<open>d\<close> that is neither \<open>undefined\<close> nor \<open>null\<close>\<close>

definition if_present :: "js \<Rightarrow> string \<Rightarrow> string \<Rightarrow> js" where
  "if_present d a b = (if truthy (field d a) then field (field d a) b else JNull)"

definition ability_scores_recordBuilder :: "js \<Rightarrow> js_error + js_object \<times> statement" where
  "ability_scores_recordBuilder detailData =
     bindE (read detailData ''index'') (\<lambda>index.
     bindE (join (field detailData ''desc'') ''\<newline>\<newline>'') (\<lambda>description.
     Inr ([(''index'', index), (''name'', field detailData ''name''),
           (''description'', description)],
          on_duplicate_key_update ''ability_scores'' [''index'', ''name'', ''description''])))"

definition rules_recordBuilder :: "js \<Rightarrow> js_error + js_object \<times> statement" where
  "rules_recordBuilder detailData =
     bindE (read detailData ''index'') (\<lambda>index.
     Inr ([(''index'', index), (''name'', field detailData ''name''),
           (''description'', field detailData ''desc''),
           (''rule_section_index'', if_present detailData ''rule_section'' ''index'')],
          on_duplicate_key_update ''rules''
            [''index'', ''name'', ''description'', ''rule_section_index'']))"

definition rule_sections_recordBuilder :: "js \<Rightarrow> js_error + js_object \<times> statement" where
  "rule_sections_recordBuilder detailData =
     bindE (read detailData ''index'') (\<lambda>index.
     Inr ([(''index'', index), (''name'', field detailData ''name''),
           (''description'', field detailData ''desc'')],
          on_duplicate_key_update ''rule_sections'' [''index'', ''name'', ''description'']))"

definition skills_recordBuilder :: "js \<Rightarrow> js_error + js_object \<times> statement" where
  "skills_recordBuilder detailData =
     bindE (read detailData ''index'') (\<lambda>index.
     bindE (join (field detailData ''desc'') ''\<newline>\<newline>'') (\<lambda>description.
     bindE (path detailData [''ability_score'', ''name'']) (\<lambda>ability_score.
     Inr ([(''index'', index), (''name'', field detailData ''name''),
           (''description'', description), (''ability_score'', ability_score)],
          on_duplicate_key_update ''skills''
            [''index'', ''name'', ''description'', ''ability_score'']))))"

definition subraces_recordBuilder :: "js \<Rightarrow> js_error + js_object \<times> statement" where
  "subraces_recordBuilder detailData =
     bindE (read detailData ''index'') (\<lambda>index.
     bindE (path detailData [''race'', ''index'']) (\<lambda>race_index.
     Inr ([(''index'', index), (''name'', field detailData ''name''),
           (''race_index'', race_index),
           (''description'', or_else (field detailData ''desc'') JNull),
           (''ability_bonuses'', JSON_stringify (field detailData ''ability_bonuses''))],
          on_duplicate_key_update ''subraces''
            [''index'', ''name'', ''race_index'', ''description'', ''ability_bonuses''])))"

definition magic_schools_recordBuilder :: "js \<Rightarrow> js_error + js_object \<times> statement" where
  "magic_schools_recordBuilder detailData =
     bindE (read detailData ''index'') (\<lambda>index.
     Inr ([(''index'', index), (''name'', field detailData ''name''),
           (''description'', field detailData ''desc'')],
          on_duplicate_key_update ''magic_schools'' [''index'', ''name'', ''description'']))"

definition languages_recordBuilder :: "js \<Rightarrow> js_error + js_object \<times> statement" where
  "languages_recordBuilder detailData =
     bindE (read detailData ''index'') (\<lambda>index.
     Inr ([(''index'', index), (''name'', field detailData ''name''),
           (''type'', field detailData ''type''),
           (''typical_speakers'', JSON_stringify (field detailData ''typical_speakers'')),
           (''script'', field detailData ''script'')],
          on_duplicate_key_update ''languages''
            [''index'', ''name'', ''type'', ''typical_speakers'', ''script'']))"

definition features_recordBuilder :: "js \<Rightarrow> js_error + js_object \<times> statement" where
  "features_recordBuilder detailData =
     bindE (read detailData ''index'') (\<lambda>index.
     bindE (path detailData [''class'', ''name'']) (\<lambda>class_name.
     bindE (join (field detailData ''desc'') ''\<newline>\<newline>'') (\<lambda>description.
     Inr ([(''index'', index), (''name'', field detailData ''name''),
           (''class'', class_name),
           (''subclass'', if_present detailData ''subclass'' ''name''),
           (''level'', field detailData ''level''),
           (''description'', description)],
          on_duplicate_key_update ''features''
            [''index'', ''name'', ''class'', ''subclass'', ''level'', ''description'']))))"

definition equipment_categories_recordBuilder :: "js \<Rightarrow> js_error + js_object \<times> statement" where
  "equipment_categories_recordBuilder detailData =
     bindE (read detailData ''index'') (\<lambda>index.
     Inr ([(''index'', index), (''name'', field detailData ''name'')],
          on_duplicate_key_update ''equipment_categories'' [''index'', ''name'']))"

definition damage_types_recordBuilder :: "js \<Rightarrow> js_error + js_object \<times> statement" where
  "damage_types_recordBuilder detailData =
     bindE (read detailData ''index'') (\<lambda>index.
     bindE (join (field detailData ''desc'') ''\<newline>\<newline>'') (\<lambda>description.
     Inr ([(''index'', index), (''name'', field detailData ''name''),
           (''description'', description)],
          on_duplicate_key_update ''damage_types'' [''index'', ''name'', ''description''])))"

definition conditions_recordBuilder :: "js \<Rightarrow> js_error + js_object \<times> statement" where
  "conditions_recordBuilder detailData =
     bindE (read detailData ''index'') (\<lambda>index.
     bindE (join (field detailData ''desc'') ''\<newline>\<newline>'') (\<lambda>description.
     Inr ([(''index'', index), (''name'', field detailData ''name''),
           (''description'', description)],
          on_duplicate_key_update ''conditions'' [''index'', ''name'', ''description''])))"

definition equipment_recordBuilder :: "js \<Rightarrow> js_error + js_object \<times> statement" where
  "equipment_recordBuilder detailData =
     bindE (read detailData ''index'') (\<lambda>index.
     bindE (if truthy (field detailData ''desc'')
            then join (field detailData ''desc'') ''\<newline>\<newline>'' else Inr JNull) (\<lambda>description.
     bindE (if truthy (field detailData ''properties'')
            then map_method (field detailData ''properties'') (\<lambda>p. read p ''name'')
            else Inr (JArr [])) (\<lambda>properties.
     Inr ([(''index'', index), (''name'', field detailData ''name''),
           (''equipment_category_index'', if_present detailData ''equipment_category'' ''index''),
           (''gear_category'', if_present detailData ''gear_category'' ''name''),
           (''cost'', if truthy (field detailData ''cost'')
                      then JStr (ToString (field (field detailData ''cost'') ''quantity'') @ '' ''
                                 @ ToString (field (field detailData ''cost'') ''unit''))
                      else JNull),
           (''weight'', or_else (field detailData ''weight'') JNull),
           (''description'', description),
           (''weapon_category'', or_else (field detailData ''weapon_category'') JNull),
           (''weapon_range'', or_else (field detailData ''weapon_range'') JNull),
           (''category_range'', or_else (field detailData ''category_range'') JNull),
           (''damage'', JSON_stringify (field detailData ''damage'')),
           (''two_handed_damage'', JSON_stringify (field detailData ''two_handed_damage'')),
           (''range_info'', JSON_stringify (field detailData ''range'')),
           (''properties'', JSON_stringify properties),
           (''armor_category'', or_else (field detailData ''armor_category'') JNull),
           (''armor_class'', JSON_stringify (field detailData ''armor_class'')),
           (''str_minimum'', if field detailData ''str_minimum'' = JUndefined then JNull
                             else field detailData ''str_minimum''),
           (''stealth_disadvantage'',
              if field detailData ''stealth_disadvantage'' = JUndefined then JNull
              else field detailData ''stealth_disadvantage''),
           (''contents'', JSON_stringify (field detailData ''contents'')),
           (''speed_info'', JSON_stringify (field detailData ''speed'')),
           (''capacity'', or_else (field detailData ''capacity'') JNull)],
          on_duplicate_key_update ''equipment''
            [''index'', ''name'', ''equipment_category_index'', ''gear_category'', ''cost'',
             ''weight'', ''description'', ''weapon_category'', ''weapon_range'',
             ''category_range'', ''damage'', ''two_handed_damage'', ''range_info'',
             ''properties'', ''armor_category'', ''armor_class'', ''str_minimum'',
             ''stealth_disadvantage'', ''contents'', ''speed_info'', ''capacity'']))))"

definition magic_items_recordBuilder :: "js \<Rightarrow> js_error + js_object \<times> statement" where
  "magic_items_recordBuilder detailData =
     bindE (read detailData ''index'') (\<lambda>index.
     bindE (path detailData [''rarity'', ''name'']) (\<lambda>rarity_name.
     bindE (join (field detailData ''desc'') ''\<newline>\<newline>'') (\<lambda>description.
     Inr ([(''index'', index), (''name'', field detailData ''name''),
           (''equipment_category_index'', if_present detailData ''equipment_category'' ''index''),
           (''rarity_name'', rarity_name),
           (''description'', description)],
          on_duplicate_key_update ''magic_items''
            [''index'', ''name'', ''equipment_category_index'', ''rarity_name'',
             ''description'']))))"

definition alignments_recordBuilder :: "js \<Rightarrow> js_error + js_object \<times> statement" where
  "alignments_recordBuilder detailData =
     bindE (read detailData ''index'') (\<lambda>index.
     Inr ([(''index'', index), (''name'', field detailData ''name''),
           (''abbreviation'', field detailData ''abbreviation''),
           (''description'', field detailData ''desc'')],
          on_duplicate_key_update ''alignments''
            [''index'', ''name'', ''abbreviation'', ''description'']))"

text \<open>\<open>JSON.stringify(d.k.from.options.map(o => o.string))\<close>\<close>

definition option_strings :: "js \<Rightarrow> string \<Rightarrow> js_error + js" where
  "option_strings d k =
     bindE (path d [k, ''from'', ''options'']) (\<lambda>options.
     bindE (map_method options (\<lambda>opt. read opt ''string'')) (\<lambda>strings.
     Inr (JSON_stringify strings)))"

definition backgrounds_recordBuilder :: "js \<Rightarrow> js_error + js_object \<times> statement" where
  "backgrounds_recordBuilder detailData =
     bindE (read detailData ''index'') (\<lambda>index.
     bindE (map_method (field detailData ''starting_proficiencies'') (\<lambda>p. read p ''name''))
       (\<lambda>starting_proficiencies.
     bindE (map_method (field detailData ''starting_equipment'')
              (\<lambda>e. bindE (path e [''equipment'', ''name''])
                 (\<lambda>name. Inr (JObj [(''name'', name), (''quantity'', field e ''quantity'')]))))
       (\<lambda>starting_equipment.
     bindE (path detailData [''feature'', ''name'']) (\<lambda>feature_name.
     bindE (join (field (field detailData ''feature'') ''desc'') ''\<newline>\<newline>'') (\<lambda>feature_desc.
     bindE (option_strings detailData ''personality_traits'') (\<lambda>personality_traits.
     bindE (option_strings detailData ''ideals'') (\<lambda>ideals.
     bindE (option_strings detailData ''bonds'') (\<lambda>bonds.
     bindE (option_strings detailData ''flaws'') (\<lambda>flaws.
     Inr ([(''index'', index), (''name'', field detailData ''name''),
           (''starting_proficiencies'', JSON_stringify starting_proficiencies),
           (''language_options'', JSON_stringify (field detailData ''language_options'')),
           (''starting_equipment'', JSON_stringify starting_equipment),
           (''feature_name'', feature_name),
           (''feature_desc'', feature_desc),
           (''personality_traits'', personality_traits),
           (''ideals'', ideals), (''bonds'', bonds), (''flaws'', flaws)],
          on_duplicate_key_update ''backgrounds''
            [''index'', ''name'', ''starting_proficiencies'', ''language_options'',
             ''starting_equipment'', ''feature_name'', ''feature_desc'',
             ''personality_traits'', ''ideals'', ''bonds'', ''flaws'']))))))))))"

definition feats_recordBuilder :: "js \<Rightarrow> js_error + js_object \<times> statement" where
  "feats_recordBuilder detailData =
     bindE (read detailData ''index'') (\<lambda>index.
     bindE (join (field detailData ''desc'') ''\<newline>\<newline>'') (\<lambda>description.
     Inr ([(''index'', index), (''name'', field detailData ''name''),
           (''prerequisites'', JSON_stringify (field detailData ''prerequisites'')),
           (''description'', description)],
          on_duplicate_key_update ''feats''
            [''index'', ''name'', ''prerequisites'', ''description''])))"

definition weapon_properties_recordBuilder :: "js \<Rightarrow> js_error + js_object \<times> statement" where
  "weapon_properties_recordBuilder detailData =
     bindE (read detailData ''index'') (\<lambda>index.
     bindE (join (field detailData ''desc'') ''\<newline>\<newline>'') (\<lambda>description.
     Inr ([(''index'', index), (''name'', field detailData ''name''),
           (''description'', description)],
          on_duplicate_key_update ''weapon_properties'' [''index'', ''name'', ''description''])))"

section \<open>The enriched path\<close>

text \<open>
  The body of a transaction awaits its queries one after the other and never uses what a
  query returns: a query matters to the rest of the body only by failing, which throws.
  So a body is modelled by the statements it awaits, in order, up to the point where it
  throws an error of its own or ends. Running it hands the statements to the connection
  one by one and stops at the first that fails.
\<close>

type_synonym 'a async = "(statement \<times> js) list \<times> (js_error + 'a)"

definition bindA :: "'a async \<Rightarrow> ('a \<Rightarrow> 'b async) \<Rightarrow> 'b async" where
  "bindA m f =
     (case m of
        (qs, Inl e) \<Rightarrow> (qs, Inl e)
      | (qs, Inr x) \<Rightarrow> (case f x of (qs', r) \<Rightarrow> (qs @ qs', r)))"

text \<open>An expression that awaits nothing and may throw.\<close>

definition evaluate :: "js_error + 'a \<Rightarrow> 'a async" where
  "evaluate m = ([], m)"

text \<open>\<open>await queryAsync(connection, sql, values)\<close>\<close>

definition queryAsync :: "statement \<Rightarrow> js \<Rightarrow> unit async" where
  "queryAsync sql vals = ([(sql, vals)], Inr ())"

text \<open>A \<open>for\<close> loop whose body awaits queries and may throw.\<close>

fun forA :: "('a \<Rightarrow> unit async) \<Rightarrow> 'a list \<Rightarrow> unit async" where
  "forA body [] = ([], Inr ())"
| "forA body (x # xs) = bindA (body x) (\<lambda>u. forA body xs)"

fun run_queries :: "(statement \<times> js) list \<Rightarrow> db \<Rightarrow> js_error + db" where
  "run_queries [] d = Inr d"
| "run_queries ((sql, vals) # qs) d = bindE (query sql vals d) (run_queries qs)"

definition run :: "unit async \<Rightarrow> db \<Rightarrow> js_error + db" where
  "run body d =
     (case body of (qs, r) \<Rightarrow>
        bindE (run_queries qs d) (\<lambda>d'. case r of Inl e \<Rightarrow> Inl e | Inr u \<Rightarrow> Inr d'))"

text \<open>
  \<open>connection.beginTransaction\<close> ... \<open>connection.commit\<close>, with
  \<open>connection.rollback(() => reject(e))\<close> in the \<open>catch\<close>: when the body throws, the store
  is what it was before the transaction and the error is passed on.
\<close>

definition transaction :: "unit async \<Rightarrow> world \<Rightarrow> js_error option \<times> world" where
  "transaction body w =
     (case run body (store w) of
        Inl e \<Rightarrow> (Some e, w)
      | Inr d \<Rightarrow> (None, w\<lparr>store := d\<rparr>))"

text \<open>
  The loop over the list that the seven enriched functions share: fetch what the item
  needs, run its transaction, and stop at the first error.
\<close>

fun sync_items ::
  "(js \<Rightarrow> world \<Rightarrow> (js_error + 'a) \<times> world) \<Rightarrow> ('a \<Rightarrow> unit async) \<Rightarrow> js list \<Rightarrow> world
     \<Rightarrow> js_error option \<times> world" where
  "sync_items fetch_item body [] w = (None, w)"
| "sync_items fetch_item body (item # items) w =
     (case fetch_item item w of
        (Inl e, w1) \<Rightarrow> (Some e, w1)
      | (Inr fetched, w1) \<Rightarrow>
         (case transaction (body fetched) w1 of
            (Some e, w2) \<Rightarrow> (Some e, w2)
          | (None, w2) \<Rightarrow> sync_items fetch_item body items w2))"

text \<open>
  The frame the seven enriched functions share: fetch the list, loop, and answer
  \<open>`${Label} synced successfully! ${endpoints.length} records processed.`\<close> or the failure.
\<close>

definition sync_enriched ::
  "remote \<Rightarrow> string \<Rightarrow> string \<Rightarrow> (js \<Rightarrow> world \<Rightarrow> (js_error + 'a) \<times> world)
     \<Rightarrow> ('a \<Rightarrow> unit async) \<Rightarrow> world \<Rightarrow> response \<times> world" where
  "sync_enriched api resource label fetch_item body w =
     (case fetch_json api (''https://www.dnd5eapi.co/api/'' @ resource) w of
        (Inl e, w1) \<Rightarrow> (failure e, w1)
      | (Inr listData, w1) \<Rightarrow>
         (case bindE (read listData ''results'') for_of of
            Inl e \<Rightarrow> (failure e, w1)
          | Inr endpoints \<Rightarrow>
             (case sync_items fetch_item body endpoints w1 of
                (Some e, w2) \<Rightarrow> (failure e, w2)
              | (None, w2) \<Rightarrow>
                 (\<lparr>status = 200, success = True,
                   message = label @ '' synced successfully! ''
                     @ ToString (field (field listData ''results'') ''length'')
                     @ '' records processed.''\<rparr>,
                  w2))))"

text \<open>
  The head of each pass: \<open>console.log(`--- Processing ...: ${item.name} ---`)\<close>, which reads
  a property of the item, then the fetch of \<open>item.url\<close>.
\<close>

definition fetch_detail :: "remote \<Rightarrow> js \<Rightarrow> world \<Rightarrow> (js_error + js) \<times> world" where
  "fetch_detail api item w =
     (case read item ''name'' of
        Inl e \<Rightarrow> (Inl e, w)
      | Inr name \<Rightarrow> fetch_json api (''https://www.dnd5eapi.co'' @ ToString (field item ''url'')) w)"

text \<open>\<open>await queryAsync(connection, "DELETE FROM t WHERE c = ?", [detailData.index])\<close>\<close>

definition delete_where :: "string \<Rightarrow> string \<Rightarrow> js \<Rightarrow> unit async" where
  "delete_where t c index = queryAsync (DeleteWhere t c) (JArr [index])"

text \<open>
  \<open>for (const x of xs) await queryAsync(connection, "INSERT INTO t (a, b) VALUES (?, ?)",
  [detailData.index, x.index])\<close>, the loop that fills a table of links.
\<close>

definition insert_links :: "string \<Rightarrow> string list \<Rightarrow> js \<Rightarrow> js \<Rightarrow> unit async" where
  "insert_links t cols index xs =
     bindA (evaluate (for_of xs)) (\<lambda>items.
       forA (\<lambda>x. bindA (evaluate (read x ''index''))
                (\<lambda>x_index. queryAsync (InsertValues t cols) (JArr [index, x_index])))
            items)"

text \<open>\<open>processed.has(v)\<close> for a \<open>Set\<close>: values are compared, objects and arrays by identity,
  and two parts of a parsed document are never the same object.\<close>

definition Set_has :: "js list \<Rightarrow> js \<Rightarrow> bool" where
  "Set_has processed v =
     (case v of JArr xs \<Rightarrow> False | JObj kvs \<Rightarrow> False | _ \<Rightarrow> v \<in> set processed)"

subsection \<open>syncClasses\<close>

definition fetch_class :: "remote \<Rightarrow> js \<Rightarrow> world \<Rightarrow> (js_error + js \<times> js \<times> js) \<times> world" where
  "fetch_class api classItem w =
     (case fetch_detail api classItem w of
        (Inl e, w1) \<Rightarrow> (Inl e, w1)
      | (Inr detailData, w1) \<Rightarrow>
         (case read detailData ''class_levels'' of
            Inl e \<Rightarrow> (Inl e, w1)
          | Inr class_levels \<Rightarrow>
             (case fetch_json api (''https://www.dnd5eapi.co'' @ ToString class_levels) w1 of
                (Inl e, w2) \<Rightarrow> (Inl e, w2)
              | (Inr levelsData, w2) \<Rightarrow>
                 if truthy (field detailData ''spells'')
                 then (case fetch_json api
                              (''https://www.dnd5eapi.co'' @ ToString (field detailData ''spells'')) w2 of
                         (Inl e, w3) \<Rightarrow> (Inl e, w3)
                       | (Inr spellsJson, w3) \<Rightarrow>
                          (case read spellsJson ''results'' of
                             Inl e \<Rightarrow> (Inl e, w3)
                           | Inr results \<Rightarrow>
                              (Inr (detailData, levelsData,
                                    if truthy results then results else JArr []), w3)))
                 else (Inr (detailData, levelsData, JArr []), w2))))"

definition classRecord :: "js \<Rightarrow> js_error + js_object" where
  "classRecord detailData =
     bindE (read detailData ''index'') (\<lambda>index.
     bindE (map_method (field detailData ''saving_throws'') (\<lambda>s. read s ''name''))
       (\<lambda>saving_throws.
     Inr [(''index'', index), (''name'', field detailData ''name''),
          (''hit_die'', field detailData ''hit_die''),
          (''saving_throws'', JSON_stringify saving_throws),
          (''multi_classing'', JSON_stringify (field detailData ''multi_classing'')),
          (''spellcasting'', JSON_stringify (field detailData ''spellcasting''))]))"

definition classQuery :: statement where
  "classQuery = on_duplicate_key_update ''classes''
     [''index'', ''name'', ''hit_die'', ''saving_throws'', ''multi_classing'', ''spellcasting'']"

definition levelRecord :: "js \<Rightarrow> js \<Rightarrow> js_error + js_object" where
  "levelRecord index level =
     bindE (read level ''level'') (\<lambda>level_level.
     bindE (map_method (field level ''features'') (\<lambda>f. read f ''name'')) (\<lambda>features.
     Inr [(''class_index'', index), (''level'', level_level),
          (''ability_score_bonuses'', field level ''ability_score_bonuses''),
          (''prof_bonus'', field level ''prof_bonus''),
          (''features'', JSON_stringify features),
          (''class_specific'', JSON_stringify (field level ''class_specific''))]))"

definition insert_class_level :: "js \<Rightarrow> js \<Rightarrow> unit async" where
  "insert_class_level index level =
     bindA (evaluate (levelRecord index level)) (\<lambda>newLevel.
     queryAsync (InsertSet ''class_levels'') (JObj newLevel))"

definition insert_class_spell :: "js \<Rightarrow> js \<Rightarrow> unit async" where
  "insert_class_spell index spell =
     bindA (evaluate (read spell ''index'')) (\<lambda>spell_index.
     queryAsync (InsertValues ''class_spells'' [''class_index'', ''spell_index'', ''level_acquired''])
       (JArr [index, spell_index, field spell ''level'']))"

text \<open>\<open>choice.from.options.map(o => o.item ? o.item.index : null).filter(Boolean)\<close>\<close>

definition proficiency_options :: "js \<Rightarrow> js_error + js" where
  "proficiency_options choice =
     bindE (path choice [''from'', ''options'']) (\<lambda>options.
     bindE (map_method options
              (\<lambda>opt. bindE (read opt ''item'')
                 (\<lambda>item. Inr (if truthy item then field item ''index'' else JNull))))
       (\<lambda>mapped. case mapped of
                    JArr xs \<Rightarrow> Inr (JArr (filter truthy xs))
                  | _ \<Rightarrow> Inr mapped))"

definition proficiency_choiceRecord :: "js \<Rightarrow> nat \<times> js \<Rightarrow> js_error + js_object" where
  "proficiency_choiceRecord index entry =
     (case entry of (i, choice) \<Rightarrow>
        bindE (read choice ''desc'') (\<lambda>desc.
        bindE (proficiency_options choice) (\<lambda>options.
        Inr [(''class_index'', index), (''choice_index'', JNum (int i)),
             (''description'', desc), (''choose'', field choice ''choose''),
             (''type'', field choice ''type''),
             (''options'', JSON_stringify options)])))"

definition insert_proficiency_choice :: "js \<Rightarrow> nat \<times> js \<Rightarrow> unit async" where
  "insert_proficiency_choice index entry =
     bindA (evaluate (proficiency_choiceRecord index entry)) (\<lambda>choiceRecord.
     queryAsync (InsertSet ''class_proficiency_choices'') (JObj choiceRecord))"

definition insert_starting_equipment :: "js \<Rightarrow> js \<Rightarrow> unit async" where
  "insert_starting_equipment index item =
     bindA (evaluate (read item ''equipment'')) (\<lambda>equipment.
       if truthy equipment \<and> truthy (field equipment ''index'')
       then queryAsync
              (InsertValues ''class_starting_equipment''
                 [''class_index'', ''equipment_index'', ''quantity''])
              (JArr [index, field equipment ''index'', field item ''quantity''])
       else ([], Inr ()))"

definition equipment_optionRecord :: "js \<Rightarrow> nat \<times> js \<Rightarrow> js_error + js_object" where
  "equipment_optionRecord index entry =
     (case entry of (i, choice) \<Rightarrow>
        bindE (read choice ''desc'') (\<lambda>desc.
        bindE (path choice [''from'', ''options'']) (\<lambda>options.
        Inr [(''class_index'', index), (''choice_index'', JNum (int i)),
             (''description'', desc), (''choose'', field choice ''choose''),
             (''options'', JSON_stringify options)])))"

definition insert_starting_equipment_option :: "js \<Rightarrow> nat \<times> js \<Rightarrow> unit async" where
  "insert_starting_equipment_option index entry =
     bindA (evaluate (equipment_optionRecord index entry)) (\<lambda>choiceRecord.
     queryAsync (InsertSet ''class_starting_equipment_options'') (JObj choiceRecord))"

text \<open>\<open>xs.entries()\<close>\<close>

definition entries :: "js \<Rightarrow> js_error + (nat \<times> js) list" where
  "entries v = bindE (as_array v ''entries'') (\<lambda>xs. Inr (zip [0 ..< length xs] xs))"

definition class_transaction :: "js \<times> js \<times> js \<Rightarrow> unit async" where
  "class_transaction fetched =
     (case fetched of (detailData, levelsData, spellsData) \<Rightarrow>
     bindA (evaluate (classRecord detailData)) (\<lambda>newRecord.
     bindA (queryAsync classQuery (Object_values newRecord)) (\<lambda>u.
     bindA (delete_where ''class_levels'' ''class_index'' (field detailData ''index'')) (\<lambda>u.
     bindA (delete_where ''class_spells'' ''class_index'' (field detailData ''index'')) (\<lambda>u.
     bindA (delete_where ''class_proficiency_choices'' ''class_index''
              (field detailData ''index'')) (\<lambda>u.
     bindA (delete_where ''class_starting_equipment'' ''class_index''
              (field detailData ''index'')) (\<lambda>u.
     bindA (delete_where ''class_starting_equipment_options'' ''class_index''
              (field detailData ''index'')) (\<lambda>u.
     bindA (evaluate (for_of levelsData)) (\<lambda>levels.
     bindA (forA (insert_class_level (field detailData ''index'')) levels) (\<lambda>u.
     bindA (case spellsData of
              JArr spells \<Rightarrow> forA (insert_class_spell (field detailData ''index'')) spells
            | _ \<Rightarrow> ([], Inr ())) (\<lambda>u.
     bindA (evaluate (entries (field detailData ''proficiency_choices''))) (\<lambda>choices.
     bindA (forA (insert_proficiency_choice (field detailData ''index'')) choices) (\<lambda>u.
     bindA (evaluate (for_of (field detailData ''starting_equipment''))) (\<lambda>items.
     bindA (forA (insert_starting_equipment (field detailData ''index'')) items) (\<lambda>u.
     bindA (evaluate (entries (field detailData ''starting_equipment_options'')))
       (\<lambda>equipment_options.
     forA (insert_starting_equipment_option (field detailData ''index''))
          equipment_options))))))))))))))))"

definition syncClasses :: "remote \<Rightarrow> world \<Rightarrow> response \<times> world" where
  "syncClasses api w =
     sync_enriched api ''classes'' ''Classes'' (fetch_class api) class_transaction w"

subsection \<open>syncMonsters\<close>

definition monsterRecord :: "js \<Rightarrow> js_error + js_object" where
  "monsterRecord detailData =
     bindE (read detailData ''index'') (\<lambda>index.
     Inr [(''index'', index), (''name'', field detailData ''name''),
          (''size'', field detailData ''size''), (''type'', field detailData ''type''),
          (''subtype'', or_else (field detailData ''subtype'') JNull),
          (''alignment'', field detailData ''alignment''),
          (''armor_class'', JSON_stringify (field detailData ''armor_class'')),
          (''hit_points'', field detailData ''hit_points''),
          (''hit_dice'', field detailData ''hit_dice''),
          (''speed'', JSON_stringify (field detailData ''speed'')),
          (''strength'', field detailData ''strength''),
          (''dexterity'', field detailData ''dexterity''),
          (''constitution'', field detailData ''constitution''),
          (''intelligence'', field detailData ''intelligence''),
          (''wisdom'', field detailData ''wisdom''),
          (''charisma'', field detailData ''charisma''),
          (''damage_vulnerabilities'', JSON_stringify (field detailData ''damage_vulnerabilities'')),
          (''damage_resistances'', JSON_stringify (field detailData ''damage_resistances'')),
          (''damage_immunities'', JSON_stringify (field detailData ''damage_immunities'')),
          (''senses'', JSON_stringify (field detailData ''senses'')),
          (''languages'', field detailData ''languages''),
          (''challenge_rating'', field detailData ''challenge_rating''),
          (''xp'', field detailData ''xp''),
          (''special_abilities'', JSON_stringify (field detailData ''special_abilities'')),
          (''actions'', JSON_stringify (field detailData ''actions'')),
          (''legendary_actions'', JSON_stringify (field detailData ''legendary_actions''))])"

definition monsterQuery :: statement where
  "monsterQuery = on_duplicate_key_update ''monsters''
     [''index'', ''name'', ''size'', ''type'', ''subtype'', ''alignment'', ''armor_class'',
      ''hit_points'', ''hit_dice'', ''speed'', ''strength'', ''dexterity'', ''constitution'',
      ''intelligence'', ''wisdom'', ''charisma'', ''damage_vulnerabilities'',
      ''damage_resistances'', ''damage_immunities'', ''senses'', ''languages'',
      ''challenge_rating'', ''xp'', ''special_abilities'', ''actions'', ''legendary_actions'']"

definition insert_monster_proficiency :: "js \<Rightarrow> js \<Rightarrow> unit async" where
  "insert_monster_proficiency index prof =
     bindA (evaluate (path prof [''proficiency'', ''index''])) (\<lambda>proficiency_index.
     queryAsync (InsertSet ''monster_proficiencies'')
       (JObj [(''monster_index'', index), (''proficiency_index'', proficiency_index),
              (''value'', field prof ''value'')]))"

text \<open>The loop over \<open>condition_immunities\<close>, with its \<open>processedConditions\<close> set.\<close>

fun insert_condition_immunities :: "js \<Rightarrow> js list \<Rightarrow> js list \<Rightarrow> unit async" where
  "insert_condition_immunities index [] processedConditions = ([], Inr ())"
| "insert_condition_immunities index (cond # conds) processedConditions =
     bindA (evaluate (read cond ''index'')) (\<lambda>cond_index.
       if \<not> Set_has processedConditions cond_index
       then bindA (queryAsync
                     (InsertValues ''monster_condition_immunities''
                        [''monster_index'', ''condition_index''])
                     (JArr [index, cond_index]))
              (\<lambda>u. insert_condition_immunities index conds
                      (processedConditions @ [cond_index]))
       else insert_condition_immunities index conds processedConditions)"

definition monster_transaction :: "js \<Rightarrow> unit async" where
  "monster_transaction detailData =
     bindA (evaluate (monsterRecord detailData)) (\<lambda>newRecord.
     bindA (queryAsync monsterQuery (Object_values newRecord)) (\<lambda>u.
     bindA (delete_where ''monster_proficiencies'' ''monster_index''
              (field detailData ''index'')) (\<lambda>u.
     bindA (delete_where ''monster_condition_immunities'' ''monster_index''
              (field detailData ''index'')) (\<lambda>u.
     bindA (evaluate (for_of (field detailData ''proficiencies''))) (\<lambda>proficiencies.
     bindA (forA (insert_monster_proficiency (field detailData ''index'')) proficiencies)
       (\<lambda>u.
     bindA (evaluate (for_of (field detailData ''condition_immunities'')))
       (\<lambda>condition_immunities.
     insert_condition_immunities (field detailData ''index'') condition_immunities [])))))))"

definition syncMonsters :: "remote \<Rightarrow> world \<Rightarrow> response \<times> world" where
  "syncMonsters api w =
     sync_enriched api ''monsters'' ''Monsters'' (fetch_detail api) monster_transaction w"

subsection \<open>syncProficiencies\<close>

definition profRecord :: "js \<Rightarrow> js_error + js_object" where
  "profRecord detailData =
     bindE (read detailData ''index'') (\<lambda>index.
     Inr [(''index'', index), (''name'', field detailData ''name''),
          (''type'', field detailData ''type''),
          (''reference_index'', if_present detailData ''reference'' ''index'')])"

definition profQuery :: statement where
  "profQuery = on_duplicate_key_update ''proficiencies''
     [''index'', ''name'', ''type'', ''reference_index'']"

definition proficiency_transaction :: "js \<Rightarrow> unit async" where
  "proficiency_transaction detailData =
     bindA (evaluate (profRecord detailData)) (\<lambda>newRecord.
     bindA (queryAsync profQuery (Object_values newRecord)) (\<lambda>u.
     bindA (delete_where ''proficiency_classes'' ''proficiency_index''
              (field detailData ''index'')) (\<lambda>u.
     bindA (delete_where ''proficiency_races'' ''proficiency_index''
              (field detailData ''index'')) (\<lambda>u.
     bindA (insert_links ''proficiency_classes'' [''proficiency_index'', ''class_index'']
              (field detailData ''index'') (field detailData ''classes'')) (\<lambda>u.
     insert_links ''proficiency_races'' [''proficiency_index'', ''race_index'']
       (field detailData ''index'') (field detailData ''races''))))))"

definition syncProficiencies :: "remote \<Rightarrow> world \<Rightarrow> response \<times> world" where
  "syncProficiencies api w =
     sync_enriched api ''proficiencies'' ''Proficiencies'' (fetch_detail api)
       proficiency_transaction w"

subsection \<open>syncRaces\<close>

definition raceRecord :: "js \<Rightarrow> js_error + js_object" where
  "raceRecord detailData =
     bindE (read detailData ''index'') (\<lambda>index.
     Inr [(''index'', index), (''name'', field detailData ''name''),
          (''speed'', field detailData ''speed''),
          (''ability_bonuses'', JSON_stringify (field detailData ''ability_bonuses'')),
          (''alignment'', field detailData ''alignment''),
          (''age'', field detailData ''age''), (''size'', field detailData ''size''),
          (''size_description'', field detailData ''size_description''),
          (''language_desc'', field detailData ''language_desc'')])"

definition raceQuery :: statement where
  "raceQuery = on_duplicate_key_update ''races''
     [''index'', ''name'', ''speed'', ''ability_bonuses'', ''alignment'', ''age'', ''size'',
      ''size_description'', ''language_desc'']"

definition race_transaction :: "js \<Rightarrow> unit async" where
  "race_transaction detailData =
     bindA (evaluate (raceRecord detailData)) (\<lambda>newRecord.
     bindA (queryAsync raceQuery (Object_values newRecord)) (\<lambda>u.
     bindA (delete_where ''race_proficiencies'' ''race_index'' (field detailData ''index''))
       (\<lambda>u.
     bindA (delete_where ''race_languages'' ''race_index'' (field detailData ''index''))
       (\<lambda>u.
     bindA (delete_where ''race_traits'' ''race_index'' (field detailData ''index''))
       (\<lambda>u.
     bindA (insert_links ''race_proficiencies'' [''race_index'', ''proficiency_index'']
              (field detailData ''index'') (field detailData ''starting_proficiencies''))
       (\<lambda>u.
     bindA (insert_links ''race_languages'' [''race_index'', ''language_index'']
              (field detailData ''index'') (field detailData ''languages'')) (\<lambda>u.
     insert_links ''race_traits'' [''race_index'', ''trait_index'']
       (field detailData ''index'') (field detailData ''traits''))))))))"

definition syncRaces :: "remote \<Rightarrow> world \<Rightarrow> response \<times> world" where
  "syncRaces api w =
     sync_enriched api ''races'' ''Races'' (fetch_detail api) race_transaction w"

subsection \<open>syncSpells\<close>

definition spellRecord :: "js \<Rightarrow> js_error + js_object" where
  "spellRecord detailData =
     bindE (read detailData ''index'') (\<lambda>index.
     bindE (join (field detailData ''desc'') ''\<newline>\<newline>'') (\<lambda>description.
     bindE (if truthy (field detailData ''higher_level'')
            then join (field detailData ''higher_level'') ''\<newline>\<newline>''
            else Inr JNull) (\<lambda>higher_level.
     bindE (path detailData [''school'', ''index'']) (\<lambda>school_index.
     Inr [(''index'', index), (''name'', field detailData ''name''),
          (''description'', description),
          (''higher_level'', higher_level),
          (''spell_range'', field detailData ''range''),
          (''components'', JSON_stringify (field detailData ''components'')),
          (''material'', or_else (field detailData ''material'') JNull),
          (''ritual'', field detailData ''ritual''),
          (''duration'', field detailData ''duration''),
          (''concentration'', field detailData ''concentration''),
          (''casting_time'', field detailData ''casting_time''),
          (''spell_level'', field detailData ''level''),
          (''school_index'', school_index),
          (''damage'', JSON_stringify (field detailData ''damage''))]))))"

definition spellQuery :: statement where
  "spellQuery = on_duplicate_key_update ''spells''
     [''index'', ''name'', ''description'', ''higher_level'', ''spell_range'', ''components'',
      ''material'', ''ritual'', ''duration'', ''concentration'', ''casting_time'',
      ''spell_level'', ''school_index'', ''damage'']"

definition spell_transaction :: "js \<Rightarrow> unit async" where
  "spell_transaction detailData =
     bindA (evaluate (spellRecord detailData)) (\<lambda>newRecord.
     bindA (queryAsync spellQuery (Object_values newRecord)) (\<lambda>u.
     bindA (delete_where ''spell_classes'' ''spell_index'' (field detailData ''index''))
       (\<lambda>u.
     bindA (delete_where ''spell_subclasses'' ''spell_index'' (field detailData ''index''))
       (\<lambda>u.
     bindA (insert_links ''spell_classes'' [''spell_index'', ''class_index'']
              (field detailData ''index'') (field detailData ''classes'')) (\<lambda>u.
     insert_links ''spell_subclasses'' [''spell_index'', ''subclass_index'']
       (field detailData ''index'') (field detailData ''subclasses''))))))"

definition syncSpells :: "remote \<Rightarrow> world \<Rightarrow> response \<times> world" where
  "syncSpells api w =
     sync_enriched api ''spells'' ''Spells'' (fetch_detail api) spell_transaction w"

subsection \<open>syncSubclasses\<close>

definition fetch_subclass :: "remote \<Rightarrow> js \<Rightarrow> world \<Rightarrow> (js_error + js \<times> js) \<times> world" where
  "fetch_subclass api subItem w =
     (case fetch_detail api subItem w of
        (Inl e, w1) \<Rightarrow> (Inl e, w1)
      | (Inr detailData, w1) \<Rightarrow>
         (case read detailData ''subclass_levels'' of
            Inl e \<Rightarrow> (Inl e, w1)
          | Inr subclass_levels \<Rightarrow>
             (case fetch_json api (''https://www.dnd5eapi.co'' @ ToString subclass_levels) w1 of
                (Inl e, w2) \<Rightarrow> (Inl e, w2)
              | (Inr levelsData, w2) \<Rightarrow> (Inr (detailData, levelsData), w2))))"

definition subRecord :: "js \<Rightarrow> js_error + js_object" where
  "subRecord detailData =
     bindE (read detailData ''index'') (\<lambda>index.
     bindE (path detailData [''class'', ''index'']) (\<lambda>class_index.
     bindE (join (field detailData ''desc'') ''\<newline>\<newline>'') (\<lambda>description.
     Inr [(''index'', index), (''name'', field detailData ''name''),
          (''class_index'', class_index),
          (''subclass_flavor'', field detailData ''subclass_flavor''),
          (''description'', description)])))"

definition subQuery :: statement where
  "subQuery = on_duplicate_key_update ''subclasses''
     [''index'', ''name'', ''class_index'', ''subclass_flavor'', ''description'']"

definition subclass_levelRecord :: "js \<Rightarrow> js \<Rightarrow> js_error + js_object" where
  "subclass_levelRecord index level =
     bindE (read level ''level'') (\<lambda>level_level.
     bindE (map_method (field level ''features'') (\<lambda>f. read f ''index'')) (\<lambda>features.
     Inr [(''subclass_index'', index), (''level'', level_level),
          (''features'', JSON_stringify features)]))"

definition insert_subclass_level :: "js \<Rightarrow> js \<Rightarrow> unit async" where
  "insert_subclass_level index level =
     bindA (evaluate (subclass_levelRecord index level)) (\<lambda>newLevel.
     queryAsync (InsertSet ''subclass_levels'') (JObj newLevel))"

text \<open>The loop over \<open>detailData.spells\<close>, with its \<open>processedSpells\<close> set.\<close>

fun insert_subclass_spells :: "js \<Rightarrow> js list \<Rightarrow> js list \<Rightarrow> unit async" where
  "insert_subclass_spells index [] processedSpells = ([], Inr ())"
| "insert_subclass_spells index (spell # spells) processedSpells =
     bindA (evaluate (path spell [''spell'', ''index''])) (\<lambda>spell_index.
       if \<not> Set_has processedSpells spell_index
       then bindA (evaluate (map_method (field spell ''prerequisites'') (\<lambda>p. read p ''index'')))
              (\<lambda>prerequisites.
            bindA (queryAsync (InsertSet ''subclass_spells'')
                     (JObj [(''subclass_index'', index), (''spell_index'', spell_index),
                            (''prerequisites'', JSON_stringify prerequisites)]))
              (\<lambda>u. insert_subclass_spells index spells (processedSpells @ [spell_index])))
       else insert_subclass_spells index spells processedSpells)"

definition subclass_transaction :: "js \<times> js \<Rightarrow> unit async" where
  "subclass_transaction fetched =
     (case fetched of (detailData, levelsData) \<Rightarrow>
     bindA (evaluate (subRecord detailData)) (\<lambda>newRecord.
     bindA (queryAsync subQuery (Object_values newRecord)) (\<lambda>u.
     bindA (delete_where ''subclass_levels'' ''subclass_index'' (field detailData ''index''))
       (\<lambda>u.
     bindA (delete_where ''subclass_spells'' ''subclass_index'' (field detailData ''index''))
       (\<lambda>u.
     bindA (evaluate (for_of levelsData)) (\<lambda>levels.
     bindA (forA (insert_subclass_level (field detailData ''index'')) levels) (\<lambda>u.
     if truthy (field detailData ''spells'')
     then bindA (evaluate (for_of (field detailData ''spells'')))
            (\<lambda>spells. insert_subclass_spells (field detailData ''index'') spells [])
     else ([], Inr ()))))))))"

definition syncSubclasses :: "remote \<Rightarrow> world \<Rightarrow> response \<times> world" where
  "syncSubclasses api w =
     sync_enriched api ''subclasses'' ''Subclasses'' (fetch_subclass api)
       subclass_transaction w"

subsection \<open>syncTraits\<close>

definition traitRecord :: "js \<Rightarrow> js_error + js_object" where
  "traitRecord detailData =
     bindE (read detailData ''index'') (\<lambda>index.
     bindE (join (field detailData ''desc'') ''\<newline>\<newline>'') (\<lambda>description.
     Inr [(''index'', index), (''name'', field detailData ''name''),
          (''description'', description)]))"

definition traitQuery :: statement where
  "traitQuery = on_duplicate_key_update ''traits'' [''index'', ''name'', ''description'']"

definition trait_transaction :: "js \<Rightarrow> unit async" where
  "trait_transaction detailData =
     bindA (evaluate (traitRecord detailData)) (\<lambda>newRecord.
     bindA (queryAsync traitQuery (Object_values newRecord)) (\<lambda>u.
     bindA (delete_where ''trait_races'' ''trait_index'' (field detailData ''index''))
       (\<lambda>u.
     bindA (delete_where ''trait_subraces'' ''trait_index'' (field detailData ''index''))
       (\<lambda>u.
     bindA (delete_where ''trait_proficiencies'' ''trait_index'' (field detailData ''index''))
       (\<lambda>u.
     bindA (insert_links ''trait_races'' [''trait_index'', ''race_index'']
              (field detailData ''index'') (field detailData ''races'')) (\<lambda>u.
     bindA (insert_links ''trait_subraces'' [''trait_index'', ''subrace_index'']
              (field detailData ''index'') (field detailData ''subraces'')) (\<lambda>u.
     insert_links ''trait_proficiencies'' [''trait_index'', ''proficiency_index'']
       (field detailData ''index'') (field detailData ''proficiencies''))))))))"

definition syncTraits :: "remote \<Rightarrow> world \<Rightarrow> response \<times> world" where
  "syncTraits api w =
     sync_enriched api ''traits'' ''Traits'' (fetch_detail api) trait_transaction w"

section \<open>The routes\<close>

text \<open>
  The enriched functions await every query they issue, so a request to one of them
  always ends with an answer.
\<close>

definition responds :: "(world \<Rightarrow> response \<times> world) \<Rightarrow> world \<Rightarrow> outcome \<times> world" where
  "responds sync w = (case sync w of (res, w') \<Rightarrow> (Responds res, w'))"

text \<open>
  The \<open>app.get\<close> routes of server.js, in the order of the file: each path with the sync
  it starts. Seventeen go through \<open>syncResource\<close> with their record builder, seven
  through their own function.
\<close>

definition routes :: "remote \<Rightarrow> (string \<times> (world \<Rightarrow> outcome \<times> world)) list" where
  "routes api =
     [(''/sync-ability-scores'',
         syncResource api ''ability-scores'' ''ability_scores'' ability_scores_recordBuilder),
      (''/sync-classes'', responds (syncClasses api)),
      (''/sync-monsters'', responds (syncMonsters api)),
      (''/sync-proficiencies'', responds (syncProficiencies api)),
      (''/sync-races'', responds (syncRaces api)),
      (''/sync-rules'', syncResource api ''rules'' ''rules'' rules_recordBuilder),
      (''/sync-rule-sections'',
         syncResource api ''rule-sections'' ''rule_sections'' rule_sections_recordBuilder),
      (''/sync-spells'', responds (syncSpells api)),
      (''/sync-subclasses'', responds (syncSubclasses api)),
      (''/sync-traits'', responds (syncTraits api)),
      (''/sync-skills'', syncResource api ''skills'' ''skills'' skills_recordBuilder),
      (''/sync-subraces'', syncResource api ''subraces'' ''subraces'' subraces_recordBuilder),
      (''/sync-magic-schools'',
         syncResource api ''magic-schools'' ''magic_schools'' magic_schools_recordBuilder),
      (''/sync-languages'', syncResource api ''languages'' ''languages'' languages_recordBuilder),
      (''/sync-features'', syncResource api ''features'' ''features'' features_recordBuilder),
      (''/sync-equipment-categories'',
         syncResource api ''equipment-categories'' ''equipment_categories''
           equipment_categories_recordBuilder),
      (''/sync-damage-types'',
         syncResource api ''damage-types'' ''damage_types'' damage_types_recordBuilder),
      (''/sync-conditions'',
         syncResource api ''conditions'' ''conditions'' conditions_recordBuilder),
      (''/sync-equipment'', syncResource api ''equipment'' ''equipment'' equipment_recordBuilder),
      (''/sync-magic-items'',
         syncResource api ''magic-items'' ''magic_items'' magic_items_recordBuilder),
      (''/sync-alignments'',
         syncResource api ''alignments'' ''alignments'' alignments_recordBuilder),
      (''/sync-backgrounds'',
         syncResource api ''backgrounds'' ''backgrounds'' backgrounds_recordBuilder),
      (''/sync-feats'', syncResource api ''feats'' ''feats'' feats_recordBuilder),
      (''/sync-weapon-properties'',
         syncResource api ''weapon-properties'' ''weapon_properties''
           weapon_properties_recordBuilder)]"

section \<open>Scenarios\<close>

text \<open>The skills scenario: one list entry, Acrobatics, and its detail document.\<close>

definition skills_list :: js where
  "skills_list = JObj [(''count'', JNum 1),
     (''results'', JArr [JObj [(''name'', JStr ''Acrobatics''), (''url'', JStr ''/api/skills/acrobatics'')]])]"

definition acrobatics :: js where
  "acrobatics = JObj [(''index'', JStr ''acrobatics''), (''name'', JStr ''Acrobatics''),
     (''desc'', JArr [JStr ''para1'', JStr ''para2'']),
     (''ability_score'', JObj [(''name'', JStr ''DEX'')])]"

definition acrobatics_row :: row where
  "acrobatics_row = [(''index'', SqlStr ''acrobatics''), (''name'', SqlStr ''Acrobatics''),
     (''description'', SqlStr ''para1\<newline>\<newline>para2''), (''ability_score'', SqlStr ''DEX'')]"

definition skills_api :: remote where
  "skills_api url =
     (if url = ''https://www.dnd5eapi.co/api/skills'' then Inr skills_list
      else if url = ''https://www.dnd5eapi.co/api/skills/acrobatics'' then Inr acrobatics
      else Inl (FetchError ''request failed''))"

definition empty_world :: world where
  "empty_world = \<lparr>store = (\<lambda>t. []), requests = []\<rparr>"

text \<open>
  A rule and a school of magic whose detail documents give the description as two
  paragraphs, and the records their builders make of them.
\<close>

definition two_paragraphs :: js where
  "two_paragraphs = JArr [JStr ''para1'', JStr ''para2'']"

definition adventuring :: js where
  "adventuring = JObj [(''index'', JStr ''adventuring''), (''name'', JStr ''Adventuring''),
     (''desc'', two_paragraphs)]"

definition evocation :: js where
  "evocation = JObj [(''index'', JStr ''evocation''), (''name'', JStr ''Evocation''),
     (''desc'', two_paragraphs)]"

definition adventuring_record :: js_object where
  "adventuring_record =
     [(''index'', JStr ''adventuring''), (''name'', JStr ''Adventuring''),
      (''description'', two_paragraphs), (''rule_section_index'', JNull)]"

definition evocation_record :: js_object where
  "evocation_record =
     [(''index'', JStr ''evocation''), (''name'', JStr ''Evocation''),
      (''description'', two_paragraphs)]"

text \<open>A monster without a subtype; a spell without higher-level text or material.\<close>

definition goblin :: js where
  "goblin = JObj [(''index'', JStr ''goblin''), (''name'', JStr ''Goblin''),
     (''size'', JStr ''Small''), (''type'', JStr ''humanoid'')]"

definition light :: js where
  "light = JObj [(''index'', JStr ''light''), (''name'', JStr ''Light''),
     (''desc'', JArr [JStr ''You touch one object.'']),
     (''school'', JObj [(''index'', JStr ''evocation'')])]"

text \<open>The guard of the starting-equipment loop: \<open>item.equipment && item.equipment.index\<close>\<close>

definition has_equipment :: "js \<Rightarrow> bool" where
  "has_equipment item =
     (truthy (field item ''equipment'') \<and> truthy (field (field item ''equipment'') ''index''))"

text \<open>The indexes of the options that refer to an item and have a truthy index.\<close>

definition item_options :: "js list \<Rightarrow> js list" where
  "item_options options =
     filter truthy (map (\<lambda>opt. field (field opt ''item'') ''index'')
                        (filter (\<lambda>opt. truthy (field opt ''item'')) options))"

text \<open>A starting-equipment entry without equipment; a choice with one item and one nested choice.\<close>

definition pack_only :: js where
  "pack_only = JObj [(''quantity'', JNum 1)]"

definition skill_options :: "js list" where
  "skill_options =
     [JObj [(''option_type'', JStr ''reference''),
            (''item'', JObj [(''index'', JStr ''skill-arcana'')])],
      JObj [(''option_type'', JStr ''choice''),
            (''choice'', JObj [(''desc'', JStr ''a musical instrument'')])]]"

definition skill_choice :: js where
  "skill_choice = JObj [(''desc'', JStr ''Choose two''), (''choose'', JNum 2),
     (''type'', JStr ''proficiencies''),
     (''from'', JObj [(''options'', JArr skill_options)])]"

text \<open>
  Three monsters; the second lists the same proficiency twice, which the unique key of
  \<open>monster_proficiencies\<close> does not allow.
\<close>

definition monster_item :: "string \<Rightarrow> string \<Rightarrow> js" where
  "monster_item index name =
     JObj [(''index'', JStr index), (''name'', JStr name), (''url'', JStr (''/api/monsters/'' @ index))]"

definition monster_doc :: "string \<Rightarrow> string \<Rightarrow> string list \<Rightarrow> string list \<Rightarrow> js" where
  "monster_doc index name proficiencies conditions =
     JObj [(''index'', JStr index), (''name'', JStr name),
       (''proficiencies'',
          JArr (map (\<lambda>p. JObj [(''value'', JNum 2), (''proficiency'', JObj [(''index'', JStr p)])])
                    proficiencies)),
       (''condition_immunities'', JArr (map (\<lambda>c. JObj [(''index'', JStr c)]) conditions))]"

definition three_monsters :: remote where
  "three_monsters url =
     (if url = ''https://www.dnd5eapi.co/api/monsters''
      then Inr (JObj [(''count'', JNum 3),
                      (''results'', JArr [monster_item ''aboleth'' ''Aboleth'',
                                          monster_item ''bandit'' ''Bandit'',
                                          monster_item ''cat'' ''Cat''])])
      else if url = ''https://www.dnd5eapi.co/api/monsters/aboleth''
      then Inr (monster_doc ''aboleth'' ''Aboleth'' [''skill-history''] [])
      else if url = ''https://www.dnd5eapi.co/api/monsters/bandit''
      then Inr (monster_doc ''bandit'' ''Bandit'' [''skill-stealth'', ''skill-stealth''] [])
      else if url = ''https://www.dnd5eapi.co/api/monsters/cat''
      then Inr (monster_doc ''cat'' ''Cat'' [] [])
      else Inl (FetchError ''request failed''))"

text \<open>What the sync of the first monster leaves in an empty store.\<close>

definition aboleth_row :: row where
  "aboleth_row =
     [(''index'', SqlStr ''aboleth''), (''name'', SqlStr ''Aboleth''),
      (''size'', SqlNull), (''type'', SqlNull), (''subtype'', SqlNull),
      (''alignment'', SqlNull), (''armor_class'', SqlNull),
      (''hit_points'', SqlNull), (''hit_dice'', SqlNull),
      (''speed'', SqlNull), (''strength'', SqlNull),
      (''dexterity'', SqlNull), (''constitution'', SqlNull),
      (''intelligence'', SqlNull), (''wisdom'', SqlNull),
      (''charisma'', SqlNull), (''damage_vulnerabilities'', SqlNull),
      (''damage_resistances'', SqlNull),
      (''damage_immunities'', SqlNull), (''senses'', SqlNull),
      (''languages'', SqlNull), (''challenge_rating'', SqlNull),
      (''xp'', SqlNull), (''special_abilities'', SqlNull),
      (''actions'', SqlNull), (''legendary_actions'', SqlNull)]"

definition aboleth_store :: db where
  "aboleth_store =
     (\<lambda>t. [])
     (''monsters'' := [aboleth_row],
      ''monster_condition_immunities'' := [],
      ''monster_proficiencies'' :=
         [[(''monster_index'', SqlStr ''aboleth''),
           (''proficiency_index'', SqlStr ''skill-history''),
           (''value'', SqlNum 2)]])"

text \<open>
  What one pass of the loop of \<open>syncResource\<close> needs of an item: the URL that it
  requests, and the document arrived and the record built, when nothing throws.
\<close>

definition detail_url :: "js \<Rightarrow> string" where
  "detail_url item = ''https://www.dnd5eapi.co'' @ ToString (field item ''url'')"

definition build_item ::
  "remote \<Rightarrow> (js \<Rightarrow> js_error + js_object \<times> statement) \<Rightarrow> js
     \<Rightarrow> js_error + js \<times> js_object \<times> statement" where
  "build_item api recordBuilder item =
     bindE (read item ''url'') (\<lambda>url.
     bindE (api (''https://www.dnd5eapi.co'' @ ToString url)) (\<lambda>detailData.
     bindE (recordBuilder detailData) (\<lambda>built.
     Inr (detailData, fst built, snd built))))"

text \<open>
  Two skills, of which the detail document of the first cannot be fetched.
\<close>

definition skill_item :: "string \<Rightarrow> js" where
  "skill_item index = JObj [(''index'', JStr index), (''url'', JStr (''/api/skills/'' @ index))]"

definition two_skills :: remote where
  "two_skills url =
     (if url = ''https://www.dnd5eapi.co/api/skills''
      then Inr (JObj [(''count'', JNum 2),
                      (''results'', JArr [skill_item ''acrobatics'', skill_item ''arcana''])])
      else if url = ''https://www.dnd5eapi.co/api/skills/arcana''
      then Inr (JObj [(''index'', JStr ''arcana''), (''name'', JStr ''Arcana''),
                      (''desc'', JArr [JStr ''Lore.'']),
                      (''ability_score'', JObj [(''name'', JStr ''INT'')])])
      else Inl (FetchError ''request failed''))"

text \<open>Three conditions; the document of the second has no name, a column declared \<open>NOT NULL\<close>.\<close>

definition condition_item :: "string \<Rightarrow> js" where
  "condition_item index = JObj [(''index'', JStr index), (''url'', JStr (''/api/conditions/'' @ index))]"

definition three_conditions :: remote where
  "three_conditions url =
     (if url = ''https://www.dnd5eapi.co/api/conditions''
      then Inr (JObj [(''count'', JNum 3),
                      (''results'', JArr [condition_item ''blinded'', condition_item ''charmed'',
                                          condition_item ''deafened''])])
      else if url = ''https://www.dnd5eapi.co/api/conditions/blinded''
      then Inr (JObj [(''index'', JStr ''blinded''), (''name'', JStr ''Blinded''),
                      (''desc'', JArr [JStr ''Cannot see.''])])
      else if url = ''https://www.dnd5eapi.co/api/conditions/charmed''
      then Inr (JObj [(''index'', JStr ''charmed''), (''desc'', JArr [JStr ''Cannot attack.''])])
      else if url = ''https://www.dnd5eapi.co/api/conditions/deafened''
      then Inr (JObj [(''index'', JStr ''deafened''), (''name'', JStr ''Deafened''),
                      (''desc'', JArr [JStr ''Cannot hear.''])])
      else Inl (FetchError ''request failed''))"

text \<open>The same list cut after the second condition, and the same list of the first alone.\<close>

definition two_conditions :: remote where
  "two_conditions url =
     (if url = ''https://www.dnd5eapi.co/api/conditions''
      then Inr (JObj [(''count'', JNum 2),
                      (''results'', JArr [condition_item ''blinded'', condition_item ''charmed''])])
      else three_conditions url)"

definition blinded_store :: db where
  "blinded_store =
     (\<lambda>t. [])
     (''conditions'' :=
        [[(''index'', SqlStr ''blinded''), (''name'', SqlStr ''Blinded''),
          (''description'', SqlStr ''Cannot see.'')]])"

definition charmed_rejection :: js_error where
  "charmed_rejection =
     Error (''Failed on conditions undefined: ER_BAD_NULL_ERROR: Column '' @ [CHR 0x27]
            @ ''name'' @ [CHR 0x27] @ '' cannot be null'')"

section \<open>Scripts of operations\<close>

text \<open>
  What a sync does to the store is a list of operations run in order. The definitions
  below describe such lists: the rows a table holds after one, and the shape that the
  scripts of server.js have, in which every upsert writes a parent table with all its
  columns listed and every insert into a child table follows a delete of the rows of the
  same parent.
\<close>

fun run_operations :: "operation list \<Rightarrow> db \<Rightarrow> js_error + db" where
  "run_operations [] d = Inr d"
| "run_operations (op # ops) d = bindE (perform op d) (run_operations ops)"

definition prepared :: "(statement \<times> js) list \<Rightarrow> operation list" where
  "prepared qs = map (\<lambda>(sql, vals). prepare sql vals) qs"

definition upsert_rows :: "string list \<Rightarrow> row \<Rightarrow> row list \<Rightarrow> row list" where
  "upsert_rows uk r rows =
     (if list_ex (\<lambda>old. conflicts uk old r) rows
      then update_first (\<lambda>old. conflicts uk old r) (\<lambda>old. r) rows
      else rows @ [r])"

definition keyed :: "string list \<Rightarrow> row \<Rightarrow> bool" where
  "keyed uk r = (uk \<noteq> [] \<and> (\<forall>c \<in> set uk. cell r c \<noteq> SqlNull))"

definition parent_table :: "string \<Rightarrow> bool" where
  "parent_table t = (unique_key t = [''index''])"

definition full_upsert :: "string \<Rightarrow> string list \<Rightarrow> row \<Rightarrow> bool" where
  "full_upsert t upd r =
     (parent_table t \<and> keyed (unique_key t) r \<and> distinct (map fst r)
      \<and> list_all (\<lambda>c. c \<in> set upd \<or> c \<in> set (unique_key t)) (map fst r))"

fun guarded :: "(string \<times> string \<times> sqlval) list \<Rightarrow> operation list \<Rightarrow> bool" where
  "guarded S [] = True"
| "guarded S (Upsert t upd r # ops) = (full_upsert t upd r \<and> guarded S ops)"
| "guarded S (Insert t r # ops) =
     (\<not> parent_table t
      \<and> list_ex (\<lambda>(t', c, k). t' = t \<and> k \<noteq> SqlNull \<and> cell r c = k
                    \<and> (unique_key t = [] \<or> c \<in> set (unique_key t))) S
      \<and> guarded S ops)"
| "guarded S (Delete t c k # ops) =
     (\<not> parent_table t \<and> guarded (if k = SqlNull then S else (t, c, k) # S) ops)"
| "guarded S (Rejected e # ops) = True"

fun rows_after :: "string \<Rightarrow> operation \<Rightarrow> row list \<Rightarrow> row list" where
  "rows_after t (Upsert t' upd r) rows =
     (if t' = t then upsert_rows (unique_key t) r rows else rows)"
| "rows_after t (Insert t' r) rows = (if t' = t then rows @ [r] else rows)"
| "rows_after t (Delete t' c k) rows =
     (if t' = t then filter (\<lambda>x. \<not> (k \<noteq> SqlNull \<and> cell x c = k)) rows else rows)"
| "rows_after t (Rejected e) rows = rows"

fun deleted :: "string \<Rightarrow> operation list \<Rightarrow> row \<Rightarrow> bool" where
  "deleted t [] x = False"
| "deleted t (Delete t' c k # ops) x =
     ((t' = t \<and> k \<noteq> SqlNull \<and> cell x c = k) \<or> deleted t ops x)"
| "deleted t (op # ops) x = deleted t ops x"

fun kept :: "string \<Rightarrow> operation list \<Rightarrow> row list" where
  "kept t [] = []"
| "kept t (Insert t' r # ops) =
     (if t' = t \<and> \<not> deleted t ops r then r # kept t ops else kept t ops)"
| "kept t (op # ops) = kept t ops"

fun upserted :: "string \<Rightarrow> operation list \<Rightarrow> row list" where
  "upserted t [] = []"
| "upserted t (Upsert t' upd r # ops) = (if t' = t then r # upserted t ops else upserted t ops)"
| "upserted t (op # ops) = upserted t ops"

definition agree :: "(string \<times> string \<times> sqlval) list \<Rightarrow> db \<Rightarrow> db \<Rightarrow> bool" where
  "agree S d d2 =
     (\<forall>(t, c, k) \<in> set S. filter (\<lambda>x. cell x c = k) (d t) = filter (\<lambda>x. cell x c = k) (d2 t))"

section \<open>What a sync awaits and writes\<close>

text \<open>
  \<open>awaits P m\<close>: every statement that the body \<open>m\<close> awaits is prepared into an operation
  with the property \<open>P\<close>. \<open>child_insert S\<close> is the property of being rejected or an insert
  covered by one of the deletes \<open>S\<close>.
\<close>

definition awaits :: "(operation \<Rightarrow> bool) \<Rightarrow> 'a async \<Rightarrow> bool" where
  "awaits P m = list_all (\<lambda>(sql, vals). P (prepare sql vals)) (fst m)"

definition child_insert :: "(string \<times> string \<times> sqlval) list \<Rightarrow> operation \<Rightarrow> bool" where
  "child_insert S op =
     (case op of Insert t r \<Rightarrow> guarded S [op] | Rejected e \<Rightarrow> True | _ \<Rightarrow> False)"

text \<open>
  A sync is replayable when what it does to the store is a guarded script that does not
  depend on the store it starts from. A fetch only reads when it leaves the store alone
  and its result does not depend on the world.
\<close>

definition replayable :: "(world \<Rightarrow> 'a \<times> world) \<Rightarrow> bool" where
  "replayable S =
     (\<exists>ops. guarded [] ops \<and> (\<forall>w. run_operations ops (store w) = Inr (store (snd (S w)))))"

definition reads_only :: "(js \<Rightarrow> world \<Rightarrow> (js_error + 'a) \<times> world) \<Rightarrow> bool" where
  "reads_only fetch_item =
     (\<forall>item w w'. store (snd (fetch_item item w)) = store w
                  \<and> fst (fetch_item item w) = fst (fetch_item item w'))"

text \<open>
  A record builder upserts when every record it builds starts with \<open>index\<close>, and its
  statement is the insert-or-update of a parent table that lists exactly the columns of
  the record.
\<close>

definition upserts :: "(js \<Rightarrow> js_error + js_object \<times> statement) \<Rightarrow> bool" where
  "upserts recordBuilder =
     (\<forall>doc rec q. recordBuilder doc = Inr (rec, q) \<longrightarrow>
        (\<exists>t idx vs. parent_table t \<and> ''index'' \<in> set (not_null t)
            \<and> rec = (''index'', idx) # vs \<and> distinct (''index'' # map fst vs)
            \<and> q = on_duplicate_key_update t (''index'' # map fst vs)))"

text \<open>
  The record and the statement of an enriched function taken together, as the record
  builders of the generic path return them; and the record builders of all the routes.
\<close>

definition with_query ::
  "(js \<Rightarrow> js_error + js_object) \<Rightarrow> statement \<Rightarrow> js \<Rightarrow> js_error + js_object \<times> statement" where
  "with_query newRecord sqlQuery detailData = bindE (newRecord detailData) (\<lambda>r. Inr (r, sqlQuery))"

definition recordBuilders :: "(js \<Rightarrow> js_error + js_object \<times> statement) list" where
  "recordBuilders =
     [ability_scores_recordBuilder, with_query classRecord classQuery,
      with_query monsterRecord monsterQuery, with_query profRecord profQuery,
      with_query raceRecord raceQuery, rules_recordBuilder, rule_sections_recordBuilder,
      with_query spellRecord spellQuery, with_query subRecord subQuery,
      with_query traitRecord traitQuery, skills_recordBuilder, subraces_recordBuilder,
      magic_schools_recordBuilder, languages_recordBuilder, features_recordBuilder,
      equipment_categories_recordBuilder, damage_types_recordBuilder,
      conditions_recordBuilder, equipment_recordBuilder, magic_items_recordBuilder,
      alignments_recordBuilder, backgrounds_recordBuilder, feats_recordBuilder,
      weapon_properties_recordBuilder]"

text \<open>The table a statement writes.\<close>

fun table_of :: "statement \<Rightarrow> string" where
  "table_of (InsertOrUpdate t cols upd) = t"
| "table_of (InsertValues t cols) = t"
| "table_of (InsertSet t) = t"
| "table_of (DeleteWhere t c) = t"

text \<open>A skills table that holds an outdated row for Acrobatics.\<close>

definition stale_acrobatics :: row where
  "stale_acrobatics = [(''index'', SqlStr ''acrobatics''), (''name'', SqlStr ''Tumbling''),
     (''description'', SqlNull), (''ability_score'', SqlStr ''STR'')]"

definition stale_store :: db where
  "stale_store = (\<lambda>t. [])(''skills'' := [stale_acrobatics])"

section \<open>Entries seen before\<close>

text \<open>
  The entries of a list without those whose key an earlier entry already had: the first
  entry of each key stays, in the order of the list.
\<close>

fun skip_seen :: "('a \<Rightarrow> 'k) \<Rightarrow> 'k list \<Rightarrow> 'a list \<Rightarrow> 'a list" where
  "skip_seen key seen [] = []"
| "skip_seen key seen (x # xs) =
     (if key x \<in> set seen then skip_seen key seen xs
      else x # skip_seen key (seen @ [key x]) xs)"

definition first_seen :: "('a \<Rightarrow> 'k) \<Rightarrow> 'a list \<Rightarrow> 'a list" where
  "first_seen key xs = skip_seen key [] xs"

fun is_string :: "js \<Rightarrow> bool" where
  "is_string (JStr s) = True"
| "is_string v = False"

text \<open>
  The row of a condition immunity of monster \<open>m\<close>, and the row of a spell of subclass
  \<open>m\<close> with \<open>spell.spell.index\<close> and \<open>spell.prerequisites.map(p => p.index)\<close>.
\<close>

definition condition_immunity_row :: "string \<Rightarrow> js \<Rightarrow> row" where
  "condition_immunity_row m cond =
     [(''monster_index'', SqlStr m),
      (''condition_index'', the (escape False (field cond ''index'')))]"

definition spell_index :: "js \<Rightarrow> js" where
  "spell_index spell = field (field spell ''spell'') ''index''"

definition prerequisites :: "js \<Rightarrow> js_error + js" where
  "prerequisites spell = map_method (field spell ''prerequisites'') (\<lambda>p. read p ''index'')"

definition subclass_spell_row :: "string \<Rightarrow> js \<Rightarrow> row" where
  "subclass_spell_row m spell =
     [(''subclass_index'', SqlStr m),
      (''spell_index'', the (escape True (spell_index spell))),
      (''prerequisites'',
         the (escape True (JSON_stringify (case prerequisites spell of Inr p \<Rightarrow> p | Inl e \<Rightarrow> JUndefined))))]"

text \<open>
  A monster that lists the condition immunity \<open>charmed\<close> twice, a subclass spell list
  that grants the same spell twice, and a proficiency entry.
\<close>

definition charmed :: js where
  "charmed = JObj [(''index'', JStr ''charmed''), (''name'', JStr ''Charmed'')]"

definition charmed_twice :: js where
  "charmed_twice = monster_doc ''ghost'' ''Ghost'' [] [''charmed'', ''charmed'']"

definition granted_twice :: "js list" where
  "granted_twice =
     [JObj [(''prerequisites'', JArr [JObj [(''index'', JNum 3)]]),
            (''spell'', JObj [(''index'', JStr ''barkskin'')])],
      JObj [(''prerequisites'', JArr [JObj [(''index'', JNum 5)]]),
            (''spell'', JObj [(''index'', JStr ''barkskin'')])]]"

definition stealth :: js where
  "stealth = JObj [(''value'', JNum 2), (''proficiency'', JObj [(''index'', JStr ''skill-stealth'')])]"

section \<open>The rows of the nested collections\<close>

text \<open>
  The rows that a script inserts into a table, and the shape of a transaction that
  replaces the children of a parent: the upsert of the parent, the deletes of the rows of
  the key \<open>idx\<close> in the child tables \<open>ts\<close>, then only inserts that the deletes cover.
\<close>

fun inserted :: "string \<Rightarrow> operation list \<Rightarrow> row list" where
  "inserted t [] = []"
| "inserted t (Insert t' r # ops) = (if t' = t then r # inserted t ops else inserted t ops)"
| "inserted t (op # ops) = inserted t ops"

definition replaces :: "unit async \<Rightarrow> js \<Rightarrow> string \<Rightarrow> string list \<Rightarrow> bool" where
  "replaces m idx c ts =
     (snd m = Inr () \<longrightarrow>
        (\<exists>pt vs ins. parent_table pt \<and> ''index'' \<in> set (not_null pt)
           \<and> distinct (''index'' # map fst vs)
           \<and> fst m = (on_duplicate_key_update pt (''index'' # map fst vs),
                      Object_values ((''index'', idx) # vs))
                     # map (\<lambda>t. (DeleteWhere t c, JArr [idx])) ts @ ins
           \<and> (\<forall>k. escape False idx = Some k \<longrightarrow> k \<noteq> SqlNull \<longrightarrow>
                 awaits (child_insert (map (\<lambda>t. (t, c, k)) ts)) (ins, Inr ()))))"

abbreviation (input) not_rejected :: "operation \<Rightarrow> bool" where
  "not_rejected \<equiv> (\<lambda>op. case op of Rejected e \<Rightarrow> False | _ \<Rightarrow> True)"

text \<open>
  The row that \<open>INSERT ... SET ?\<close> makes of an object, the row that
  \<open>INSERT ... (cols) VALUES (?, ...)\<close> makes of its values, the row of a link table for an
  entry of a nested list, and the row of a monster's proficiency.
\<close>

definition set_row :: "js_object \<Rightarrow> row" where
  "set_row kvs = map (\<lambda>(c, v). (c, the (escape True v))) kvs"

definition values_row :: "string list \<Rightarrow> js list \<Rightarrow> row" where
  "values_row cols vals = zip cols (map (\<lambda>v. the (escape False v)) vals)"

definition link_row :: "string \<Rightarrow> sqlval \<Rightarrow> string \<Rightarrow> js \<Rightarrow> row" where
  "link_row a k b x = [(a, k), (b, the (escape False (field x ''index'')))]"

definition monster_proficiency_row :: "sqlval \<Rightarrow> js \<Rightarrow> row" where
  "monster_proficiency_row k prof =
     [(''monster_index'', k),
      (''proficiency_index'', the (escape True (field (field prof ''proficiency'') ''index''))),
      (''value'', the (escape True (field prof ''value'')))]"

text \<open>
  The nested collections as the code reads them: the elements that \<open>for ... of\<close>
  visits, the numbered elements of \<open>entries()\<close>, the spell list of a class when it is an
  array, the spells of a subclass when the document has any; and the object stored for a
  subclass spell.
\<close>

definition items_of :: "js \<Rightarrow> js list" where
  "items_of v = (case for_of v of Inr xs \<Rightarrow> xs | Inl e \<Rightarrow> [])"

definition entries_of :: "js \<Rightarrow> (nat \<times> js) list" where
  "entries_of v = (case entries v of Inr xs \<Rightarrow> xs | Inl e \<Rightarrow> [])"

definition array_items :: "js \<Rightarrow> js list" where
  "array_items v = (case v of JArr xs \<Rightarrow> xs | _ \<Rightarrow> [])"

definition subclass_spells :: "js \<Rightarrow> js list" where
  "subclass_spells detailData =
     (if truthy (field detailData ''spells'')
      then (case for_of (field detailData ''spells'') of Inr spells \<Rightarrow> spells | Inl e \<Rightarrow> [])
      else [])"

definition subclass_spellRecord :: "js \<Rightarrow> js \<Rightarrow> js_object" where
  "subclass_spellRecord index spell =
     [(''subclass_index'', index), (''spell_index'', spell_index spell),
      (''prerequisites'', JSON_stringify (projr (prerequisites spell)))]"

text \<open>
  The natural key of the parent as the statements bind it, and the child tables of each
  enriched resource with the rows that the current detail document (with the levels and
  spells fetched beside it) stands for: one row for each entry of the nested collection,
  in its order; for the starting equipment only the entries with an equipment index; for
  a monster's condition immunities and a subclass's spells the first entry of each index,
  which is told for entries whose indexes are strings (the flag beside the rows).
\<close>

definition parent_key :: "js \<Rightarrow> sqlval" where
  "parent_key detailData = the (escape False (field detailData ''index''))"

definition links :: "js \<Rightarrow> string \<Rightarrow> string \<Rightarrow> string \<Rightarrow> string \<Rightarrow> string \<times> bool \<times> row list" where
  "links detailData t a b nested =
     (t, True, map (link_row a (parent_key detailData) b) (items_of (field detailData nested)))"

definition children ::
  "js \<Rightarrow> js \<Rightarrow> js \<Rightarrow> (unit async \<times> string \<times> (string \<times> bool \<times> row list) list) list" where
  "children detailData levelsData spellsData =
     [(class_transaction (detailData, levelsData, spellsData), ''class_index'',
         [(''class_levels'', True,
             map (\<lambda>level. set_row (projr (levelRecord (field detailData ''index'') level)))
                 (items_of levelsData)),
          (''class_spells'', True,
             map (\<lambda>spell. values_row [''class_index'', ''spell_index'', ''level_acquired'']
                              [field detailData ''index'', field spell ''index'',
                               field spell ''level''])
                 (array_items spellsData)),
          (''class_proficiency_choices'', True,
             map (\<lambda>entry. set_row (projr (proficiency_choiceRecord
                                             (field detailData ''index'') entry)))
                 (entries_of (field detailData ''proficiency_choices''))),
          (''class_starting_equipment'', True,
             map (\<lambda>item. values_row [''class_index'', ''equipment_index'', ''quantity'']
                             [field detailData ''index'',
                              field (field item ''equipment'') ''index'',
                              field item ''quantity''])
                 (filter has_equipment (items_of (field detailData ''starting_equipment'')))),
          (''class_starting_equipment_options'', True,
             map (\<lambda>entry. set_row (projr (equipment_optionRecord
                                             (field detailData ''index'') entry)))
                 (entries_of (field detailData ''starting_equipment_options'')))]),
      (monster_transaction detailData, ''monster_index'',
         [(''monster_proficiencies'', True,
             map (monster_proficiency_row (parent_key detailData))
                 (items_of (field detailData ''proficiencies''))),
          (''monster_condition_immunities'',
             list_all (\<lambda>c. is_string (field c ''index''))
                      (items_of (field detailData ''condition_immunities'')),
             map (link_row ''monster_index'' (parent_key detailData) ''condition_index'')
                 (first_seen (\<lambda>c. field c ''index'')
                    (items_of (field detailData ''condition_immunities''))))]),
      (proficiency_transaction detailData, ''proficiency_index'',
         [links detailData ''proficiency_classes'' ''proficiency_index'' ''class_index'' ''classes'',
          links detailData ''proficiency_races'' ''proficiency_index'' ''race_index'' ''races'']),
      (race_transaction detailData, ''race_index'',
         [links detailData ''race_proficiencies'' ''race_index'' ''proficiency_index''
            ''starting_proficiencies'',
          links detailData ''race_languages'' ''race_index'' ''language_index'' ''languages'',
          links detailData ''race_traits'' ''race_index'' ''trait_index'' ''traits'']),
      (spell_transaction detailData, ''spell_index'',
         [links detailData ''spell_classes'' ''spell_index'' ''class_index'' ''classes'',
          links detailData ''spell_subclasses'' ''spell_index'' ''subclass_index'' ''subclasses'']),
      (subclass_transaction (detailData, levelsData), ''subclass_index'',
         [(''subclass_levels'', True,
             map (\<lambda>level. set_row (projr (subclass_levelRecord (field detailData ''index'')
                                             level)))
                 (items_of levelsData)),
          (''subclass_spells'',
             list_all (\<lambda>spell. is_string (spell_index spell)) (subclass_spells detailData),
             map (\<lambda>spell. set_row (subclass_spellRecord (field detailData ''index'') spell))
                 (first_seen spell_index (subclass_spells detailData)))]),
      (trait_transaction detailData, ''trait_index'',
         [links detailData ''trait_races'' ''trait_index'' ''race_index'' ''races'',
          links detailData ''trait_subraces'' ''trait_index'' ''subrace_index'' ''subraces'',
          links detailData ''trait_proficiencies'' ''trait_index'' ''proficiency_index''
            ''proficiencies''])]"

text \<open>
  A remote API with one monster that lists the same proficiency twice and no condition
  immunity, above a store that still holds one for it; a class whose only starting
  equipment entry has no equipment; a race that had three traits and now lists two.
\<close>

definition bandit_only :: remote where
  "bandit_only url =
     (if url = ''https://www.dnd5eapi.co/api/monsters''
      then Inr (JObj [(''count'', JNum 1), (''results'', JArr [monster_item ''bandit'' ''Bandit''])])
      else if url = ''https://www.dnd5eapi.co/api/monsters/bandit''
      then Inr (monster_doc ''bandit'' ''Bandit'' [''skill-stealth'', ''skill-stealth''] [])
      else Inl (FetchError ''request failed''))"

definition stale_world :: world where
  "stale_world =
     \<lparr>store = (\<lambda>t. [])(''monster_condition_immunities'' :=
                 [[(''monster_index'', SqlStr ''bandit''), (''condition_index'', SqlStr ''charmed'')]]),
      requests = []\<rparr>"

definition wizard :: js where
  "wizard = JObj [(''index'', JStr ''wizard''), (''name'', JStr ''Wizard''), (''hit_die'', JNum 6),
     (''saving_throws'', JArr []), (''proficiency_choices'', JArr []),
     (''starting_equipment'', JArr [pack_only]), (''starting_equipment_options'', JArr [])]"

definition trait :: "string \<Rightarrow> js" where
  "trait index = JObj [(''index'', JStr index), (''url'', JStr (''/api/traits/'' @ index))]"

definition elf :: js where
  "elf = JObj [(''index'', JStr ''elf''), (''name'', JStr ''Elf''), (''speed'', JNum 30),
     (''starting_proficiencies'', JArr []), (''languages'', JArr []),
     (''traits'', JArr [trait ''keen-senses'', trait ''fey-ancestry''])]"

definition race_trait :: "string \<Rightarrow> string \<Rightarrow> row" where
  "race_trait race index = [(''race_index'', SqlStr race), (''trait_index'', SqlStr index)]"

definition elf_world :: world where
  "elf_world =
     \<lparr>store = (\<lambda>t. [])(''race_traits'' :=
                 [race_trait ''dwarf'' ''darkvision'', race_trait ''elf'' ''darkvision'',
                  race_trait ''elf'' ''keen-senses'', race_trait ''elf'' ''trance'']),
      requests = []\<rparr>"

section \<open>Facts about the JavaScript layer\<close>

lemma bindE_Inr_iff: "bindE m f = Inr y \<longleftrightarrow> (\<exists>x. m = Inr x \<and> f x = Inr y)"
  by (cases m) (simp_all add: bindE_def)

lemma bindE_Inr [simp]: "bindE (Inr x) f = f x"
  by (simp add: bindE_def)

lemma bindE_Inl [simp]: "bindE (Inl e) f = Inl e"
  by (simp add: bindE_def)

lemma read_present [simp]: "\<not> nullish v \<Longrightarrow> read v k = Inr (field v k)"
  by (simp add: read_def)

lemma read_Inr_iff: "read v k = Inr x \<longleftrightarrow> \<not> nullish v \<and> x = field v k"
  by (auto simp: read_def)

lemma join_array: "\<exists>s. join (JArr xs) sep = Inr (JStr s)"
  by (simp add: join_def as_array_def)

lemma join_strings: "join (JArr (map JStr ps)) sep = Inr (JStr (intercalate sep ps))"
proof -
  have "map (\<lambda>x. if nullish x then [] else ToString x) (map JStr ps) = ps"
    by (induction ps) (simp_all add: nullish_def)
  then show ?thesis by (simp add: join_def as_array_def)
qed

lemma not_truthy_nullish: "nullish v \<Longrightarrow> \<not> truthy v"
  by (auto simp: nullish_def)

lemma or_else_nullish [simp]: "nullish v \<Longrightarrow> or_else v JNull = JNull"
  by (auto simp: or_else_def nullish_def)

lemma mapE_total:
  "(\<And>x. x \<in> set xs \<Longrightarrow> f x = Inr (g x)) \<Longrightarrow> mapE f xs = Inr (map g xs)"
  by (induction xs) simp_all

subsection \<open>Awaited statements\<close>

lemma bindA_Inl [simp]: "bindA (qs, Inl e) f = (qs, Inl e)"
  by (simp add: bindA_def)

lemma bindA_Inr [simp]: "bindA (qs, Inr x) f = (qs @ fst (f x), snd (f x))"
  by (simp add: bindA_def split: prod.splits)

lemma bindA_evaluate_Inr [simp]: "bindA (evaluate (Inr x)) f = f x"
  by (simp add: evaluate_def)

lemma bindA_evaluate_Inl [simp]: "bindA (evaluate (Inl e)) f = ([], Inl e)"
  by (simp add: evaluate_def)

lemma bindA_queryAsync [simp]:
  "bindA (queryAsync sql vals) f = ((sql, vals) # fst (f ()), snd (f ()))"
  by (simp add: queryAsync_def)

lemma bindA_delete_where [simp]:
  "bindA (delete_where t c k) f = ((DeleteWhere t c, JArr [k]) # fst (f ()), snd (f ()))"
  by (simp add: delete_where_def)

lemma fst_bindA:
  "fst (bindA m f) = (case snd m of Inl e \<Rightarrow> fst m | Inr x \<Rightarrow> fst m @ fst (f x))"
  by (cases m; cases "snd m") (auto simp: bindA_def split: prod.splits)

lemma snd_bindA:
  "snd (bindA m f) = (case snd m of Inl e \<Rightarrow> Inl e | Inr x \<Rightarrow> snd (f x))"
  by (cases m; cases "snd m") (auto simp: bindA_def split: prod.splits)

lemma run_queries_append:
  "run_queries (qs @ qs') d = bindE (run_queries qs d) (run_queries qs')"
proof (induction qs arbitrary: d)
  case Nil
  show ?case by simp
next
  case (Cons q qs)
  obtain sql vals where q: "q = (sql, vals)" by (cases q)
  show ?case
    by (cases "query sql vals d") (simp_all add: q Cons)
qed

lemma run_Inr_iff:
  "run body d = Inr d' \<longleftrightarrow> (\<exists>u. snd body = Inr u) \<and> run_queries (fst body) d = Inr d'"
  by (cases body; cases "snd body"; cases "run_queries (fst body) d") (auto simp: run_def)

section \<open>Facts about the store\<close>

lemma update_first_mem:
  "list_ex p rs \<Longrightarrow> (\<And>old. p old \<Longrightarrow> f old = r) \<Longrightarrow> r \<in> set (update_first p f rs)"
  by (induction rs) auto

lemma cell_of_distinct: "distinct (map fst r) \<Longrightarrow> (c, v) \<in> set r \<Longrightarrow> cell r c = v"
  by (simp add: cell_def)

text \<open>
  When the statement lists every column outside the unique key, the row left by an
  update is the new row.
\<close>

lemma update_row_full:
  assumes "conflicts uk old new" and "distinct (map fst new)"
    and "fst ` set new \<subseteq> set upd \<union> set uk"
  shows "update_row upd old new = new"
proof -
  have "(c, if c \<in> set upd then v else cell old c) = (c, v)" if "(c, v) \<in> set new" for c v
  proof (cases "c \<in> set upd")
    case True
    then show ?thesis by simp
  next
    case False
    with that assms(3) have "c \<in> set uk" by force
    with assms(1) have "cell old c = cell new c" by (simp add: conflicts_def)
    with that assms(2) show ?thesis by (simp add: cell_of_distinct)
  qed
  then have "map (\<lambda>(c, v). (c, if c \<in> set upd then v else cell old c)) new = map (\<lambda>x. x) new"
    by (intro map_cong) auto
  then show ?thesis by (simp add: update_row_def)
qed

lemma perform_Upsert_mem:
  assumes "perform (Upsert t upd r) d = Inr d'" and "distinct (map fst r)"
    and "fst ` set r \<subseteq> set upd \<union> set (unique_key t)"
  shows "r \<in> set (d' t)"
proof (cases "list_ex (\<lambda>old. conflicts (unique_key t) old r) (d t)")
  case True
  with assms(1) have "d' = d(t := update_first (\<lambda>old. conflicts (unique_key t) old r)
                                       (\<lambda>old. update_row upd old r) (d t))"
    by auto
  moreover have "r \<in> set (update_first (\<lambda>old. conflicts (unique_key t) old r)
                                       (\<lambda>old. update_row upd old r) (d t))"
    using True assms(2,3) by (intro update_first_mem) (auto intro: update_row_full)
  ultimately show ?thesis by simp
next
  case False
  with assms(1) show ?thesis by auto
qed

lemma perform_Upsert_succeeds: "\<exists>d'. perform (Upsert t upd r) d = Inr d'"
  by simp

section \<open>Looking tables up in the schema\<close>

lemma schema_lookup:
  "map_of schema ''ability_scores'' = Some ([''index'', ''name''], [''index''])"
  "map_of schema ''skills'' = Some ([''index'', ''name''], [''index''])"
  "map_of schema ''languages'' = Some ([''index'', ''name''], [''index''])"
  "map_of schema ''alignments'' = Some ([''index'', ''name'', ''abbreviation''], [''index''])"
  "map_of schema ''rule_sections'' = Some ([''index'', ''name''], [''index''])"
  "map_of schema ''rules'' = Some ([''index'', ''name''], [''index''])"
  "map_of schema ''backgrounds'' = Some ([''index'', ''name''], [''index''])"
  "map_of schema ''feats'' = Some ([''index'', ''name''], [''index''])"
  "map_of schema ''races'' = Some ([''index'', ''name''], [''index''])"
  "map_of schema ''race_proficiencies'' = Some ([''race_index'', ''proficiency_index''], [''race_index'', ''proficiency_index''])"
  "map_of schema ''race_languages'' = Some ([''race_index'', ''language_index''], [''race_index'', ''language_index''])"
  "map_of schema ''race_traits'' = Some ([''race_index'', ''trait_index''], [''race_index'', ''trait_index''])"
  "map_of schema ''subraces'' = Some ([''index'', ''name''], [''index''])"
  "map_of schema ''classes'' = Some ([''index'', ''name''], [''index''])"
  "map_of schema ''class_levels'' = Some ([], [''class_index'', ''level''])"
  "map_of schema ''class_spells'' = Some ([], [''class_index'', ''spell_index''])"
  "map_of schema ''class_proficiency_choices'' = Some ([], [])"
  "map_of schema ''class_starting_equipment'' = Some ([], [])"
  "map_of schema ''class_starting_equipment_options'' = Some ([], [])"
  "map_of schema ''subclasses'' = Some ([''index'', ''name''], [''index''])"
  "map_of schema ''subclass_levels'' = Some ([], [''subclass_index'', ''level''])"
  "map_of schema ''subclass_spells'' = Some ([], [''subclass_index'', ''spell_index''])"
  "map_of schema ''features'' = Some ([''index'', ''name''], [''index''])"
  "map_of schema ''traits'' = Some ([''index'', ''name''], [''index''])"
  "map_of schema ''trait_races'' = Some ([''trait_index'', ''race_index''], [''trait_index'', ''race_index''])"
  "map_of schema ''trait_subraces'' = Some ([''trait_index'', ''subrace_index''], [''trait_index'', ''subrace_index''])"
  "map_of schema ''trait_proficiencies'' = Some ([''trait_index'', ''proficiency_index''], [''trait_index'', ''proficiency_index''])"
  "map_of schema ''proficiencies'' = Some ([''index''], [''index''])"
  "map_of schema ''proficiency_classes'' = Some ([''proficiency_index'', ''class_index''], [''proficiency_index'', ''class_index''])"
  "map_of schema ''proficiency_races'' = Some ([''proficiency_index'', ''race_index''], [''proficiency_index'', ''race_index''])"
  "map_of schema ''spells'' = Some ([''index'', ''name''], [''index''])"
  "map_of schema ''spell_classes'' = Some ([''spell_index'', ''class_index''], [''spell_index'', ''class_index''])"
  "map_of schema ''spell_subclasses'' = Some ([''spell_index'', ''subclass_index''], [''spell_index'', ''subclass_index''])"
  "map_of schema ''magic_schools'' = Some ([''index''], [''index''])"
  "map_of schema ''damage_types'' = Some ([''index'', ''name''], [''index''])"
  "map_of schema ''conditions'' = Some ([''index'', ''name''], [''index''])"
  "map_of schema ''weapon_properties'' = Some ([''index'', ''name''], [''index''])"
  "map_of schema ''equipment'' = Some ([''index'', ''name''], [''index''])"
  "map_of schema ''equipment_categories'' = Some ([''index'', ''name''], [''index''])"
  "map_of schema ''magic_items'' = Some ([''index'', ''name''], [''index''])"
  "map_of schema ''monsters'' = Some ([''index'', ''name''], [''index''])"
  "map_of schema ''monster_proficiencies'' = Some ([''monster_index'', ''proficiency_index''], [''monster_index'', ''proficiency_index''])"
  "map_of schema ''monster_condition_immunities'' = Some ([''monster_index'', ''condition_index''], [''monster_index'', ''condition_index''])"
  by (simp_all add: schema_def parent_schema_def link_schema_def)

section \<open>Evaluating the model on concrete documents\<close>

lemmas js_eval = read_def nullish_def for_of_def as_array_def join_def map_method_def
  JSON_stringify_def or_else_def if_present_def Object_values_def entries_def

lemmas sql_eval = query_def checked_def bind_values_def null_violation_def not_null_def
  unique_key_def schema_lookup cell_def conflicts_def
  on_duplicate_key_update_def update_row_def dup_entry_def bad_null_def

lemmas async_eval = run_def transaction_def fetch_json_def fetch_detail_def

section \<open>Upserts on a list of rows\<close>

lemma conflicts_sym: "conflicts uk a b \<Longrightarrow> conflicts uk b a"
  by (auto simp: conflicts_def)

lemma conflicts_trans: "conflicts uk a b \<Longrightarrow> conflicts uk b c \<Longrightarrow> conflicts uk a c"
  by (auto simp: conflicts_def)

lemma conflicts_refl: "keyed uk r \<Longrightarrow> conflicts uk r r"
  by (auto simp: conflicts_def keyed_def)

lemma conflicts_cong:
  "conflicts uk a b \<Longrightarrow> conflicts uk x a = conflicts uk x b"
  by (auto simp: conflicts_def)

lemma perform_Upsert_full:
  assumes "full_upsert t upd r"
  shows "perform (Upsert t upd r) d = Inr (d(t := upsert_rows (unique_key t) r (d t)))"
proof -
  have "update_first (\<lambda>old. conflicts (unique_key t) old r) (\<lambda>old. update_row upd old r) rows
        = update_first (\<lambda>old. conflicts (unique_key t) old r) (\<lambda>old. r) rows" for rows
  proof (induction rows)
    case Nil
    show ?case by simp
  next
    case (Cons x xs)
    have "update_row upd x r = r" if "conflicts (unique_key t) x r"
      using that assms
      by (intro update_row_full) (auto simp: full_upsert_def list_all_iff)
    with Cons show ?case by simp
  qed
  then show ?thesis by (simp add: upsert_rows_def)
qed

lemma list_ex_update_first:
  "(\<And>x. p x \<Longrightarrow> q x = q (f x)) \<Longrightarrow> list_ex q (update_first p f rows) = list_ex q rows"
  by (induction rows) auto

text \<open>Whether some row has the key of \<open>r\<close> is not changed by an upsert of another key.\<close>

lemma has_key_upsert_other:
  assumes "\<not> conflicts uk r' r"
  shows "list_ex (\<lambda>old. conflicts uk old r) (upsert_rows uk r' rows)
         = list_ex (\<lambda>old. conflicts uk old r) rows"
proof -
  have a: "conflicts uk x r = conflicts uk r' r" if "conflicts uk x r'" for x
    using that by (meson conflicts_sym conflicts_trans)
  show ?thesis
    using assms a
    by (auto simp: upsert_rows_def list_ex_update_first)
qed

lemma has_key_upsert_self:
  "keyed uk r \<Longrightarrow> list_ex (\<lambda>old. conflicts uk old r) (upsert_rows uk r rows)"
proof (cases "list_ex (\<lambda>old. conflicts uk old r) rows")
  case True
  assume k: "keyed uk r"
  have "list_ex (\<lambda>old. conflicts uk old r)
          (update_first (\<lambda>old. conflicts uk old r) (\<lambda>old. r) rows)
        = list_ex (\<lambda>old. conflicts uk old r) rows"
    using k by (intro list_ex_update_first) (simp add: conflicts_refl)
  with True show ?thesis by (simp add: upsert_rows_def)
next
  case False
  assume "keyed uk r"
  with False show ?thesis by (simp add: upsert_rows_def conflicts_refl)
qed

lemma has_key_upsert_mono:
  assumes "keyed uk r'" "list_ex (\<lambda>old. conflicts uk old r) rows"
  shows "list_ex (\<lambda>old. conflicts uk old r) (upsert_rows uk r' rows)"
proof (cases "conflicts uk r' r")
  case True
  have "list_ex (\<lambda>old. conflicts uk old r') (upsert_rows uk r' rows)"
    using assms(1) by (rule has_key_upsert_self)
  moreover have "conflicts uk x r' = conflicts uk x r" for x
    using True by (rule conflicts_cong)
  ultimately show ?thesis by simp
next
  case False
  with assms(2) show ?thesis by (simp add: has_key_upsert_other)
qed

lemma update_first_twice:
  "(\<And>x. p x \<Longrightarrow> p (f x)) \<Longrightarrow> (\<And>x. p x \<Longrightarrow> g (f x) = g x)
   \<Longrightarrow> update_first p g (update_first p f rows) = update_first p g rows"
  by (induction rows) auto

text \<open>An upsert overwrites an earlier upsert of the same key.\<close>

lemma upsert_rows_over:
  assumes "keyed uk r" "keyed uk r'" "conflicts uk r' r"
  shows "upsert_rows uk r (upsert_rows uk r' rows) = upsert_rows uk r rows"
proof -
  have eq: "conflicts uk x r' = conflicts uk x r" for x
    using assms(3) by (rule conflicts_cong)
  show ?thesis
  proof (cases "list_ex (\<lambda>old. conflicts uk old r) rows")
    case True
    have "list_ex (\<lambda>old. conflicts uk old r)
            (update_first (\<lambda>old. conflicts uk old r) (\<lambda>old. r') rows)"
      using True assms(3) by (subst list_ex_update_first) (auto dest: conflicts_cong)
    moreover have "update_first (\<lambda>old. conflicts uk old r) (\<lambda>old. r)
             (update_first (\<lambda>old. conflicts uk old r) (\<lambda>old. r') rows)
           = update_first (\<lambda>old. conflicts uk old r) (\<lambda>old. r) rows"
      using assms(3) by (intro update_first_twice) auto
    ultimately show ?thesis using True by (simp add: upsert_rows_def eq)
  next
    case False
    have "update_first (\<lambda>old. conflicts uk old r) (\<lambda>old. r) (rows @ [r']) = rows @ [r]"
      using False assms(3) by (induction rows) auto
    with False assms(3) show ?thesis by (simp add: upsert_rows_def eq)
  qed
qed

lemma update_first_append:
  "update_first p f (xs @ ys) =
     (if list_ex p xs then update_first p f xs @ ys else xs @ update_first p f ys)"
  by (induction xs) auto

lemma update_first_commute:
  assumes "\<And>x. p x \<Longrightarrow> \<not> q x" "\<And>x. p x \<Longrightarrow> \<not> q (f x)" "\<And>x. q x \<Longrightarrow> \<not> p (g x)"
  shows "update_first p f (update_first q g rows) = update_first q g (update_first p f rows)"
  using assms by (induction rows) auto

text \<open>Upserts of different keys commute when one of the keys is already there.\<close>

lemma upsert_rows_commute:
  assumes "keyed uk r" "keyed uk r'" "\<not> conflicts uk r' r"
    and "list_ex (\<lambda>old. conflicts uk old r) rows \<or> list_ex (\<lambda>old. conflicts uk old r') rows"
  shows "upsert_rows uk r (upsert_rows uk r' rows) = upsert_rows uk r' (upsert_rows uk r rows)"
proof -
  have n: "\<not> conflicts uk r r'" using assms(3) conflicts_sym by blast
  have d1: "\<not> conflicts uk x r'" if "conflicts uk x r" for x
    using that assms(3) by (meson conflicts_sym conflicts_trans)
  have d2: "\<not> conflicts uk x r" if "conflicts uk x r'" for x
    using that d1 by blast
  have e1: "list_ex (\<lambda>old. conflicts uk old r) (upsert_rows uk r' rows)
            = list_ex (\<lambda>old. conflicts uk old r) rows"
    using assms(3) by (rule has_key_upsert_other)
  have e2: "list_ex (\<lambda>old. conflicts uk old r') (upsert_rows uk r rows)
            = list_ex (\<lambda>old. conflicts uk old r') rows"
    using n by (rule has_key_upsert_other)
  have c: "update_first (\<lambda>old. conflicts uk old r) (\<lambda>old. r)
             (update_first (\<lambda>old. conflicts uk old r') (\<lambda>old. r') rows)
           = update_first (\<lambda>old. conflicts uk old r') (\<lambda>old. r')
             (update_first (\<lambda>old. conflicts uk old r) (\<lambda>old. r) rows)"
    using d1 n assms(3) by (intro update_first_commute) auto
  consider (both) "list_ex (\<lambda>old. conflicts uk old r) rows" "list_ex (\<lambda>old. conflicts uk old r') rows"
    | (left) "list_ex (\<lambda>old. conflicts uk old r) rows" "\<not> list_ex (\<lambda>old. conflicts uk old r') rows"
    | (right) "\<not> list_ex (\<lambda>old. conflicts uk old r) rows" "list_ex (\<lambda>old. conflicts uk old r') rows"
    using assms(4) by blast
  then show ?thesis
  proof cases
    case both
    show ?thesis
      using e1 e2 both c unfolding upsert_rows_def by simp
  next
    case left
    have "upsert_rows uk r (rows @ [r']) = update_first (\<lambda>old. conflicts uk old r) (\<lambda>old. r) rows @ [r']"
      using left(1) by (simp add: upsert_rows_def update_first_append list_ex_append)
    moreover have "upsert_rows uk r' (update_first (\<lambda>old. conflicts uk old r) (\<lambda>old. r) rows)
                   = update_first (\<lambda>old. conflicts uk old r) (\<lambda>old. r) rows @ [r']"
      using e2 left by (simp add: upsert_rows_def)
    ultimately show ?thesis using left by (simp add: upsert_rows_def)
  next
    case right
    have "upsert_rows uk r' (rows @ [r]) = update_first (\<lambda>old. conflicts uk old r') (\<lambda>old. r') rows @ [r]"
      using right(2) by (simp add: upsert_rows_def update_first_append list_ex_append)
    moreover have "upsert_rows uk r (update_first (\<lambda>old. conflicts uk old r') (\<lambda>old. r') rows)
                   = update_first (\<lambda>old. conflicts uk old r') (\<lambda>old. r') rows @ [r]"
      using e1 right by (simp add: upsert_rows_def)
    ultimately show ?thesis using right by (simp add: upsert_rows_def)
  qed
qed

lemma find_update_first_other:
  "(\<And>x. p x \<Longrightarrow> \<not> q x \<and> \<not> q (f x)) \<Longrightarrow> find q (update_first p f rows) = find q rows"
  by (induction rows) auto

lemma find_upsert_other:
  assumes "\<not> conflicts uk r' r"
  shows "find (\<lambda>old. conflicts uk old r) (upsert_rows uk r' rows)
         = find (\<lambda>old. conflicts uk old r) rows"
proof -
  have a: "\<not> conflicts uk x r" if "conflicts uk x r'" for x
    using that assms by (meson conflicts_sym conflicts_trans)
  have "find (\<lambda>old. conflicts uk old r)
          (update_first (\<lambda>old. conflicts uk old r') (\<lambda>old. r') rows)
        = find (\<lambda>old. conflicts uk old r) rows"
    using a assms by (intro find_update_first_other) auto
  moreover have "find (\<lambda>old. conflicts uk old r) (rows @ [r'])
                 = find (\<lambda>old. conflicts uk old r) rows"
    using assms by (induction rows) auto
  ultimately show ?thesis by (simp add: upsert_rows_def)
qed

lemma find_update_first_self:
  "list_ex p rows \<Longrightarrow> p r \<Longrightarrow> find p (update_first p (\<lambda>old. r) rows) = Some r"
  by (induction rows) auto

lemma find_upsert_self:
  assumes "keyed uk r"
  shows "find (\<lambda>old. conflicts uk old r) (upsert_rows uk r rows) = Some r"
proof (cases "list_ex (\<lambda>old. conflicts uk old r) rows")
  case True
  then show ?thesis
    using assms by (simp add: upsert_rows_def find_update_first_self conflicts_refl)
next
  case False
  have "find (\<lambda>old. conflicts uk old r) (rows @ [r]) = Some r"
    using False assms by (induction rows) (auto simp: conflicts_refl)
  with False show ?thesis by (simp add: upsert_rows_def)
qed

text \<open>Upserting the row that is already the first of its key changes nothing.\<close>

lemma upsert_rows_triv:
  "find (\<lambda>old. conflicts uk old r) rows = Some r \<Longrightarrow> upsert_rows uk r rows = rows"
proof -
  assume f: "find (\<lambda>old. conflicts uk old r) rows = Some r"
  then have ex: "list_ex (\<lambda>old. conflicts uk old r) rows"
    by (induction rows) (auto split: if_splits)
  from f have "update_first (\<lambda>old. conflicts uk old r) (\<lambda>old. r) rows = rows"
    by (induction rows) (auto split: if_splits)
  with ex show ?thesis by (simp add: upsert_rows_def)
qed

lemma fold_upsert_has_key:
  "list_all (keyed uk) rs \<Longrightarrow> list_ex (\<lambda>old. conflicts uk old r) rows
   \<Longrightarrow> list_ex (\<lambda>old. conflicts uk old r) (fold (upsert_rows uk) rs rows)"
  by (induction rs arbitrary: rows) (auto simp: has_key_upsert_mono)

lemma fold_upsert_absorbs:
  assumes "list_all (keyed uk) rs" "keyed uk r"
    and "list_ex (\<lambda>r'. conflicts uk r' r) rs"
    and "list_ex (\<lambda>old. conflicts uk old r) rows"
  shows "fold (upsert_rows uk) rs (upsert_rows uk r rows) = fold (upsert_rows uk) rs rows"
  using assms
proof (induction rs arbitrary: rows)
  case Nil
  then show ?case by simp
next
  case (Cons s rs)
  show ?case
  proof (cases "conflicts uk s r")
    case True
    then have "conflicts uk r s" by (rule conflicts_sym)
    with Cons.prems have "upsert_rows uk s (upsert_rows uk r rows) = upsert_rows uk s rows"
      by (intro upsert_rows_over) auto
    then show ?thesis by simp
  next
    case False
    then have n: "\<not> conflicts uk r s" using conflicts_sym by blast
    have "upsert_rows uk s (upsert_rows uk r rows) = upsert_rows uk r (upsert_rows uk s rows)"
      using Cons.prems n by (intro upsert_rows_commute) auto
    moreover have "fold (upsert_rows uk) rs (upsert_rows uk r (upsert_rows uk s rows))
                   = fold (upsert_rows uk) rs (upsert_rows uk s rows)"
      using Cons.prems False
      by (intro Cons.IH) (auto simp: has_key_upsert_mono)
    ultimately show ?thesis by simp
  qed
qed

lemma fold_upsert_find_other:
  "\<not> list_ex (\<lambda>r'. conflicts uk r' r) rs
   \<Longrightarrow> find (\<lambda>old. conflicts uk old r) (fold (upsert_rows uk) rs rows)
       = find (\<lambda>old. conflicts uk old r) rows"
  by (induction rs arbitrary: rows) (auto simp: find_upsert_other)

text \<open>Running a sequence of upserts a second time changes nothing.\<close>

lemma fold_upsert_idem:
  "list_all (keyed uk) rs
   \<Longrightarrow> fold (upsert_rows uk) rs (fold (upsert_rows uk) rs rows) = fold (upsert_rows uk) rs rows"
proof (induction rs arbitrary: rows)
  case Nil
  show ?case by simp
next
  case (Cons r rs)
  let ?A = "upsert_rows uk r rows"
  let ?F = "fold (upsert_rows uk) rs"
  from Cons.prems have k: "keyed uk r" and ks: "list_all (keyed uk) rs" by auto
  have IH: "?F (?F ?A) = ?F ?A" using ks by (rule Cons.IH)
  have "?F (upsert_rows uk r (?F ?A)) = ?F ?A"
  proof (cases "list_ex (\<lambda>r'. conflicts uk r' r) rs")
    case True
    have "list_ex (\<lambda>old. conflicts uk old r) (?F ?A)"
      using ks k by (intro fold_upsert_has_key has_key_upsert_self)
    with ks k True have "?F (upsert_rows uk r (?F ?A)) = ?F (?F ?A)"
      by (intro fold_upsert_absorbs)
    with IH show ?thesis by simp
  next
    case False
    then have "find (\<lambda>old. conflicts uk old r) (?F ?A) = find (\<lambda>old. conflicts uk old r) ?A"
      by (rule fold_upsert_find_other)
    also have "\<dots> = Some r" using k by (rule find_upsert_self)
    finally have "upsert_rows uk r (?F ?A) = ?F ?A" by (rule upsert_rows_triv)
    with IH show ?thesis by simp
  qed
  then show ?case by simp
qed

section \<open>Scripts\<close>

lemma run_queries_prepared: "run_queries qs d = run_operations (prepared qs) d"
proof (induction qs arbitrary: d)
  case Nil
  show ?case by (simp add: prepared_def)
next
  case (Cons q qs)
  obtain sql vals where q: "q = (sql, vals)" by (cases q)
  have "prepared (q # qs) = prepare sql vals # prepared qs"
    by (simp add: prepared_def q)
  then show ?case
    by (cases "query sql vals d") (simp_all add: q query_def Cons)
qed

lemma prepared_append [simp]: "prepared (a @ b) = prepared a @ prepared b"
  by (simp add: prepared_def)

lemma run_operations_append:
  "run_operations (a @ b) d = bindE (run_operations a d) (run_operations b)"
proof (induction a arbitrary: d)
  case Nil
  show ?case by simp
next
  case (Cons op a)
  show ?case by (cases "perform op d") (simp_all add: Cons)
qed

lemma perform_rows_after:
  assumes "perform op d = Inr d'" and "guarded S [op]"
  shows "d' t = rows_after t op (d t)"
proof (cases op)
  case (Upsert t' upd r)
  with assms(2) have "full_upsert t' upd r" by simp
  from perform_Upsert_full[OF this] assms(1) Upsert show ?thesis by auto
next
  case (Insert t' r)
  with assms(1) show ?thesis by (auto split: if_splits)
next
  case (Delete t' c k)
  with assms(1) show ?thesis by auto
next
  case (Rejected e)
  with assms(1) show ?thesis by simp
qed

lemma guarded_mono:
  "guarded S ops \<Longrightarrow> set S \<subseteq> set S' \<Longrightarrow> guarded S' ops"
proof (induction S ops arbitrary: S' rule: guarded.induct)
  case (3 S t r ops)
  then show ?case by (auto simp: list_ex_iff)
next
  case (4 S t c k ops)
  show ?case
  proof (cases "k = SqlNull")
    case True
    with "4.prems" have "guarded S ops" "\<not> parent_table t" by auto
    with True "4.IH"[of S'] "4.prems"(2) show ?thesis by simp
  next
    case False
    with "4.prems" have g: "guarded ((t, c, k) # S) ops" and p: "\<not> parent_table t" by auto
    have "set ((t, c, k) # S) \<subseteq> set ((t, c, k) # S')"
      using "4.prems"(2) by auto
    with g False have "guarded ((t, c, k) # S') ops"
      using "4.IH"[of "(t, c, k) # S'"] by simp
    with False p show ?thesis by simp
  qed
qed auto

lemma guarded_append:
  "guarded S a \<Longrightarrow> guarded S b \<Longrightarrow> guarded S (a @ b)"
proof (induction S a rule: guarded.induct)
  case (4 S t c k ops)
  show ?case
  proof (cases "k = SqlNull")
    case True
    with "4.prems" have "guarded S ops" "\<not> parent_table t" by auto
    with True "4.IH" "4.prems"(2) show ?thesis by simp
  next
    case False
    with "4.prems" have g: "guarded ((t, c, k) # S) ops" and p: "\<not> parent_table t" by auto
    have "guarded ((t, c, k) # S) b"
      using "4.prems"(2) by (rule guarded_mono) auto
    with g False have "guarded ((t, c, k) # S) (ops @ b)"
      using "4.IH" by simp
    with False p show ?thesis by simp
  qed
qed auto

lemma guarded_head: "guarded S (op # ops) \<Longrightarrow> guarded S [op]"
  by (cases op) auto

lemma run_rows_after:
  "run_operations ops d = Inr d' \<Longrightarrow> guarded S ops \<Longrightarrow> d' t = fold (rows_after t) ops (d t)"
proof (induction ops arbitrary: d S)
  case Nil
  then show ?case by simp
next
  case (Cons op ops)
  from Cons.prems(1) obtain d1 where d1: "perform op d = Inr d1"
    and rest: "run_operations ops d1 = Inr d'"
    by (auto simp: bindE_Inr_iff)
  have h: "d1 t = rows_after t op (d t)"
    using d1 guarded_head[OF Cons.prems(2)] by (rule perform_rows_after)
  have "\<exists>S'. guarded S' ops"
    using Cons.prems(2) d1 by (cases op) (auto split: if_splits)
  then obtain S' where "guarded S' ops" by blast
  from Cons.IH[OF rest this] h show ?case by simp
qed

subsection \<open>A table of children\<close>

lemma child_closed_form:
  "\<not> parent_table t \<Longrightarrow> guarded S ops
   \<Longrightarrow> list_all (\<lambda>op. case op of Rejected e \<Rightarrow> False | _ \<Rightarrow> True) ops
   \<Longrightarrow> fold (rows_after t) ops rows = filter (\<lambda>x. \<not> deleted t ops x) rows @ kept t ops"
proof (induction ops arbitrary: rows S)
  case Nil
  show ?case by simp
next
  case (Cons op ops)
  show ?case
  proof (cases op)
    case (Upsert t' upd r)
    with Cons.prems have "t' \<noteq> t" "guarded S ops" by (auto simp: full_upsert_def)
    with Cons Upsert show ?thesis by simp
  next
    case (Insert t' r)
    with Cons.prems have "guarded S ops" by simp
    with Cons Insert show ?thesis by simp
  next
    case (Delete t' c k)
    with Cons.prems have "guarded (if k = SqlNull then S else (t', c, k) # S) ops" by simp
    with Cons Delete show ?thesis by (auto intro: filter_cong)
  next
    case (Rejected e)
    with Cons.prems show ?thesis by simp
  qed
qed


lemma kept_deleted:
  "guarded S ops \<Longrightarrow> list_all (\<lambda>op. case op of Rejected e \<Rightarrow> False | _ \<Rightarrow> True) ops
   \<Longrightarrow> x \<in> set (kept t ops)
   \<Longrightarrow> deleted t ops x \<or> list_ex (\<lambda>(t', c, k). t' = t \<and> k \<noteq> SqlNull \<and> cell x c = k) S"
proof (induction S ops rule: guarded.induct)
  case (3 S t' r ops)
  then show ?case by (auto simp: list_ex_iff split: if_splits)
next
  case (4 S t' c k ops)
  then show ?case by (auto simp: list_ex_iff split: if_splits)
qed (auto simp: list_ex_iff)


subsection \<open>The outcome of a guarded script does not depend on the store\<close>

lemma conflict_view:
  assumes "c \<in> set uk" "cell r c = k"
  shows "list_ex (\<lambda>old. conflicts uk old r) rows
         = list_ex (\<lambda>old. conflicts uk old r) (filter (\<lambda>x. cell x c = k) rows)"
proof -
  have "conflicts uk old r \<Longrightarrow> cell old c = k" for old
    using assms by (auto simp: conflicts_def)
  then show ?thesis by (auto simp: list_ex_iff)
qed

lemma agree_update_other:
  "agree S d d2 \<Longrightarrow> \<forall>(t', c, k) \<in> set S. t' \<noteq> t \<Longrightarrow> agree S (d(t := a)) (d2(t := b))"
  by (auto simp: agree_def)

lemma agree_append:
  "agree S d d2 \<Longrightarrow> agree S (d(t := d t @ [r])) (d2(t := d2 t @ [r]))"
  by (auto simp: agree_def)

lemma filter_view_cong:
  assumes "filter (\<lambda>x. cell x c = k) rows = filter (\<lambda>x. cell x c = k) rows2"
  shows "filter (\<lambda>x. cell x c = k) (filter q rows) = filter (\<lambda>x. cell x c = k) (filter q rows2)"
proof -
  have "filter (\<lambda>x. cell x c = k) (filter q rows) = filter q (filter (\<lambda>x. cell x c = k) rows)"
    by (simp add: conj_commute)
  also have "\<dots> = filter q (filter (\<lambda>x. cell x c = k) rows2)"
    by (simp only: assms)
  also have "\<dots> = filter (\<lambda>x. cell x c = k) (filter q rows2)"
    by (simp add: conj_commute)
  finally show ?thesis .
qed

lemma agree_delete:
  assumes "agree S d d2"
  shows "agree (if k = SqlNull then S else (t, c, k) # S)
           (d(t := filter (\<lambda>x. \<not> (k \<noteq> SqlNull \<and> cell x c = k)) (d t)))
           (d2(t := filter (\<lambda>x. \<not> (k \<noteq> SqlNull \<and> cell x c = k)) (d2 t)))"
proof -
  let ?q = "\<lambda>x. \<not> (k \<noteq> SqlNull \<and> cell x c = k)"
  have old: "filter (\<lambda>x. cell x c' = k') ((d(t := filter ?q (d t))) t')
             = filter (\<lambda>x. cell x c' = k') ((d2(t := filter ?q (d2 t))) t')"
    if "(t', c', k') \<in> set S" for t' c' k'
  proof -
    from assms that
    have v: "filter (\<lambda>x. cell x c' = k') (d t') = filter (\<lambda>x. cell x c' = k') (d2 t')"
      by (auto simp: agree_def)
    show ?thesis
    proof (cases "t' = t")
      case True
      with filter_view_cong[OF v, of ?q] show ?thesis by simp
    next
      case False
      with v show ?thesis by simp
    qed
  qed
  have new: "filter (\<lambda>x. cell x c = k) (filter ?q rows) = []" if "k \<noteq> SqlNull" for rows
    using that by (simp add: filter_empty_conv)
  show ?thesis
  proof (cases "k = SqlNull")
    case True
    with old show ?thesis by (auto simp: agree_def)
  next
    case False
    have "agree ((t, c, k) # S) (d(t := filter ?q (d t))) (d2(t := filter ?q (d2 t)))"
      unfolding agree_def
    proof (intro ballI)
      fix e assume e: "e \<in> set ((t, c, k) # S)"
      obtain t' c' k' where e_eq: "e = (t', c', k')" by (cases e)
      show "case e of (t', c', k') \<Rightarrow>
              filter (\<lambda>x. cell x c' = k') ((d(t := filter ?q (d t))) t')
              = filter (\<lambda>x. cell x c' = k') ((d2(t := filter ?q (d2 t))) t')"
      proof (cases "e = (t, c, k)")
        case True
        then show ?thesis using new[OF False] by simp
      next
        case False
        with e e_eq have "(t', c', k') \<in> set S" by auto
        from old[OF this] show ?thesis by (simp add: e_eq)
      qed
    qed
    with False show ?thesis by simp
  qed
qed

lemma state_independent:
  assumes "guarded S ops" "agree S d d2" "\<forall>(t, c, k) \<in> set S. \<not> parent_table t"
  shows "(\<forall>e. run_operations ops d = Inl e \<longrightarrow> run_operations ops d2 = Inl e)
         \<and> (\<forall>d'. run_operations ops d = Inr d' \<longrightarrow> (\<exists>d2'. run_operations ops d2 = Inr d2'))"
  using assms
proof (induction ops arbitrary: S d d2)
  case Nil
  show ?case by simp
next
  case (Cons op ops)
  show ?case
  proof (cases op)
    case (Upsert t upd r)
    with Cons.prems(1) have f: "full_upsert t upd r" and g: "guarded S ops" by auto
    from f have "parent_table t" by (simp add: full_upsert_def)
    with Cons.prems(3) have "\<forall>(t', c, k) \<in> set S. t' \<noteq> t" by auto
    with Cons.prems(2)
    have "agree S (d(t := upsert_rows (unique_key t) r (d t)))
                  (d2(t := upsert_rows (unique_key t) r (d2 t)))"
      by (rule agree_update_other)
    then have ih: "(\<forall>e. run_operations ops (d(t := upsert_rows (unique_key t) r (d t))) = Inl e
              \<longrightarrow> run_operations ops (d2(t := upsert_rows (unique_key t) r (d2 t))) = Inl e)
         \<and> (\<forall>d'. run_operations ops (d(t := upsert_rows (unique_key t) r (d t))) = Inr d'
              \<longrightarrow> (\<exists>d2'. run_operations ops (d2(t := upsert_rows (unique_key t) r (d2 t))) = Inr d2'))"
      by (rule Cons.IH[OF g _ Cons.prems(3)])
    have e1: "run_operations (op # ops) d
              = run_operations ops (d(t := upsert_rows (unique_key t) r (d t)))"
      and e2: "run_operations (op # ops) d2
              = run_operations ops (d2(t := upsert_rows (unique_key t) r (d2 t)))"
      unfolding Upsert by (simp_all only: run_operations.simps perform_Upsert_full[OF f] bindE_Inr)
    show ?thesis unfolding e1 e2 by (rule ih)
  next
    case (Insert t r)
    with Cons.prems(1) obtain c k where g: "guarded S ops"
      and m: "(t, c, k) \<in> set S" "cell r c = k" "unique_key t = [] \<or> c \<in> set (unique_key t)"
      by (auto simp: list_ex_iff)
    have same: "list_ex (\<lambda>old. conflicts (unique_key t) old r) (d t)
                = list_ex (\<lambda>old. conflicts (unique_key t) old r) (d2 t)"
    proof (cases "unique_key t = []")
      case True
      then show ?thesis by (simp add: conflicts_def list_ex_iff)
    next
      case False
      with m have c: "c \<in> set (unique_key t)" by simp
      from Cons.prems(2) m(1)
      have "filter (\<lambda>x. cell x c = k) (d t) = filter (\<lambda>x. cell x c = k) (d2 t)"
        by (auto simp: agree_def)
      then show ?thesis
        using conflict_view[OF c m(2), of "d t"] conflict_view[OF c m(2), of "d2 t"] by simp
    qed
    have a: "agree S (d(t := d t @ [r])) (d2(t := d2 t @ [r]))"
      using Cons.prems(2) by (rule agree_append)
    show ?thesis
    proof (cases "list_ex (\<lambda>old. conflicts (unique_key t) old r) (d t)")
      case True
      with same have e1: "run_operations (op # ops) d = Inl (dup_entry t)"
        and e2: "run_operations (op # ops) d2 = Inl (dup_entry t)"
        by (simp_all add: Insert)
      show ?thesis unfolding e1 e2 by simp
    next
      case False
      with same have e1: "run_operations (op # ops) d = run_operations ops (d(t := d t @ [r]))"
        and e2: "run_operations (op # ops) d2 = run_operations ops (d2(t := d2 t @ [r]))"
        by (simp_all add: Insert)
      show ?thesis unfolding e1 e2 by (rule Cons.IH[OF g a Cons.prems(3)])
    qed
  next
    case (Delete t c k)
    with Cons.prems(1) have p: "\<not> parent_table t"
      and g: "guarded (if k = SqlNull then S else (t, c, k) # S) ops" by auto
    have a: "agree (if k = SqlNull then S else (t, c, k) # S)
           (d(t := filter (\<lambda>x. \<not> (k \<noteq> SqlNull \<and> cell x c = k)) (d t)))
           (d2(t := filter (\<lambda>x. \<not> (k \<noteq> SqlNull \<and> cell x c = k)) (d2 t)))"
      using Cons.prems(2) by (rule agree_delete)
    have n: "\<forall>(t', c', k') \<in> set (if k = SqlNull then S else (t, c, k) # S). \<not> parent_table t'"
      using Cons.prems(3) p by auto
    have e1: "run_operations (op # ops) d
              = run_operations ops (d(t := filter (\<lambda>x. \<not> (k \<noteq> SqlNull \<and> cell x c = k)) (d t)))"
      and e2: "run_operations (op # ops) d2
              = run_operations ops (d2(t := filter (\<lambda>x. \<not> (k \<noteq> SqlNull \<and> cell x c = k)) (d2 t)))"
      by (simp_all add: Delete)
    show ?thesis unfolding e1 e2 by (rule Cons.IH[OF g a n])
  next
    case (Rejected e)
    then show ?thesis by simp
  qed
qed

lemma same_outcome:
  assumes "guarded [] ops"
  shows "(run_operations ops d = Inl e \<longrightarrow> run_operations ops d2 = Inl e)
         \<and> (run_operations ops d = Inr d' \<longrightarrow> (\<exists>d2'. run_operations ops d2 = Inr d2'))"
  using state_independent[OF assms, of d d2] by (simp add: agree_def)

subsection \<open>Running a guarded script a second time changes nothing\<close>

lemma no_rejected:
  "run_operations ops d = Inr d'
   \<Longrightarrow> list_all (\<lambda>op. case op of Rejected e \<Rightarrow> False | _ \<Rightarrow> True) ops"
proof (induction ops arbitrary: d)
  case Nil
  show ?case by simp
next
  case (Cons op ops)
  then show ?case by (cases op) (auto simp: bindE_Inr_iff split: if_splits)
qed

lemma parent_closed_form:
  "parent_table t \<Longrightarrow> guarded S ops
   \<Longrightarrow> list_all (\<lambda>op. case op of Rejected e \<Rightarrow> False | _ \<Rightarrow> True) ops
   \<Longrightarrow> fold (rows_after t) ops rows = fold (upsert_rows (unique_key t)) (upserted t ops) rows
       \<and> list_all (keyed (unique_key t)) (upserted t ops)"
proof (induction ops arbitrary: rows S)
  case Nil
  show ?case by simp
next
  case (Cons op ops)
  show ?case
  proof (cases op)
    case (Upsert t' upd r)
    with Cons.prems have g: "guarded S ops" and f: "full_upsert t' upd r" by auto
    from f have "t' = t \<longrightarrow> keyed (unique_key t) r" by (auto simp: full_upsert_def)
    with Cons.IH[OF Cons.prems(1) g] Cons.prems(3) Upsert show ?thesis by simp
  next
    case (Insert t' r)
    with Cons.prems have "guarded S ops" "t' \<noteq> t" by auto
    with Cons Insert show ?thesis by simp
  next
    case (Delete t' c k)
    with Cons.prems have "guarded (if k = SqlNull then S else (t', c, k) # S) ops" "t' \<noteq> t"
      by auto
    with Cons Delete show ?thesis by simp
  next
    case (Rejected e)
    with Cons.prems show ?thesis by simp
  qed
qed

lemma rows_after_idem:
  assumes "guarded [] ops"
    and "list_all (\<lambda>op. case op of Rejected e \<Rightarrow> False | _ \<Rightarrow> True) ops"
  shows "fold (rows_after t) ops (fold (rows_after t) ops rows) = fold (rows_after t) ops rows"
proof (cases "parent_table t")
  case True
  from parent_closed_form[OF True assms]
  have c: "\<And>rows. fold (rows_after t) ops rows
                   = fold (upsert_rows (unique_key t)) (upserted t ops) rows"
    and k: "list_all (keyed (unique_key t)) (upserted t ops)" by auto
  show ?thesis by (simp add: c fold_upsert_idem[OF k])
next
  case False
  have c: "\<And>rows. fold (rows_after t) ops rows
                   = filter (\<lambda>x. \<not> deleted t ops x) rows @ kept t ops"
    using False assms by (rule child_closed_form)
  have "deleted t ops x" if "x \<in> set (kept t ops)" for x
    using kept_deleted[OF assms that] by simp
  then have "filter (\<lambda>x. \<not> deleted t ops x) (kept t ops) = []"
    by (simp add: filter_empty_conv)
  then show ?thesis by (simp add: c)
qed

lemma rerun_unchanged:
  assumes "guarded [] ops" and "run_operations ops d = Inr d1"
  shows "run_operations ops d1 = Inr d1"
proof -
  from same_outcome[OF assms(1), of d _ d1 d1] assms(2)
  obtain d2 where d2: "run_operations ops d1 = Inr d2" by auto
  have nr: "list_all (\<lambda>op. case op of Rejected e \<Rightarrow> False | _ \<Rightarrow> True) ops"
    using assms(2) by (rule no_rejected)
  have "d2 t = d1 t" for t
  proof -
    have a: "d2 t = fold (rows_after t) ops (d1 t)"
      using d2 assms(1) by (rule run_rows_after)
    have b: "d1 t = fold (rows_after t) ops (d t)"
      using assms(2,1) by (rule run_rows_after)
    show ?thesis
      unfolding a b by (rule rows_after_idem[OF assms(1) nr])
  qed
  then have "d2 = d1" by (rule ext)
  with d2 show ?thesis by simp
qed

section \<open>The scripts of the sync functions\<close>

lemma child_inserts_guarded: "list_all (child_insert S) ops \<Longrightarrow> guarded S ops"
proof (induction ops)
  case Nil
  show ?case by simp
next
  case (Cons op ops)
  then show ?case by (cases op) (auto simp: child_insert_def)
qed

lemma awaits_guarded: "awaits (child_insert S) m \<Longrightarrow> guarded S (prepared (fst m))"
  by (rule child_inserts_guarded) (simp add: awaits_def prepared_def list_all_iff split_def)

lemma awaits_bindA:
  "awaits P m \<Longrightarrow> (\<And>x. awaits P (f x)) \<Longrightarrow> awaits P (bindA m f)"
  by (cases "snd m") (auto simp: awaits_def fst_bindA)

lemma awaits_evaluate [simp]: "awaits P (evaluate e)"
  by (simp add: awaits_def evaluate_def)

lemma awaits_skip [simp]: "awaits P ([], r)"
  by (simp add: awaits_def)

lemma awaits_queryAsync [simp]: "awaits P (queryAsync sql vals) = P (prepare sql vals)"
  by (simp add: awaits_def queryAsync_def)

lemma awaits_forA: "(\<And>x. awaits P (body x)) \<Longrightarrow> awaits P (forA body xs)"
  by (induction xs) (auto intro: awaits_bindA)

lemma escape_flag:
  assumes "escape False v = Some k"
  shows "escape True v = Some k"
proof (cases v)
  case (JArr xs)
  with assms show ?thesis by (cases xs; cases "tl xs") auto
qed (use assms in auto)

lemma cell_head [simp]: "cell ((c, v) # r) c = v"
  by (simp add: cell_def)

lemma insert_values_child:
  assumes "escape False idx = Some k" "k \<noteq> SqlNull" "(t, c, k) \<in> set S" "\<not> parent_table t"
    and "unique_key t = [] \<or> c \<in> set (unique_key t)"
  shows "child_insert S (prepare (InsertValues t (c # cols)) (JArr (idx # vals)))"
  using assms
  by (auto simp: child_insert_def checked_def bind_values_def list_ex_iff
           split: option.splits intro!: bexI[of _ "(t, c, k)"])

lemma insert_set_child:
  assumes "escape False idx = Some k" "k \<noteq> SqlNull" "(t, c, k) \<in> set S" "\<not> parent_table t"
    and "unique_key t = [] \<or> c \<in> set (unique_key t)"
  shows "child_insert S (prepare (InsertSet t) (JObj ((c, idx) # kvs)))"
  using assms escape_flag[OF assms(1)]
  by (auto simp: child_insert_def checked_def bind_values_def list_ex_iff
           split: option.splits intro!: bexI[of _ "(t, c, k)"])

lemma prepare_upsert:
  assumes "parent_table t" "''index'' \<in> set (not_null t)" "distinct (''index'' # cs)"
    and "map fst vs = cs"
  shows "(\<exists>e. prepare (on_duplicate_key_update t (''index'' # cs))
                (Object_values ((''index'', idx) # vs)) = Rejected e)
       \<or> (\<exists>r k. prepare (on_duplicate_key_update t (''index'' # cs))
                  (Object_values ((''index'', idx) # vs)) = Upsert t cs r
              \<and> full_upsert t cs r \<and> escape False idx = Some k \<and> k \<noteq> SqlNull)"
proof (cases "prepare (on_duplicate_key_update t (''index'' # cs))
                (Object_values ((''index'', idx) # vs))")
  case (Upsert t' upd r)
  then have b: "bind_values False (''index'' # cs) (idx # map snd vs) = Some r"
    and n: "null_violation t r = None" and u: "upd = cs" "t' = t"
    by (auto simp: on_duplicate_key_update_def Object_values_def checked_def
             split: if_splits option.splits)
  from b obtain k where k: "escape False idx = Some k"
    and r: "r = (''index'', k) # zip cs (map (\<lambda>v. the (escape False v)) (map snd vs))"
    by (auto simp: bind_values_def split: if_splits)
  from n assms(2) have "cell r ''index'' \<noteq> SqlNull"
    by (auto simp: null_violation_def find_None_iff)
  with r have nn: "k \<noteq> SqlNull" by simp
  from assms(4) have len: "length cs = length vs" by auto
  then have m: "map fst r = ''index'' # cs" by (simp add: r)
  have "full_upsert t cs r"
    unfolding full_upsert_def m using assms(1,3) nn r
    by (auto simp: keyed_def parent_table_def list_all_iff)
  with Upsert u k nn show ?thesis by simp
next
  case (Insert t' r)
  then show ?thesis
    by (auto simp: on_duplicate_key_update_def Object_values_def checked_def
             split: if_splits option.splits)
next
  case (Delete t' c k)
  then show ?thesis
    by (auto simp: on_duplicate_key_update_def Object_values_def checked_def
             split: if_splits option.splits)
next
  case (Rejected e)
  then show ?thesis by simp
qed

lemma parent_first:
  assumes rec: "\<And>newRecord. rec = Inr newRecord
                  \<Longrightarrow> \<exists>vs. newRecord = (''index'', idx) # vs \<and> map fst vs = cs"
    and t: "parent_table t" "''index'' \<in> set (not_null t)"
    and cs: "distinct (''index'' # cs)"
    and rest: "\<And>k. escape False idx = Some k \<Longrightarrow> k \<noteq> SqlNull
                 \<Longrightarrow> guarded [] (prepared (fst rest))"
  shows "guarded [] (prepared (fst
           (bindA (evaluate rec) (\<lambda>newRecord.
            bindA (queryAsync (on_duplicate_key_update t (''index'' # cs))
                     (Object_values newRecord)) (\<lambda>u. rest)))))"
proof (cases rec)
  case (Inl e)
  then show ?thesis by (simp add: prepared_def)
next
  case (Inr newRecord)
  from rec[OF Inr] obtain vs where v: "newRecord = (''index'', idx) # vs" "map fst vs = cs"
    by auto
  have s: "prepared (fst (bindA (evaluate rec) (\<lambda>newRecord.
            bindA (queryAsync (on_duplicate_key_update t (''index'' # cs))
                     (Object_values newRecord)) (\<lambda>u. rest))))
       = prepare (on_duplicate_key_update t (''index'' # cs))
           (Object_values ((''index'', idx) # vs)) # prepared (fst rest)"
    by (simp add: Inr v(1) fst_bindA prepared_def queryAsync_def)
  from prepare_upsert[OF t cs v(2), of idx] show ?thesis
  proof
    assume "\<exists>e. prepare (on_duplicate_key_update t (''index'' # cs))
                (Object_values ((''index'', idx) # vs)) = Rejected e"
    then show ?thesis unfolding s by auto
  next
    assume "\<exists>r k. prepare (on_duplicate_key_update t (''index'' # cs))
                  (Object_values ((''index'', idx) # vs)) = Upsert t cs r
              \<and> full_upsert t cs r \<and> escape False idx = Some k \<and> k \<noteq> SqlNull"
    then obtain r k where "prepare (on_duplicate_key_update t (''index'' # cs))
                  (Object_values ((''index'', idx) # vs)) = Upsert t cs r"
      "full_upsert t cs r" "escape False idx = Some k" "k \<noteq> SqlNull" by auto
    with rest[of k] show ?thesis unfolding s by simp
  qed
qed

lemma delete_then:
  assumes "escape False idx = Some k" "k \<noteq> SqlNull" "\<not> parent_table t"
    and "guarded ((t, c, k) # S) (prepared (fst rest))"
  shows "guarded S (prepared (fst (bindA (delete_where t c idx) (\<lambda>u. rest))))"
  using assms
  by (simp add: fst_bindA delete_where_def queryAsync_def prepared_def)

lemma awaits_bind_evaluate [simp]:
  "awaits P (bindA (evaluate e) f) = (\<forall>x. e = Inr x \<longrightarrow> awaits P (f x))"
  by (cases e) (simp_all add: awaits_def fst_bindA evaluate_def)

lemma awaits_Cons [simp]:
  "awaits P ((sql, vals) # qs, r) = (P (prepare sql vals) \<and> awaits P (qs, r))"
  by (simp add: awaits_def)

lemma awaits_fst [simp]: "awaits P (fst m, r) = awaits P m"
  by (simp add: awaits_def)

lemma awaits_bind_query [simp]:
  "awaits P (bindA (queryAsync sql vals) f) = (P (prepare sql vals) \<and> awaits P (f ()))"
  by (simp add: awaits_def fst_bindA queryAsync_def)

lemmas table_facts = parent_table_def unique_key_def not_null_def schema_lookup

lemma class_transaction_guarded: "guarded [] (prepared (fst (class_transaction fetched)))"
proof -
  obtain detailData levelsData spellsData where f: "fetched = (detailData, levelsData, spellsData)"
    by (cases fetched)
  define idx where "idx = field detailData ''index''"
  define S where "S k = [(''class_starting_equipment_options'', ''class_index'', k),
               (''class_starting_equipment'', ''class_index'', k),
               (''class_proficiency_choices'', ''class_index'', k),
               (''class_spells'', ''class_index'', k),
               (''class_levels'', ''class_index'', k)]" for k :: sqlval
  have 1: "awaits (child_insert (S k)) (insert_class_level idx x)"
    if "escape False idx = Some k" "k \<noteq> SqlNull" for x k
    using that by (auto simp: S_def insert_class_level_def levelRecord_def bindE_Inr_iff table_facts
                     intro!: insert_set_child simp del: prepare.simps)
  have 2: "awaits (child_insert (S k)) (insert_class_spell idx x)"
    if "escape False idx = Some k" "k \<noteq> SqlNull" for x k
    using that by (auto simp: S_def insert_class_spell_def table_facts
                     intro!: insert_values_child simp del: prepare.simps)
  have 3: "awaits (child_insert (S k)) (insert_proficiency_choice idx x)"
    if "escape False idx = Some k" "k \<noteq> SqlNull" for x k
    using that by (auto simp: S_def insert_proficiency_choice_def proficiency_choiceRecord_def
                       bindE_Inr_iff table_facts
                     intro!: insert_set_child split: prod.splits simp del: prepare.simps)
  have 4: "awaits (child_insert (S k)) (insert_starting_equipment idx x)"
    if "escape False idx = Some k" "k \<noteq> SqlNull" for x k
    using that by (auto simp: S_def insert_starting_equipment_def table_facts
                     intro!: insert_values_child simp del: prepare.simps)
  have 5: "awaits (child_insert (S k)) (insert_starting_equipment_option idx x)"
    if "escape False idx = Some k" "k \<noteq> SqlNull" for x k
    using that by (auto simp: S_def insert_starting_equipment_option_def equipment_optionRecord_def
                       bindE_Inr_iff table_facts
                     intro!: insert_set_child split: prod.splits simp del: prepare.simps)
  show ?thesis
    unfolding f class_transaction_def classQuery_def prod.case idx_def[symmetric]
    apply (rule parent_first[where idx = idx])
        prefer 5
        apply (rule delete_then, assumption, assumption, simp add: table_facts)+
        apply (rule awaits_guarded)
        apply (fold S_def)
        apply (auto intro!: awaits_bindA awaits_forA 1 2 3 4 5 split: js.splits)[1]
       apply (auto simp: classRecord_def bindE_Inr_iff read_Inr_iff idx_def table_facts)
    done
qed

lemma insert_links_child:
  assumes "escape False idx = Some k" "k \<noteq> SqlNull" "(t, c, k) \<in> set S" "\<not> parent_table t"
    and "unique_key t = [] \<or> c \<in> set (unique_key t)"
  shows "awaits (child_insert S) (insert_links t [c, c2] idx xs)"
  unfolding insert_links_def
  by (auto intro!: awaits_forA insert_values_child[OF assms] simp del: prepare.simps)

lemma insert_condition_immunities_child:
  assumes "escape False idx = Some k" "k \<noteq> SqlNull"
    and "(''monster_condition_immunities'', ''monster_index'', k) \<in> set S"
  shows "awaits (child_insert S) (insert_condition_immunities idx conds processed)"
proof (induction conds arbitrary: processed)
  case Nil
  show ?case by simp
next
  case (Cons cond conds)
  have "child_insert S (prepare (InsertValues ''monster_condition_immunities''
                        [''monster_index'', ''condition_index'']) (JArr [idx, v]))" for v
    using assms by (auto intro!: insert_values_child simp: table_facts simp del: prepare.simps)
  with Cons show ?case by (simp del: prepare.simps)
qed

lemma insert_subclass_spells_child:
  assumes "escape False idx = Some k" "k \<noteq> SqlNull"
    and "(''subclass_spells'', ''subclass_index'', k) \<in> set S"
  shows "awaits (child_insert S) (insert_subclass_spells idx spells processed)"
proof (induction spells arbitrary: processed)
  case Nil
  show ?case by simp
next
  case (Cons spell spells)
  have "child_insert S (prepare (InsertSet ''subclass_spells'')
          (JObj [(''subclass_index'', idx), (''spell_index'', v), (''prerequisites'', p)]))" for v p
    using assms by (auto intro!: insert_set_child simp: table_facts simp del: prepare.simps)
  with Cons show ?case by (simp del: prepare.simps)
qed

lemma monster_transaction_guarded: "guarded [] (prepared (fst (monster_transaction detailData)))"
proof -
  define idx where "idx = field detailData ''index''"
  define S where "S k = [(''monster_condition_immunities'', ''monster_index'', k),
               (''monster_proficiencies'', ''monster_index'', k)]" for k :: sqlval
  have c1: "awaits (child_insert (S k)) (insert_monster_proficiency idx x)"
    if "escape False idx = Some k" "k \<noteq> SqlNull" for x k
    using that by (auto simp: S_def insert_monster_proficiency_def table_facts
                     intro!: insert_set_child simp del: prepare.simps)
  have c2: "awaits (child_insert (S k)) (insert_condition_immunities idx x y)"
    if "escape False idx = Some k" "k \<noteq> SqlNull" for x y k
    using that by (auto simp: S_def intro!: insert_condition_immunities_child)
  show ?thesis
    unfolding  monster_transaction_def monsterQuery_def prod.case idx_def[symmetric]
    apply (rule parent_first[where idx = idx])
        prefer 5
        apply (rule delete_then, assumption, assumption, simp add: table_facts)+
        apply (rule awaits_guarded)
        apply (fold S_def)
        apply (auto intro!: awaits_bindA awaits_forA c1 c2 split: js.splits)[1]
       apply (auto simp: monsterRecord_def bindE_Inr_iff read_Inr_iff idx_def table_facts)
    done
qed

lemma proficiency_transaction_guarded: "guarded [] (prepared (fst (proficiency_transaction detailData)))"
proof -
  define idx where "idx = field detailData ''index''"
  define S where "S k = [(''proficiency_races'', ''proficiency_index'', k),
               (''proficiency_classes'', ''proficiency_index'', k)]" for k :: sqlval
  have c1: "awaits (child_insert (S k)) (insert_links ''proficiency_classes'' [''proficiency_index'', ''class_index''] idx x)"
    if "escape False idx = Some k" "k \<noteq> SqlNull" for x k
    using that by (auto simp: S_def table_facts intro!: insert_links_child)
  have c2: "awaits (child_insert (S k)) (insert_links ''proficiency_races'' [''proficiency_index'', ''race_index''] idx x)"
    if "escape False idx = Some k" "k \<noteq> SqlNull" for x k
    using that by (auto simp: S_def table_facts intro!: insert_links_child)
  show ?thesis
    unfolding  proficiency_transaction_def profQuery_def prod.case idx_def[symmetric]
    apply (rule parent_first[where idx = idx])
        prefer 5
        apply (rule delete_then, assumption, assumption, simp add: table_facts)+
        apply (rule awaits_guarded)
        apply (fold S_def)
        apply (auto intro!: awaits_bindA awaits_forA c1 c2 split: js.splits)[1]
       apply (auto simp: profRecord_def bindE_Inr_iff read_Inr_iff idx_def table_facts)
    done
qed

lemma race_transaction_guarded: "guarded [] (prepared (fst (race_transaction detailData)))"
proof -
  define idx where "idx = field detailData ''index''"
  define S where "S k = [(''race_traits'', ''race_index'', k),
               (''race_languages'', ''race_index'', k),
               (''race_proficiencies'', ''race_index'', k)]" for k :: sqlval
  have c1: "awaits (child_insert (S k)) (insert_links ''race_proficiencies'' [''race_index'', ''proficiency_index''] idx x)"
    if "escape False idx = Some k" "k \<noteq> SqlNull" for x k
    using that by (auto simp: S_def table_facts intro!: insert_links_child)
  have c2: "awaits (child_insert (S k)) (insert_links ''race_languages'' [''race_index'', ''language_index''] idx x)"
    if "escape False idx = Some k" "k \<noteq> SqlNull" for x k
    using that by (auto simp: S_def table_facts intro!: insert_links_child)
  have c3: "awaits (child_insert (S k)) (insert_links ''race_traits'' [''race_index'', ''trait_index''] idx x)"
    if "escape False idx = Some k" "k \<noteq> SqlNull" for x k
    using that by (auto simp: S_def table_facts intro!: insert_links_child)
  show ?thesis
    unfolding  race_transaction_def raceQuery_def prod.case idx_def[symmetric]
    apply (rule parent_first[where idx = idx])
        prefer 5
        apply (rule delete_then, assumption, assumption, simp add: table_facts)+
        apply (rule awaits_guarded)
        apply (fold S_def)
        apply (auto intro!: awaits_bindA awaits_forA c1 c2 c3 split: js.splits)[1]
       apply (auto simp: raceRecord_def bindE_Inr_iff read_Inr_iff idx_def table_facts)
    done
qed

lemma spell_transaction_guarded: "guarded [] (prepared (fst (spell_transaction detailData)))"
proof -
  define idx where "idx = field detailData ''index''"
  define S where "S k = [(''spell_subclasses'', ''spell_index'', k),
               (''spell_classes'', ''spell_index'', k)]" for k :: sqlval
  have c1: "awaits (child_insert (S k)) (insert_links ''spell_classes'' [''spell_index'', ''class_index''] idx x)"
    if "escape False idx = Some k" "k \<noteq> SqlNull" for x k
    using that by (auto simp: S_def table_facts intro!: insert_links_child)
  have c2: "awaits (child_insert (S k)) (insert_links ''spell_subclasses'' [''spell_index'', ''subclass_index''] idx x)"
    if "escape False idx = Some k" "k \<noteq> SqlNull" for x k
    using that by (auto simp: S_def table_facts intro!: insert_links_child)
  show ?thesis
    unfolding  spell_transaction_def spellQuery_def prod.case idx_def[symmetric]
    apply (rule parent_first[where idx = idx])
        prefer 5
        apply (rule delete_then, assumption, assumption, simp add: table_facts)+
        apply (rule awaits_guarded)
        apply (fold S_def)
        apply (auto intro!: awaits_bindA awaits_forA c1 c2 split: js.splits)[1]
       apply (auto simp: spellRecord_def bindE_Inr_iff read_Inr_iff idx_def table_facts)
    done
qed

lemma subclass_transaction_guarded: "guarded [] (prepared (fst (subclass_transaction fetched)))"
proof -
  obtain detailData levelsData where f: "fetched = (detailData, levelsData)"
    by (cases fetched)
  define idx where "idx = field detailData ''index''"
  define S where "S k = [(''subclass_spells'', ''subclass_index'', k),
               (''subclass_levels'', ''subclass_index'', k)]" for k :: sqlval
  have c1: "awaits (child_insert (S k)) (insert_subclass_level idx x)"
    if "escape False idx = Some k" "k \<noteq> SqlNull" for x k
    using that by (auto simp: S_def insert_subclass_level_def subclass_levelRecord_def
                       bindE_Inr_iff table_facts
                     intro!: insert_set_child simp del: prepare.simps)
  have c2: "awaits (child_insert (S k)) (insert_subclass_spells idx x y)"
    if "escape False idx = Some k" "k \<noteq> SqlNull" for x y k
    using that by (auto simp: S_def intro!: insert_subclass_spells_child)
  show ?thesis
    unfolding f subclass_transaction_def subQuery_def prod.case idx_def[symmetric]
    apply (rule parent_first[where idx = idx])
        prefer 5
        apply (rule delete_then, assumption, assumption, simp add: table_facts)+
        apply (rule awaits_guarded)
        apply (fold S_def)
        apply (auto intro!: awaits_bindA awaits_forA c1 c2 split: js.splits)[1]
       apply (auto simp: subRecord_def bindE_Inr_iff read_Inr_iff idx_def table_facts)
    done
qed

lemma trait_transaction_guarded: "guarded [] (prepared (fst (trait_transaction detailData)))"
proof -
  define idx where "idx = field detailData ''index''"
  define S where "S k = [(''trait_proficiencies'', ''trait_index'', k),
               (''trait_subraces'', ''trait_index'', k),
               (''trait_races'', ''trait_index'', k)]" for k :: sqlval
  have c1: "awaits (child_insert (S k)) (insert_links ''trait_races'' [''trait_index'', ''race_index''] idx x)"
    if "escape False idx = Some k" "k \<noteq> SqlNull" for x k
    using that by (auto simp: S_def table_facts intro!: insert_links_child)
  have c2: "awaits (child_insert (S k)) (insert_links ''trait_subraces'' [''trait_index'', ''subrace_index''] idx x)"
    if "escape False idx = Some k" "k \<noteq> SqlNull" for x k
    using that by (auto simp: S_def table_facts intro!: insert_links_child)
  have c3: "awaits (child_insert (S k)) (insert_links ''trait_proficiencies'' [''trait_index'', ''proficiency_index''] idx x)"
    if "escape False idx = Some k" "k \<noteq> SqlNull" for x k
    using that by (auto simp: S_def table_facts intro!: insert_links_child)
  show ?thesis
    unfolding  trait_transaction_def traitQuery_def prod.case idx_def[symmetric]
    apply (rule parent_first[where idx = idx])
        prefer 5
        apply (rule delete_then, assumption, assumption, simp add: table_facts)+
        apply (rule awaits_guarded)
        apply (fold S_def)
        apply (auto intro!: awaits_bindA awaits_forA c1 c2 c3 split: js.splits)[1]
       apply (auto simp: traitRecord_def bindE_Inr_iff read_Inr_iff idx_def table_facts)
    done
qed

lemma replayable_twice:
  assumes "replayable S"
  shows "store (snd (S (snd (S w)))) = store (snd (S w))"
proof -
  from assms obtain ops where g: "guarded [] ops"
    and r: "\<And>w. run_operations ops (store w) = Inr (store (snd (S w)))"
    by (auto simp: replayable_def)
  from rerun_unchanged[OF g r[of w]] r[of "snd (S w)"] show ?thesis by simp
qed

lemma replayable_unchanged:
  assumes "\<And>w. store (snd (S w)) = store w"
  shows "replayable S"
  unfolding replayable_def by (rule exI[of _ "[]"]) (simp add: assms)

lemma commits_anywhere:
  assumes "guarded [] (prepared (fst body))" and "run body d = Inr d'"
  shows "\<exists>d2'. run body d2 = Inr d2'"
proof -
  from assms(2) have r: "run_operations (prepared (fst body)) d = Inr d'"
    and u: "\<exists>u. snd body = Inr u"
    by (auto simp: run_Inr_iff run_queries_prepared)
  from same_outcome[OF assms(1)] r
  obtain d2' where "run_operations (prepared (fst body)) d2 = Inr d2'" by blast
  with u show ?thesis by (auto simp: run_Inr_iff run_queries_prepared)
qed

lemma sync_items_replayable:
  assumes f: "reads_only fetch_item"
    and b: "\<And>x. guarded [] (prepared (fst (body x)))"
  shows "replayable (sync_items fetch_item body items)"
proof (induction items)
  case Nil
  show ?case by (rule replayable_unchanged) simp
next
  case (Cons item items)
  define w0 where "w0 = \<lparr>store = (\<lambda>t. []), requests = []\<rparr>"
  from f have st: "\<And>w. store (snd (fetch_item item w)) = store w"
    and rs: "\<And>w. fst (fetch_item item w) = fst (fetch_item item w0)"
    by (auto simp: reads_only_def)
  show ?case
  proof (cases "fst (fetch_item item w0)")
    case (Inl e)
    show ?thesis
    proof (rule replayable_unchanged)
      fix w
      obtain r w1 where p: "fetch_item item w = (r, w1)" by (cases "fetch_item item w")
      with rs[of w] Inl st[of w] show "store (snd (sync_items fetch_item body (item # items) w)) = store w"
        by simp
    qed
  next
    case (Inr fetched)
    show ?thesis
    proof (cases "run (body fetched) (\<lambda>t. [])")
      case (Inl e)
      show ?thesis
      proof (rule replayable_unchanged)
        fix w
        obtain r w1 where p: "fetch_item item w = (r, w1)" by (cases "fetch_item item w")
        with rs[of w] Inr st[of w] have r: "r = Inr fetched" and s: "store w1 = store w" by auto
        have "\<exists>e. run (body fetched) (store w1) = Inl e"
        proof (cases "run (body fetched) (store w1)")
          case (Inr d')
          from commits_anywhere[OF b Inr, of "\<lambda>t. []"] Inl show ?thesis by simp
        qed simp
        then show "store (snd (sync_items fetch_item body (item # items) w)) = store w"
          by (auto simp: p r s transaction_def)
      qed
    next
      case committed: (Inr d0)
      from Cons.IH obtain ops where g: "guarded [] ops"
        and r: "\<And>w. run_operations ops (store w)
                   = Inr (store (snd (sync_items fetch_item body items w)))"
        by (auto simp: replayable_def)
      show ?thesis
        unfolding replayable_def
      proof (intro exI[of _ "prepared (fst (body fetched)) @ ops"] conjI allI)
        show "guarded [] (prepared (fst (body fetched)) @ ops)"
          using b g by (rule guarded_append)
      next
        fix w
        obtain x w1 where p: "fetch_item item w = (x, w1)" by (cases "fetch_item item w")
        with rs[of w] Inr st[of w] have x: "x = Inr fetched" and s: "store w1 = store w" by auto
        from commits_anywhere[OF b committed, of "store w1"]
        obtain d' where d': "run (body fetched) (store w1) = Inr d'" by auto
        then have q: "run_operations (prepared (fst (body fetched))) (store w) = Inr d'"
          by (simp add: run_Inr_iff run_queries_prepared s)
        have "snd (sync_items fetch_item body (item # items) w)
              = snd (sync_items fetch_item body items (w1\<lparr>store := d'\<rparr>))"
          by (simp add: p x transaction_def d')
        with r[of "w1\<lparr>store := d'\<rparr>"] q
        show "run_operations (prepared (fst (body fetched)) @ ops) (store w)
              = Inr (store (snd (sync_items fetch_item body (item # items) w)))"
          by (simp add: run_operations_append)
      qed
    qed
  qed
qed

lemma sync_enriched_replayable:
  assumes "reads_only fetch_item"
    and "\<And>x. guarded [] (prepared (fst (body x)))"
  shows "replayable (sync_enriched api resource label fetch_item body)"
proof -
  define url where "url = ''https://www.dnd5eapi.co/api/'' @ resource"
  show ?thesis
  proof (cases "bindE (api url) (\<lambda>listData. bindE (read listData ''results'') for_of)")
    case (Inl e)
    show ?thesis
    proof (rule replayable_unchanged)
      fix w
      from Inl show "store (snd (sync_enriched api resource label fetch_item body w)) = store w"
        by (cases "api url")
           (auto simp: sync_enriched_def fetch_json_def url_def split: sum.splits)
    qed
  next
    case (Inr endpoints)
    from sync_items_replayable[where items = endpoints and body = body, OF assms]
    obtain ops where g: "guarded [] ops"
      and r: "\<And>w. run_operations ops (store w)
                 = Inr (store (snd (sync_items fetch_item body endpoints w)))"
      by (auto simp: replayable_def)
    show ?thesis
      unfolding replayable_def
    proof (intro exI[of _ ops] conjI allI g)
      fix w
      from Inr r[of "w\<lparr>requests := requests w @ [url]\<rparr>"]
      show "run_operations ops (store w)
            = Inr (store (snd (sync_enriched api resource label fetch_item body w)))"
        by (cases "api url")
           (auto simp: sync_enriched_def fetch_json_def url_def split: sum.splits prod.splits option.splits)
    qed
  qed
qed

lemma fetch_detail_reads_only: "reads_only (fetch_detail api)"
  by (auto simp: reads_only_def fetch_detail_def fetch_json_def split: sum.splits)

lemma fetch_class_reads_only: "reads_only (fetch_class api)"
  by (auto simp: reads_only_def fetch_class_def fetch_detail_def fetch_json_def
           split: sum.splits prod.splits)

lemma fetch_subclass_reads_only: "reads_only (fetch_subclass api)"
  by (auto simp: reads_only_def fetch_subclass_def fetch_detail_def fetch_json_def
           split: sum.splits prod.splits)

lemma syncResource_loop_replayable:
  assumes "upserts recordBuilder"
  shows "replayable (syncResource_loop api resourceName recordBuilder items queryPromises)"
proof (induction items arbitrary: queryPromises)
  case Nil
  show ?case by (rule replayable_unchanged) simp
next
  case (Cons item items)
  let ?loop = "syncResource_loop api resourceName recordBuilder"
  define url where "url = ''https://www.dnd5eapi.co'' @ ToString (field item ''url'')"
  define built where "built = bindE (read item ''url'')
     (\<lambda>u. bindE (api url) recordBuilder)"
  show ?case
  proof (cases "Promise_all queryPromises")
    case rejected: (Inl rejection)
    show ?thesis
    proof (rule replayable_unchanged)
      fix w :: world
      from rejected show "store (snd (?loop (item # items) queryPromises w)) = store w"
        by (cases "read item ''url''") (simp_all add: fetch_json_def)
    qed
  next
    case handled: (Inr none)
    show ?thesis
    proof (cases built)
      case (Inl e)
      show ?thesis
      proof (rule replayable_unchanged)
        fix w :: world
        from Inl handled show "store (snd (?loop (item # items) queryPromises w)) = store w"
          by (cases "read item ''url''"; cases "api url")
             (auto simp: built_def url_def fetch_json_def read_Inr_iff split: sum.splits)
      qed
    next
      case (Inr b)
      obtain newRecord sqlQuery where b: "b = (newRecord, sqlQuery)" by (cases b)
      from Inr obtain doc where u: "read item ''url'' = Inr (field item ''url'')"
        and doc: "api url = Inr doc" and rb: "recordBuilder doc = Inr (newRecord, sqlQuery)"
        by (auto simp: built_def b bindE_Inr_iff read_Inr_iff)
      from assms rb obtain t idx vs where t: "parent_table t" "''index'' \<in> set (not_null t)"
        and rec: "newRecord = (''index'', idx) # vs" and di: "distinct (''index'' # map fst vs)"
        and q: "sqlQuery = on_duplicate_key_update t (''index'' # map fst vs)"
        unfolding upserts_def by blast
      define w1 where "w1 w = w\<lparr>requests := requests w @ [url]\<rparr>" for w :: world
      have step0: "?loop (item # items) queryPromises w
          = (case perform (prepare sqlQuery (Object_values newRecord)) (store w) of
               Inl error \<Rightarrow>
                 ?loop items
                   (queryPromises @
                     [Inl (Error (''Failed on '' @ resourceName @ '' ''
                         @ ToString (field (JObj newRecord) ''name'') @ '': ''
                         @ error_message error))])
                   (w1 w)
             | Inr d \<Rightarrow> ?loop items (queryPromises @ [Inr ()]) ((w1 w)\<lparr>store := d\<rparr>))" for w
      proof -
        have s: "store (w1 w) = store w" by (simp add: w1_def)
        have "?loop (item # items) queryPromises w
          = (case query sqlQuery (Object_values newRecord) (store (w1 w)) of
               Inl error \<Rightarrow>
                 ?loop items
                   (queryPromises @
                     [Inl (Error (''Failed on '' @ resourceName @ '' ''
                         @ ToString (field (JObj newRecord) ''name'') @ '': ''
                         @ error_message error))])
                   (w1 w)
             | Inr d \<Rightarrow> ?loop items (queryPromises @ [Inr ()]) ((w1 w)\<lparr>store := d\<rparr>))"
          by (simp only: syncResource_loop.simps u sum.case fetch_json_def prod.case handled
                url_def[symmetric] doc rb w1_def[symmetric])
        then show ?thesis by (simp only: s query_def)
      qed
      from prepare_upsert[OF t di refl, of idx] show ?thesis
      proof
        assume "\<exists>e. prepare (on_duplicate_key_update t (''index'' # map fst vs))
                  (Object_values ((''index'', idx) # vs)) = Rejected e"
        then obtain e where e: "prepare sqlQuery (Object_values newRecord) = Rejected e"
          by (auto simp: q rec)
        define ps where "ps = queryPromises @
                            [Inl (Error (''Failed on '' @ resourceName @ '' ''
                                @ ToString (field (JObj newRecord) ''name'') @ '': ''
                                @ error_message e))]"
        have step: "?loop (item # items) queryPromises w = ?loop items ps (w1 w)" for w
          by (simp only: step0 e perform.simps sum.case ps_def)
        from Cons.IH[of ps] obtain ops where g: "guarded [] ops"
          and r: "\<And>w. run_operations ops (store w) = Inr (store (snd (?loop items ps w)))"
          by (auto simp: replayable_def)
        show ?thesis
          unfolding replayable_def
        proof (intro exI[of _ ops] conjI allI g)
          fix w :: world
          have sw: "store (w1 w) = store w" by (simp add: w1_def)
          from r[of "w1 w"]
          show "run_operations ops (store w)
                = Inr (store (snd (?loop (item # items) queryPromises w)))"
            unfolding step sw .
        qed
      next
        assume "\<exists>r k. prepare (on_duplicate_key_update t (''index'' # map fst vs))
                    (Object_values ((''index'', idx) # vs)) = Upsert t (map fst vs) r
                \<and> full_upsert t (map fst vs) r \<and> escape False idx = Some k \<and> k \<noteq> SqlNull"
        then obtain r where p: "prepare sqlQuery (Object_values newRecord) = Upsert t (map fst vs) r"
          and f: "full_upsert t (map fst vs) r"
          by (auto simp: q rec)
        define ps where "ps = queryPromises @ [Inr ()]"
        define d' where "d' d = d(t := upsert_rows (unique_key t) r (d t))" for d :: db
        have step: "?loop (item # items) queryPromises w
                    = ?loop items ps ((w1 w)\<lparr>store := d' (store w)\<rparr>)" for w
          by (simp only: step0 p perform_Upsert_full[OF f] sum.case ps_def d'_def)
        from Cons.IH[of ps] obtain ops where g: "guarded [] ops"
          and r: "\<And>w. run_operations ops (store w) = Inr (store (snd (?loop items ps w)))"
          by (auto simp: replayable_def)
        show ?thesis
          unfolding replayable_def
        proof (intro exI[of _ "Upsert t (map fst vs) r # ops"] conjI allI)
          show "guarded [] (Upsert t (map fst vs) r # ops)" using f g by simp
        next
          fix w :: world
          have "run_operations (Upsert t (map fst vs) r # ops) (store w)
                = run_operations ops (d' (store w))"
            unfolding run_operations.simps perform_Upsert_full[OF f] by (simp add: d'_def)
          also have "\<dots> = Inr (store (snd (?loop items ps ((w1 w)\<lparr>store := d' (store w)\<rparr>))))"
            using r[of "(w1 w)\<lparr>store := d' (store w)\<rparr>"] by simp
          finally show "run_operations (Upsert t (map fst vs) r # ops) (store w)
                = Inr (store (snd (?loop (item # items) queryPromises w)))"
            by (simp only: step)
        qed
      qed
    qed
  qed
qed

lemma syncResource_store:
  "store (snd (syncResource api resourceName tableName recordBuilder w))
   = (case bindE (api (''https://www.dnd5eapi.co/api/'' @ resourceName))
             (\<lambda>listData. bindE (read listData ''results'')
                (\<lambda>endpoints. bindE (read endpoints ''length'') (\<lambda>n. for_of endpoints))) of
        Inl e \<Rightarrow> store w
      | Inr endpoints \<Rightarrow>
          store (snd (syncResource_loop api resourceName recordBuilder endpoints []
                        (w\<lparr>requests := requests w
                              @ [''https://www.dnd5eapi.co/api/'' @ resourceName]\<rparr>))))"
  by (cases "api (''https://www.dnd5eapi.co/api/'' @ resourceName)")
     (auto simp: syncResource_def fetch_json_def split: sum.splits prod.splits loop_end.splits)

lemma syncResource_replayable:
  assumes "upserts recordBuilder"
  shows "replayable (syncResource api resourceName tableName recordBuilder)"
proof -
  define url where "url = ''https://www.dnd5eapi.co/api/'' @ resourceName"
  show ?thesis
  proof (cases "bindE (api url) (\<lambda>listData. bindE (read listData ''results'')
                 (\<lambda>endpoints. bindE (read endpoints ''length'') (\<lambda>n. for_of endpoints)))")
    case (Inl e)
    show ?thesis
    proof (rule replayable_unchanged)
      fix w :: world
      from Inl show "store (snd (syncResource api resourceName tableName recordBuilder w)) = store w"
        by (simp add: syncResource_store url_def)
    qed
  next
    case (Inr endpoints)
    from syncResource_loop_replayable[OF assms, of api resourceName endpoints "[]"]
    obtain ops where g: "guarded [] ops"
      and r: "\<And>w. run_operations ops (store w)
                 = Inr (store (snd (syncResource_loop api resourceName recordBuilder endpoints [] w)))"
      by (auto simp: replayable_def)
    show ?thesis
      unfolding replayable_def
    proof (intro exI[of _ ops] conjI allI g)
      fix w :: world
      from Inr r[of "w\<lparr>requests := requests w @ [url]\<rparr>"]
      show "run_operations ops (store w)
            = Inr (store (snd (syncResource api resourceName tableName recordBuilder w)))"
        by (simp add: syncResource_store url_def)
    qed
  qed
qed

lemma responds_replayable: "replayable sync \<Longrightarrow> replayable (responds sync)"
  by (simp add: replayable_def responds_def split_def)

lemma upsertsI:
  assumes "\<And>doc rec q. recordBuilder doc = Inr (rec, q) \<Longrightarrow>
             \<exists>idx vs. rec = (''index'', idx) # vs \<and> map fst vs = cs
                 \<and> q = on_duplicate_key_update t (''index'' # cs)"
    and "parent_table t" "''index'' \<in> set (not_null t)" "distinct (''index'' # cs)"
  shows "upserts recordBuilder"
  unfolding upserts_def using assms by blast

lemma ability_scores_upserts: "upserts ability_scores_recordBuilder"
  by (rule upsertsI[where t = "''ability_scores''"])
     (auto simp: ability_scores_recordBuilder_def bindE_Inr_iff table_facts split: if_splits)

lemma rules_upserts: "upserts rules_recordBuilder"
  by (rule upsertsI[where t = "''rules''"])
     (auto simp: rules_recordBuilder_def bindE_Inr_iff table_facts split: if_splits)

lemma rule_sections_upserts: "upserts rule_sections_recordBuilder"
  by (rule upsertsI[where t = "''rule_sections''"])
     (auto simp: rule_sections_recordBuilder_def bindE_Inr_iff table_facts split: if_splits)

lemma skills_upserts: "upserts skills_recordBuilder"
  by (rule upsertsI[where t = "''skills''"])
     (auto simp: skills_recordBuilder_def bindE_Inr_iff table_facts split: if_splits)

lemma subraces_upserts: "upserts subraces_recordBuilder"
  by (rule upsertsI[where t = "''subraces''"])
     (auto simp: subraces_recordBuilder_def bindE_Inr_iff table_facts split: if_splits)

lemma magic_schools_upserts: "upserts magic_schools_recordBuilder"
  by (rule upsertsI[where t = "''magic_schools''"])
     (auto simp: magic_schools_recordBuilder_def bindE_Inr_iff table_facts split: if_splits)

lemma languages_upserts: "upserts languages_recordBuilder"
  by (rule upsertsI[where t = "''languages''"])
     (auto simp: languages_recordBuilder_def bindE_Inr_iff table_facts split: if_splits)

lemma features_upserts: "upserts features_recordBuilder"
  by (rule upsertsI[where t = "''features''"])
     (auto simp: features_recordBuilder_def bindE_Inr_iff table_facts split: if_splits)

lemma equipment_categories_upserts: "upserts equipment_categories_recordBuilder"
  by (rule upsertsI[where t = "''equipment_categories''"])
     (auto simp: equipment_categories_recordBuilder_def bindE_Inr_iff table_facts split: if_splits)

lemma damage_types_upserts: "upserts damage_types_recordBuilder"
  by (rule upsertsI[where t = "''damage_types''"])
     (auto simp: damage_types_recordBuilder_def bindE_Inr_iff table_facts split: if_splits)

lemma conditions_upserts: "upserts conditions_recordBuilder"
  by (rule upsertsI[where t = "''conditions''"])
     (auto simp: conditions_recordBuilder_def bindE_Inr_iff table_facts split: if_splits)

lemma equipment_upserts: "upserts equipment_recordBuilder"
  by (rule upsertsI[where t = "''equipment''"])
     (auto simp: equipment_recordBuilder_def bindE_Inr_iff table_facts split: if_splits)

lemma magic_items_upserts: "upserts magic_items_recordBuilder"
  by (rule upsertsI[where t = "''magic_items''"])
     (auto simp: magic_items_recordBuilder_def bindE_Inr_iff table_facts split: if_splits)

lemma alignments_upserts: "upserts alignments_recordBuilder"
  by (rule upsertsI[where t = "''alignments''"])
     (auto simp: alignments_recordBuilder_def bindE_Inr_iff table_facts split: if_splits)

lemma backgrounds_upserts: "upserts backgrounds_recordBuilder"
  by (rule upsertsI[where t = "''backgrounds''"])
     (auto simp: backgrounds_recordBuilder_def bindE_Inr_iff table_facts split: if_splits)

lemma feats_upserts: "upserts feats_recordBuilder"
  by (rule upsertsI[where t = "''feats''"])
     (auto simp: feats_recordBuilder_def bindE_Inr_iff table_facts split: if_splits)

lemma weapon_properties_upserts: "upserts weapon_properties_recordBuilder"
  by (rule upsertsI[where t = "''weapon_properties''"])
     (auto simp: weapon_properties_recordBuilder_def bindE_Inr_iff table_facts split: if_splits)

lemma classRecord_upserts: "upserts (with_query classRecord classQuery)"
  by (rule upsertsI[where t = "''classes''"])
     (auto simp: with_query_def classRecord_def classQuery_def bindE_Inr_iff table_facts split: if_splits)

lemma monsterRecord_upserts: "upserts (with_query monsterRecord monsterQuery)"
  by (rule upsertsI[where t = "''monsters''"])
     (auto simp: with_query_def monsterRecord_def monsterQuery_def bindE_Inr_iff table_facts split: if_splits)

lemma profRecord_upserts: "upserts (with_query profRecord profQuery)"
  by (rule upsertsI[where t = "''proficiencies''"])
     (auto simp: with_query_def profRecord_def profQuery_def bindE_Inr_iff table_facts split: if_splits)

lemma raceRecord_upserts: "upserts (with_query raceRecord raceQuery)"
  by (rule upsertsI[where t = "''races''"])
     (auto simp: with_query_def raceRecord_def raceQuery_def bindE_Inr_iff table_facts split: if_splits)

lemma spellRecord_upserts: "upserts (with_query spellRecord spellQuery)"
  by (rule upsertsI[where t = "''spells''"])
     (auto simp: with_query_def spellRecord_def spellQuery_def bindE_Inr_iff table_facts split: if_splits)

lemma subRecord_upserts: "upserts (with_query subRecord subQuery)"
  by (rule upsertsI[where t = "''subclasses''"])
     (auto simp: with_query_def subRecord_def subQuery_def bindE_Inr_iff table_facts split: if_splits)

lemma traitRecord_upserts: "upserts (with_query traitRecord traitQuery)"
  by (rule upsertsI[where t = "''traits''"])
     (auto simp: with_query_def traitRecord_def traitQuery_def bindE_Inr_iff table_facts split: if_splits)

lemma routes_replayable: "\<forall>(route, sync) \<in> set (routes api). replayable sync"
  unfolding routes_def syncClasses_def syncMonsters_def syncProficiencies_def syncRaces_def
    syncSpells_def syncSubclasses_def syncTraits_def list.set ball_simps prod.case
    Un_iff ball_Un empty_iff
  by (intro conjI ballI TrueI syncResource_replayable responds_replayable
        sync_enriched_replayable fetch_detail_reads_only fetch_class_reads_only fetch_subclass_reads_only
        class_transaction_guarded monster_transaction_guarded proficiency_transaction_guarded
        race_transaction_guarded spell_transaction_guarded subclass_transaction_guarded
        trait_transaction_guarded
        ability_scores_upserts rules_upserts rule_sections_upserts skills_upserts
        subraces_upserts magic_schools_upserts languages_upserts features_upserts
        equipment_categories_upserts damage_types_upserts conditions_upserts equipment_upserts
        magic_items_upserts alignments_upserts backgrounds_upserts feats_upserts
        weapon_properties_upserts)

lemma recordBuilders_upserts: "\<forall>b \<in> set recordBuilders. upserts b"
  unfolding recordBuilders_def list.set ball_simps
  by (intro conjI TrueI classRecord_upserts monsterRecord_upserts profRecord_upserts
        raceRecord_upserts spellRecord_upserts subRecord_upserts traitRecord_upserts
        ability_scores_upserts rules_upserts rule_sections_upserts skills_upserts
        subraces_upserts magic_schools_upserts languages_upserts features_upserts
        equipment_categories_upserts damage_types_upserts conditions_upserts equipment_upserts
        magic_items_upserts alignments_upserts backgrounds_upserts feats_upserts
        weapon_properties_upserts)

lemma update_first_replaces:
  assumes "\<And>x. p x \<longleftrightarrow> q x" "q r" "filter q rows = [old]"
  shows "filter q (update_first p (\<lambda>old. r) rows) = [r]
         \<and> length (update_first p (\<lambda>old. r) rows) = length rows"
  using assms(3)
proof (induction rows)
  case Nil
  then show ?case by simp
next
  case (Cons x rows)
  show ?case
  proof (cases "q x")
    case True
    with Cons.prems have "filter q rows = []" by simp
    with True assms(1,2) show ?thesis by simp
  next
    case False
    with Cons assms(1) show ?thesis by simp
  qed
qed

lemma upsert_replaces:
  assumes f: "full_upsert t upd r"
    and one: "filter (\<lambda>x. cell x ''index'' = cell r ''index'') (d t) = [old]"
    and p: "perform (Upsert t upd r) d = Inr d'"
  shows "filter (\<lambda>x. cell x ''index'' = cell r ''index'') (d' t) = [r]
         \<and> length (d' t) = length (d t)"
proof -
  from f have uk: "unique_key t = [''index'']" and k: "cell r ''index'' \<noteq> SqlNull"
    by (auto simp: full_upsert_def parent_table_def keyed_def)
  have c: "conflicts (unique_key t) x r \<longleftrightarrow> cell x ''index'' = cell r ''index''" for x
    using k by (simp add: uk conflicts_def)
  from one have "old \<in> set (filter (\<lambda>x. cell x ''index'' = cell r ''index'') (d t))" by simp
  then have ex: "list_ex (\<lambda>x. conflicts (unique_key t) x r) (d t)"
    by (auto simp: list_ex_iff c)
  from p have d': "d' = d(t := upsert_rows (unique_key t) r (d t))"
    by (simp only: perform_Upsert_full[OF f]) simp
  show ?thesis
    unfolding d' using ex update_first_replaces[OF c refl one]
    by (simp add: upsert_rows_def)
qed

section \<open>Loops that skip and loops that do not\<close>

lemma skip_seen_subset: "set (skip_seen key seen xs) \<subseteq> set xs"
  by (induction xs arbitrary: seen) auto

lemma skip_seen_keys:
  "key ` set (skip_seen key seen xs) = key ` set xs - set seen"
  by (induction xs arbitrary: seen) auto

lemma skip_seen_distinct: "distinct (map key (skip_seen key seen xs))"
proof (induction xs arbitrary: seen)
  case Nil
  show ?case by simp
next
  case (Cons x xs)
  have "key x \<notin> key ` set (skip_seen key (seen @ [key x]) xs)"
    by (simp add: skip_seen_keys)
  with Cons show ?case by simp
qed

lemma skip_seen_first:
  "x \<in> set (skip_seen key seen xs) \<Longrightarrow> find (\<lambda>y. key y = key x) xs = Some x"
proof (induction xs arbitrary: seen)
  case Nil
  then show ?case by simp
next
  case (Cons a xs)
  show ?case
  proof (cases "key a \<in> set seen")
    case True
    with Cons.prems have m: "x \<in> set (skip_seen key seen xs)" by simp
    then have "key x \<in> key ` set xs - set seen" by (metis imageI skip_seen_keys)
    with True have "key a \<noteq> key x" by auto
    with Cons.IH[OF m] show ?thesis by simp
  next
    case False
    show ?thesis
    proof (cases "x = a")
      case True
      then show ?thesis by simp
    next
      case ne: False
      with False Cons.prems have m: "x \<in> set (skip_seen key (seen @ [key a]) xs)" by simp
      then have "key x \<in> key ` set xs - set (seen @ [key a])" by (metis imageI skip_seen_keys)
      then have "key a \<noteq> key x" by auto
      with Cons.IH[OF m] show ?thesis by simp
    qed
  qed
qed

lemma first_seen_properties:
  "distinct (map key (first_seen key xs)) \<and> set (first_seen key xs) \<subseteq> set xs
   \<and> key ` set (first_seen key xs) = key ` set xs
   \<and> (\<forall>x \<in> set (first_seen key xs). find (\<lambda>y. key y = key x) xs = Some x)"
  unfolding first_seen_def
  using skip_seen_distinct[of key "[]" xs] skip_seen_subset[of key "[]" xs]
    skip_seen_keys[of key "[]" xs] skip_seen_first[of _ key "[]" xs]
  by auto

lemma run_inserts:
  assumes uk: "unique_key t = [a, b]" "a \<noteq> b"
    and rs: "\<forall>r \<in> set rs. cell r a = k \<and> cell r b \<noteq> SqlNull"
    and k: "k \<noteq> SqlNull"
    and di: "distinct (map (\<lambda>r. cell r b) rs)"
    and old: "\<forall>old \<in> set (d t). cell old a = k \<longrightarrow> cell old b \<notin> (\<lambda>r. cell r b) ` set rs"
  shows "run_operations (map (Insert t) rs) d = Inr (d(t := d t @ rs))"
  using rs di old
proof (induction rs arbitrary: d)
  case Nil
  show ?case by simp
next
  case (Cons r rs)
  have nc: "\<not> list_ex (\<lambda>old. conflicts (unique_key t) old r) (d t)"
    using Cons.prems(1,3) by (auto simp: list_ex_iff conflicts_def uk)
  let ?d = "d(t := d t @ [r])"
  have ih: "run_operations (map (Insert t) rs) ?d = Inr (?d(t := ?d t @ rs))"
  proof (rule Cons.IH)
    show "\<forall>r \<in> set rs. cell r a = k \<and> cell r b \<noteq> SqlNull" using Cons.prems(1) by simp
    show "distinct (map (\<lambda>r. cell r b) rs)" using Cons.prems(2) by simp
    show "\<forall>old \<in> set (?d t). cell old a = k \<longrightarrow> cell old b \<notin> (\<lambda>r. cell r b) ` set rs"
      using Cons.prems(2,3) by auto
  qed
  have step: "run_operations (map (Insert t) (r # rs)) d = run_operations (map (Insert t) rs) ?d"
    using nc by simp
  have e: "?d(t := ?d t @ rs) = d(t := d t @ r # rs)" by simp
  show ?case unfolding step ih e ..
qed

lemma delete_then_inserts:
  assumes "unique_key t = [a, b]" "a \<noteq> b"
    and "\<forall>r \<in> set rs. cell r a = k \<and> cell r b \<noteq> SqlNull"
    and "k \<noteq> SqlNull"
    and "distinct (map (\<lambda>r. cell r b) rs)"
  shows "run_operations (Delete t a k # map (Insert t) rs) d
         = Inr (d(t := filter (\<lambda>r. cell r a \<noteq> k) (d t) @ rs))"
proof -
  let ?d = "d(t := filter (\<lambda>r. cell r a \<noteq> k) (d t))"
  have r: "run_operations (map (Insert t) rs) ?d = Inr (?d(t := ?d t @ rs))"
    using assms by (intro run_inserts) auto
  have step: "run_operations (Delete t a k # map (Insert t) rs) d
              = run_operations (map (Insert t) rs) ?d"
    using assms(4) by simp
  have e: "?d(t := ?d t @ rs) = d(t := filter (\<lambda>r. cell r a \<noteq> k) (d t) @ rs)" by simp
  show ?thesis unfolding step r e ..
qed

lemma Set_has_string: "is_string v \<Longrightarrow> Set_has processed v = (v \<in> set processed)"
  by (cases v) (simp_all add: Set_has_def)

lemma escape_string: "is_string v \<Longrightarrow> escape flag v = Some (SqlStr (ToString v))"
  by (cases v) simp_all

lemma escape_string_inj:
  "is_string v \<Longrightarrow> is_string v' \<Longrightarrow> the (escape flag v) = the (escape flag v') \<Longrightarrow> v = v'"
  by (cases v; cases v') simp_all

lemma insert_condition_immunities_script:
  assumes "\<forall>c \<in> set conds. \<not> nullish c \<and> is_string (field c ''index'')"
  shows "insert_condition_immunities idx conds processed
         = (map (\<lambda>c. (InsertValues ''monster_condition_immunities''
                          [''monster_index'', ''condition_index''],
                        JArr [idx, field c ''index'']))
                (skip_seen (\<lambda>c. field c ''index'') processed conds),
            Inr ())"
  using assms
proof (induction conds arbitrary: processed)
  case Nil
  show ?case by simp
next
  case (Cons cond conds)
  then have c: "\<not> nullish cond" "is_string (field cond ''index'')" by auto
  from Cons have ih: "\<And>processed. insert_condition_immunities idx conds processed
         = (map (\<lambda>c. (InsertValues ''monster_condition_immunities''
                          [''monster_index'', ''condition_index''],
                        JArr [idx, field c ''index'']))
                (skip_seen (\<lambda>c. field c ''index'') processed conds),
            Inr ())" by simp
  show ?case
    by (simp add: c Set_has_string ih)
qed

lemma insert_subclass_spells_script:
  assumes "\<forall>spell \<in> set spells. \<not> nullish spell \<and> \<not> nullish (field spell ''spell'')
              \<and> is_string (spell_index spell) \<and> (\<exists>p. prerequisites spell = Inr p)"
  shows "insert_subclass_spells idx spells processed
         = (map (\<lambda>spell. (InsertSet ''subclass_spells'',
                        JObj [(''subclass_index'', idx), (''spell_index'', spell_index spell),
                              (''prerequisites'',
                                 JSON_stringify (case prerequisites spell of
                                                   Inr p \<Rightarrow> p | Inl e \<Rightarrow> JUndefined))]))
                (skip_seen spell_index processed spells),
            Inr ())"
  using assms
proof (induction spells arbitrary: processed)
  case Nil
  show ?case by simp
next
  case (Cons spell spells)
  then obtain p where c: "\<not> nullish spell" "\<not> nullish (field spell ''spell'')"
    "is_string (spell_index spell)" "prerequisites spell = Inr p" by auto
  from Cons have ih: "\<And>processed. insert_subclass_spells idx spells processed
         = (map (\<lambda>spell. (InsertSet ''subclass_spells'',
                        JObj [(''subclass_index'', idx), (''spell_index'', spell_index spell),
                              (''prerequisites'',
                                 JSON_stringify (case prerequisites spell of
                                                   Inr p \<Rightarrow> p | Inl e \<Rightarrow> JUndefined))]))
                (skip_seen spell_index processed spells),
            Inr ())" by simp
  from c have i: "is_string (field (field spell ''spell'') ''index'')"
    and q: "map_method (field spell ''prerequisites'') (\<lambda>p. read p ''index'') = Inr p"
    by (simp_all add: spell_index_def prerequisites_def)
  show ?case
    using c(1,2) i q
    by (simp add: Set_has_string ih spell_index_def[symmetric] prerequisites_def[symmetric] c(4))
qed

lemma prepare_condition_immunity:
  assumes "is_string (field cond ''index'')"
  shows "prepare (InsertValues ''monster_condition_immunities''
                          [''monster_index'', ''condition_index''])
                 (JArr [JStr m, field cond ''index''])
         = Insert ''monster_condition_immunities'' (condition_immunity_row m cond)"
  using assms
  by (simp add: checked_def bind_values_def escape_string null_violation_def not_null_def
        schema_lookup link_schema_def cell_def condition_immunity_row_def)

lemma prepare_subclass_spell:
  assumes "is_string (spell_index spell)"
  shows "prepare (InsertSet ''subclass_spells'')
           (JObj [(''subclass_index'', JStr m), (''spell_index'', spell_index spell),
                  (''prerequisites'', JSON_stringify v)])
         = Insert ''subclass_spells''
             [(''subclass_index'', SqlStr m),
              (''spell_index'', the (escape True (spell_index spell))),
              (''prerequisites'', the (escape True (JSON_stringify v)))]"
  using assms
  by (simp add: checked_def bind_values_def escape_string null_violation_def not_null_def
        schema_lookup cell_def JSON_stringify_def)

lemma run_delete_then:
  "run (bindA (delete_where t a (JStr m)) (\<lambda>u. (qs, Inr ()))) d
   = (if map_of schema t = None then Inl (no_such_table t)
      else run_operations (Delete t a (SqlStr m) # prepared qs) d)"
proof -
  have i: "bindE x Inr = x" for x :: "js_error + db" by (cases x) simp_all
  have "run (bindA (delete_where t a (JStr m)) (\<lambda>u. (qs, Inr ()))) d
        = bindE (query (DeleteWhere t a) (JArr [JStr m]) d) (run_queries qs)"
    by (simp add: run_def) (cases "query (DeleteWhere t a) (JArr [JStr m]) d"; simp add: i)
  then show ?thesis
    by (cases "map_of schema t") (simp_all add: query_def run_queries_prepared)
qed

lemma condition_immunities_replaced:
  assumes "\<forall>c \<in> set conds. \<not> nullish c \<and> is_string (field c ''index'')"
  shows "run (bindA (delete_where ''monster_condition_immunities'' ''monster_index'' (JStr m))
               (\<lambda>u. insert_condition_immunities (JStr m) conds [])) d
         = Inr (d(''monster_condition_immunities'' :=
                  filter (\<lambda>r. cell r ''monster_index'' \<noteq> SqlStr m)
                         (d ''monster_condition_immunities'')
                  @ map (condition_immunity_row m) (first_seen (\<lambda>c. field c ''index'') conds)))"
proof -
  let ?fs = "first_seen (\<lambda>c. field c ''index'') conds"
  have sub: "set ?fs \<subseteq> set conds" and di: "distinct (map (\<lambda>c. field c ''index'') ?fs)"
    using first_seen_properties[of "\<lambda>c. field c ''index''" conds] by auto
  with assms have str: "\<forall>c \<in> set ?fs. is_string (field c ''index'')" by auto
  have p: "prepared (map (\<lambda>c. (InsertValues ''monster_condition_immunities''
                          [''monster_index'', ''condition_index''],
                        JArr [JStr m, field c ''index''])) ?fs)
           = map (Insert ''monster_condition_immunities'') (map (condition_immunity_row m) ?fs)"
    using str by (simp add: prepared_def prepare_condition_immunity del: prepare.simps)
  have inj: "inj_on (\<lambda>v. the (escape False v)) ((\<lambda>c. field c ''index'') ` set ?fs)"
  proof (rule inj_onI)
    fix x y
    assume "x \<in> (\<lambda>c. field c ''index'') ` set ?fs" "y \<in> (\<lambda>c. field c ''index'') ` set ?fs"
      and e: "the (escape False x) = the (escape False y)"
    with str have "is_string x" "is_string y" by auto
    then show "x = y" using e by (rule escape_string_inj)
  qed
  have d2: "distinct (map (\<lambda>r. cell r ''condition_index'') (map (condition_immunity_row m) ?fs))"
  proof -
    have e: "map (\<lambda>r. cell r ''condition_index'') (map (condition_immunity_row m) ?fs)
          = map (\<lambda>v. the (escape False v)) (map (\<lambda>c. field c ''index'') ?fs)"
      by (simp add: condition_immunity_row_def cell_def)
    have "distinct (map (\<lambda>v. the (escape False v)) (map (\<lambda>c. field c ''index'') ?fs))"
      using di inj by (subst distinct_map) simp
    then show ?thesis unfolding e .
  qed
  have rows: "\<forall>r \<in> set (map (condition_immunity_row m) ?fs).
                cell r ''monster_index'' = SqlStr m \<and> cell r ''condition_index'' \<noteq> SqlNull"
    using str by (auto simp: condition_immunity_row_def cell_def escape_string)
  have uk: "unique_key ''monster_condition_immunities'' = [''monster_index'', ''condition_index'']"
    by (simp add: unique_key_def schema_lookup)
  show ?thesis
    unfolding insert_condition_immunities_script[OF assms] first_seen_def[symmetric]
      run_delete_then p
    using delete_then_inserts[OF uk _ rows _ d2, of d]
    by (simp add: schema_lookup)
qed

lemma subclass_spells_replaced:
  assumes "\<forall>spell \<in> set spells. \<not> nullish spell \<and> \<not> nullish (field spell ''spell'')
              \<and> is_string (spell_index spell) \<and> (\<exists>p. prerequisites spell = Inr p)"
  shows "run (bindA (delete_where ''subclass_spells'' ''subclass_index'' (JStr m))
               (\<lambda>u. insert_subclass_spells (JStr m) spells [])) d
         = Inr (d(''subclass_spells'' :=
                  filter (\<lambda>r. cell r ''subclass_index'' \<noteq> SqlStr m) (d ''subclass_spells'')
                  @ map (subclass_spell_row m) (first_seen spell_index spells)))"
proof -
  let ?fs = "first_seen spell_index spells"
  have sub: "set ?fs \<subseteq> set spells" and di: "distinct (map spell_index ?fs)"
    using first_seen_properties[of spell_index spells] by auto
  with assms have str: "\<forall>c \<in> set ?fs. is_string (spell_index c)" by auto
  have p: "prepared (map (\<lambda>spell. (InsertSet ''subclass_spells'',
                        JObj [(''subclass_index'', JStr m), (''spell_index'', spell_index spell),
                              (''prerequisites'',
                                 JSON_stringify (case prerequisites spell of
                                                   Inr p \<Rightarrow> p | Inl e \<Rightarrow> JUndefined))])) ?fs)
           = map (Insert ''subclass_spells'') (map (subclass_spell_row m) ?fs)"
    using str
    by (simp add: prepared_def prepare_subclass_spell subclass_spell_row_def del: prepare.simps)
  have inj: "inj_on (\<lambda>v. the (escape True v)) (spell_index ` set ?fs)"
  proof (rule inj_onI)
    fix x y
    assume "x \<in> spell_index ` set ?fs" "y \<in> spell_index ` set ?fs"
      and e: "the (escape True x) = the (escape True y)"
    with str have "is_string x" "is_string y" by auto
    then show "x = y" using e by (rule escape_string_inj)
  qed
  have d2: "distinct (map (\<lambda>r. cell r ''spell_index'') (map (subclass_spell_row m) ?fs))"
  proof -
    have e: "map (\<lambda>r. cell r ''spell_index'') (map (subclass_spell_row m) ?fs)
          = map (\<lambda>v. the (escape True v)) (map spell_index ?fs)"
      by (simp add: subclass_spell_row_def cell_def)
    have "distinct (map (\<lambda>v. the (escape True v)) (map spell_index ?fs))"
      using di inj by (subst distinct_map) simp
    then show ?thesis unfolding e .
  qed
  have rows: "\<forall>r \<in> set (map (subclass_spell_row m) ?fs).
                cell r ''subclass_index'' = SqlStr m \<and> cell r ''spell_index'' \<noteq> SqlNull"
    using str by (auto simp: subclass_spell_row_def cell_def escape_string)
  have uk: "unique_key ''subclass_spells'' = [''subclass_index'', ''spell_index'']"
    by (simp add: unique_key_def schema_lookup)
  show ?thesis
    unfolding insert_subclass_spells_script[OF assms] first_seen_def[symmetric]
      run_delete_then p
    using delete_then_inserts[OF uk _ rows _ d2, of d]
    by (simp add: schema_lookup)
qed

lemma charmed_twice_committed:
  "\<exists>d'. run (monster_transaction charmed_twice) (\<lambda>t. []) = Inr d'
      \<and> d' ''monster_condition_immunities''
          = [[(''monster_index'', SqlStr ''ghost''), (''condition_index'', SqlStr ''charmed'')]]"
  by (simp add: charmed_twice_def monster_transaction_def monsterRecord_def monsterQuery_def
      monster_doc_def insert_monster_proficiency_def Set_has_def js_eval sql_eval async_eval)

lemma forA_every_entry:
  "\<forall>x \<in> set xs. snd (body x) = Inr () \<Longrightarrow> forA body xs = (concat (map (\<lambda>x. fst (body x)) xs), Inr ())"
proof (induction xs)
  case Nil
  show ?case by simp
next
  case (Cons x xs)
  then have b: "body x = (fst (body x), Inr ())" by (metis list.set_intros(1) prod.collapse)
  from Cons have ih: "forA body xs = (concat (map (\<lambda>x. fst (body x)) xs), Inr ())" by simp
  have "forA body (x # xs) = bindA (fst (body x), Inr ()) (\<lambda>u. forA body xs)"
    using b by simp
  also have "\<dots> = (fst (body x) @ concat (map (\<lambda>x. fst (body x)) xs), Inr ())"
    by (simp add: ih)
  finally show ?case by simp
qed

section \<open>What a committed transaction leaves in the child tables\<close>

lemma inserted_append [simp]: "inserted t (a @ b) = inserted t a @ inserted t b"
  by (induction t a rule: inserted.induct) auto

lemma deleted_append [simp]: "deleted t (a @ b) x = (deleted t a x \<or> deleted t b x)"
  by (induction t a x rule: deleted.induct) auto

lemma child_inserts_only:
  assumes "list_all (child_insert S) ops"
    and "list_all (\<lambda>op. case op of Rejected e \<Rightarrow> False | _ \<Rightarrow> True) ops"
  shows "(\<forall>x. \<not> deleted t ops x) \<and> kept t ops = inserted t ops
         \<and> (\<forall>r \<in> set (inserted t ops). list_ex (\<lambda>(t', c, k). t' = t \<and> cell r c = k) S)"
  using assms
proof (induction ops)
  case Nil
  show ?case by simp
next
  case (Cons op ops)
  then show ?case
    by (cases op) (auto simp: child_insert_def list_ex_iff)
qed

lemma kept_append:
  "\<forall>x. \<not> deleted t b x \<Longrightarrow> kept t (a @ b) = kept t a @ kept t b"
  by (induction t a rule: kept.induct) auto

lemma deletes_script:
  "deleted t (map (\<lambda>t'. Delete t' c k) ts) x = (t \<in> set ts \<and> k \<noteq> SqlNull \<and> cell x c = k)"
  "kept t (map (\<lambda>t'. Delete t' c k) ts) = []"
  "inserted t (map (\<lambda>t'. Delete t' c k) ts) = []"
  by (induction ts) auto

lemma guarded_deletes:
  "\<forall>t \<in> set ts. \<not> parent_table t \<Longrightarrow> k \<noteq> SqlNull
   \<Longrightarrow> guarded (rev (map (\<lambda>t. (t, c, k)) ts) @ S) ins
   \<Longrightarrow> guarded S (map (\<lambda>t. Delete t c k) ts @ ins)"
  by (induction ts arbitrary: S) auto

lemma replaced:
  assumes f: "full_upsert pt upd pr"
    and ts: "\<forall>t \<in> set ts. \<not> parent_table t" and k: "k \<noteq> SqlNull"
    and ins: "list_all (child_insert (map (\<lambda>t. (t, c, k)) ts)) ins"
    and run: "run_operations (Upsert pt upd pr # map (\<lambda>t. Delete t c k) ts @ ins) d = Inr d'"
    and t: "t \<in> set ts"
  shows "d' t = filter (\<lambda>x. cell x c \<noteq> k) (d t)
                @ inserted t (Upsert pt upd pr # map (\<lambda>t. Delete t c k) ts @ ins)
         \<and> (\<forall>r \<in> set (inserted t (Upsert pt upd pr # map (\<lambda>t. Delete t c k) ts @ ins)).
               cell r c = k)"
proof -
  let ?ops = "Upsert pt upd pr # map (\<lambda>t. Delete t c k) ts @ ins"
  have gi: "guarded (rev (map (\<lambda>t. (t, c, k)) ts) @ []) ins"
    using child_inserts_guarded[OF ins] by (rule guarded_mono) simp
  have g: "guarded [] ?ops"
    using f guarded_deletes[OF ts k gi] by simp
  have nr: "list_all (\<lambda>op. case op of Rejected e \<Rightarrow> False | _ \<Rightarrow> True) ?ops"
    using run by (rule no_rejected)
  then have nri: "list_all (\<lambda>op. case op of Rejected e \<Rightarrow> False | _ \<Rightarrow> True) ins" by simp
  from ts t have np: "\<not> parent_table t" by simp
  have "d' t = fold (rows_after t) ?ops (d t)"
    using run g by (rule run_rows_after)
  also have "\<dots> = filter (\<lambda>x. \<not> deleted t ?ops x) (d t) @ kept t ?ops"
    using np g nr by (rule child_closed_form)
  finally have c: "d' t = filter (\<lambda>x. \<not> deleted t ?ops x) (d t) @ kept t ?ops" .
  note io = child_inserts_only[OF ins nri]
  have dl: "deleted t ?ops x = (cell x c = k)" for x
    using io t k by (simp add: deletes_script)
  have kp: "kept t ?ops = inserted t ins"
    using io by (simp add: kept_append deletes_script)
  have i: "inserted t ?ops = inserted t ins"
    by (simp add: deletes_script)
  have "\<forall>r \<in> set (inserted t ins). cell r c = k"
    using io by (auto simp: list_ex_iff)
  then show ?thesis unfolding c i dl kp by simp
qed

lemma replaces_run:
  assumes r: "replaces m idx c ts"
    and ts: "\<forall>t \<in> set ts. \<not> parent_table t \<and> map_of schema t \<noteq> None"
    and run: "run m d = Inr d'" and t: "t \<in> set ts"
  shows "(DeleteWhere t c, JArr [idx]) \<in> set (fst m)
         \<and> (\<exists>k. escape False idx = Some k \<and> k \<noteq> SqlNull
               \<and> d' t = filter (\<lambda>x. cell x c \<noteq> k) (d t) @ inserted t (prepared (fst m))
               \<and> (\<forall>r \<in> set (inserted t (prepared (fst m))). cell r c = k))"
proof -
  from run have s: "snd m = Inr ()" and ro: "run_operations (prepared (fst m)) d = Inr d'"
    by (auto simp: run_Inr_iff run_queries_prepared)
  with r obtain pt vs ins where pt: "parent_table pt" "''index'' \<in> set (not_null pt)"
    and di: "distinct (''index'' # map fst vs)"
    and m: "fst m = (on_duplicate_key_update pt (''index'' # map fst vs),
                      Object_values ((''index'', idx) # vs))
                     # map (\<lambda>t. (DeleteWhere t c, JArr [idx])) ts @ ins"
    and a: "\<And>k. escape False idx = Some k \<Longrightarrow> k \<noteq> SqlNull
               \<Longrightarrow> awaits (child_insert (map (\<lambda>t. (t, c, k)) ts)) (ins, Inr ())"
    unfolding replaces_def by blast
  let ?U = "prepare (on_duplicate_key_update pt (''index'' # map fst vs))
              (Object_values ((''index'', idx) # vs))"
  have p: "prepared (fst m)
           = ?U # map (\<lambda>t. prepare (DeleteWhere t c) (JArr [idx])) ts @ prepared ins"
    by (simp add: m prepared_def o_def del: prepare.simps)
  from ro have "\<not> (\<exists>e. ?U = Rejected e)"
    unfolding p by auto
  with prepare_upsert[OF pt di refl, of idx]
  obtain pr k where u: "?U = Upsert pt (map fst vs) pr" and f: "full_upsert pt (map fst vs) pr"
    and k: "escape False idx = Some k" "k \<noteq> SqlNull" by blast
  have dels: "map (\<lambda>t. prepare (DeleteWhere t c) (JArr [idx])) ts = map (\<lambda>t. Delete t c k) ts"
    using ts k by (auto split: option.splits)
  have p': "prepared (fst m) = Upsert pt (map fst vs) pr # map (\<lambda>t. Delete t c k) ts @ prepared ins"
    unfolding p u dels ..
  have ins: "list_all (child_insert (map (\<lambda>t. (t, c, k)) ts)) (prepared ins)"
    using a[OF k] by (simp add: awaits_def prepared_def list_all_iff split_def)
  from ts have np: "\<forall>t \<in> set ts. \<not> parent_table t" by simp
  from t have "(DeleteWhere t c, JArr [idx]) \<in> set (fst m)" by (simp add: m)
  with replaced[OF f np k(2) ins ro[unfolded p'] t] k show ?thesis
    unfolding p' by blast
qed

lemma fst_deletes:
  "fst (foldr (\<lambda>t r. bindA (delete_where t c idx) (\<lambda>u. r)) ts rest)
     = map (\<lambda>t. (DeleteWhere t c, JArr [idx])) ts @ fst rest"
  "snd (foldr (\<lambda>t r. bindA (delete_where t c idx) (\<lambda>u. r)) ts rest) = snd rest"
  by (induction ts) simp_all

lemma replaces_intro:
  assumes rec: "\<And>newRecord. rec = Inr newRecord
                  \<Longrightarrow> \<exists>vs. newRecord = (''index'', idx) # vs \<and> map fst vs = cs"
    and pt: "parent_table pt" "''index'' \<in> set (not_null pt)"
    and cs: "distinct (''index'' # cs)"
    and rest: "\<And>k. escape False idx = Some k \<Longrightarrow> k \<noteq> SqlNull
                 \<Longrightarrow> awaits (child_insert (map (\<lambda>t. (t, c, k)) ts)) rest"
  shows "replaces
           (bindA (evaluate rec) (\<lambda>newRecord.
            bindA (queryAsync (on_duplicate_key_update pt (''index'' # cs))
                     (Object_values newRecord)) (\<lambda>u.
            foldr (\<lambda>t r. bindA (delete_where t c idx) (\<lambda>u. r)) ts rest)))
           idx c ts"
proof (cases rec)
  case (Inl e)
  then show ?thesis by (simp add: replaces_def)
next
  case (Inr newRecord)
  from rec[OF Inr] obtain vs where v: "newRecord = (''index'', idx) # vs" "map fst vs = cs"
    by auto
  show ?thesis
    unfolding replaces_def
  proof (intro impI exI[of _ pt] exI[of _ vs] exI[of _ "fst rest"] conjI allI)
    show "fst (bindA (evaluate rec) (\<lambda>newRecord.
            bindA (queryAsync (on_duplicate_key_update pt (''index'' # cs))
                     (Object_values newRecord)) (\<lambda>u.
            foldr (\<lambda>t r. bindA (delete_where t c idx) (\<lambda>u. r)) ts rest)))
          = (on_duplicate_key_update pt (''index'' # map fst vs),
             Object_values ((''index'', idx) # vs))
            # map (\<lambda>t. (DeleteWhere t c, JArr [idx])) ts @ fst rest"
      by (simp add: Inr v fst_deletes del: bindA_delete_where)
  next
    fix k assume "escape False idx = Some k" "k \<noteq> SqlNull"
    then show "awaits (child_insert (map (\<lambda>t. (t, c, k)) ts)) (fst rest, Inr ())"
      using rest[of k] by simp
  qed (use pt cs v in simp_all)
qed

lemma race_transaction_replaces:
  "replaces (race_transaction detailData) (field detailData ''index'') ''race_index''
     [''race_proficiencies'', ''race_languages'', ''race_traits'']"
  unfolding race_transaction_def raceQuery_def
  apply (rule replaces_intro[where ts = "[''race_proficiencies'', ''race_languages'', ''race_traits'']",
           unfolded foldr.simps o_apply id_apply])
      prefer 5
      apply (auto intro!: awaits_bindA awaits_forA insert_links_child simp: table_facts)[1]
     apply (auto simp: raceRecord_def bindE_Inr_iff read_Inr_iff table_facts)
  done

lemma insert_class_level_child:
  assumes "escape False idx = Some k" "k \<noteq> SqlNull" "(''class_levels'', ''class_index'', k) \<in> set S"
  shows "awaits (child_insert S) (insert_class_level idx x)"
  using assms
  by (auto simp: insert_class_level_def levelRecord_def bindE_Inr_iff table_facts
           intro!: insert_set_child simp del: prepare.simps)

lemma insert_class_spell_child:
  assumes "escape False idx = Some k" "k \<noteq> SqlNull" "(''class_spells'', ''class_index'', k) \<in> set S"
  shows "awaits (child_insert S) (insert_class_spell idx x)"
  using assms
  by (auto simp: insert_class_spell_def bindE_Inr_iff table_facts
           intro!: insert_values_child simp del: prepare.simps)

lemma insert_proficiency_choice_child:
  assumes "escape False idx = Some k" "k \<noteq> SqlNull" "(''class_proficiency_choices'', ''class_index'', k) \<in> set S"
  shows "awaits (child_insert S) (insert_proficiency_choice idx x)"
  using assms
  by (auto simp: insert_proficiency_choice_def proficiency_choiceRecord_def bindE_Inr_iff table_facts
           intro!: insert_set_child split: prod.splits simp del: prepare.simps)

lemma insert_starting_equipment_child:
  assumes "escape False idx = Some k" "k \<noteq> SqlNull" "(''class_starting_equipment'', ''class_index'', k) \<in> set S"
  shows "awaits (child_insert S) (insert_starting_equipment idx x)"
  using assms
  by (auto simp: insert_starting_equipment_def bindE_Inr_iff table_facts
           intro!: insert_values_child simp del: prepare.simps)

lemma insert_starting_equipment_option_child:
  assumes "escape False idx = Some k" "k \<noteq> SqlNull" "(''class_starting_equipment_options'', ''class_index'', k) \<in> set S"
  shows "awaits (child_insert S) (insert_starting_equipment_option idx x)"
  using assms
  by (auto simp: insert_starting_equipment_option_def equipment_optionRecord_def bindE_Inr_iff table_facts
           intro!: insert_set_child split: prod.splits simp del: prepare.simps)

lemma insert_monster_proficiency_child:
  assumes "escape False idx = Some k" "k \<noteq> SqlNull" "(''monster_proficiencies'', ''monster_index'', k) \<in> set S"
  shows "awaits (child_insert S) (insert_monster_proficiency idx x)"
  using assms
  by (auto simp: insert_monster_proficiency_def bindE_Inr_iff table_facts
           intro!: insert_set_child simp del: prepare.simps)

lemma insert_subclass_level_child:
  assumes "escape False idx = Some k" "k \<noteq> SqlNull" "(''subclass_levels'', ''subclass_index'', k) \<in> set S"
  shows "awaits (child_insert S) (insert_subclass_level idx x)"
  using assms
  by (auto simp: insert_subclass_level_def subclass_levelRecord_def bindE_Inr_iff table_facts
           intro!: insert_set_child simp del: prepare.simps)

lemma class_transaction_replaces:
  "replaces (class_transaction (detailData, levelsData, spellsData)) (field detailData ''index'') ''class_index''
     [''class_levels'', ''class_spells'', ''class_proficiency_choices'', ''class_starting_equipment'', ''class_starting_equipment_options'']"
  unfolding class_transaction_def classQuery_def prod.case
  apply (rule replaces_intro[where ts = "[''class_levels'', ''class_spells'', ''class_proficiency_choices'', ''class_starting_equipment'', ''class_starting_equipment_options'']",
           unfolded foldr.simps o_apply id_apply])
      prefer 5
      apply (auto intro!: awaits_bindA awaits_forA insert_links_child insert_class_level_child
               insert_class_spell_child insert_proficiency_choice_child
               insert_starting_equipment_child insert_starting_equipment_option_child
               insert_monster_proficiency_child insert_subclass_level_child
               insert_condition_immunities_child insert_subclass_spells_child
             simp: table_facts split: js.splits)[1]
     apply (auto simp: classRecord_def bindE_Inr_iff read_Inr_iff table_facts)
  done

lemma monster_transaction_replaces:
  "replaces (monster_transaction detailData) (field detailData ''index'') ''monster_index''
     [''monster_proficiencies'', ''monster_condition_immunities'']"
  unfolding monster_transaction_def monsterQuery_def prod.case
  apply (rule replaces_intro[where ts = "[''monster_proficiencies'', ''monster_condition_immunities'']",
           unfolded foldr.simps o_apply id_apply])
      prefer 5
      apply (auto intro!: awaits_bindA awaits_forA insert_links_child insert_class_level_child
               insert_class_spell_child insert_proficiency_choice_child
               insert_starting_equipment_child insert_starting_equipment_option_child
               insert_monster_proficiency_child insert_subclass_level_child
               insert_condition_immunities_child insert_subclass_spells_child
             simp: table_facts split: js.splits)[1]
     apply (auto simp: monsterRecord_def bindE_Inr_iff read_Inr_iff table_facts)
  done

lemma proficiency_transaction_replaces:
  "replaces (proficiency_transaction detailData) (field detailData ''index'') ''proficiency_index''
     [''proficiency_classes'', ''proficiency_races'']"
  unfolding proficiency_transaction_def profQuery_def prod.case
  apply (rule replaces_intro[where ts = "[''proficiency_classes'', ''proficiency_races'']",
           unfolded foldr.simps o_apply id_apply])
      prefer 5
      apply (auto intro!: awaits_bindA awaits_forA insert_links_child insert_class_level_child
               insert_class_spell_child insert_proficiency_choice_child
               insert_starting_equipment_child insert_starting_equipment_option_child
               insert_monster_proficiency_child insert_subclass_level_child
               insert_condition_immunities_child insert_subclass_spells_child
             simp: table_facts split: js.splits)[1]
     apply (auto simp: profRecord_def bindE_Inr_iff read_Inr_iff table_facts)
  done

lemma spell_transaction_replaces:
  "replaces (spell_transaction detailData) (field detailData ''index'') ''spell_index''
     [''spell_classes'', ''spell_subclasses'']"
  unfolding spell_transaction_def spellQuery_def prod.case
  apply (rule replaces_intro[where ts = "[''spell_classes'', ''spell_subclasses'']",
           unfolded foldr.simps o_apply id_apply])
      prefer 5
      apply (auto intro!: awaits_bindA awaits_forA insert_links_child insert_class_level_child
               insert_class_spell_child insert_proficiency_choice_child
               insert_starting_equipment_child insert_starting_equipment_option_child
               insert_monster_proficiency_child insert_subclass_level_child
               insert_condition_immunities_child insert_subclass_spells_child
             simp: table_facts split: js.splits)[1]
     apply (auto simp: spellRecord_def bindE_Inr_iff read_Inr_iff table_facts)
  done

lemma subclass_transaction_replaces:
  "replaces (subclass_transaction (detailData, levelsData)) (field detailData ''index'') ''subclass_index''
     [''subclass_levels'', ''subclass_spells'']"
  unfolding subclass_transaction_def subQuery_def prod.case
  apply (rule replaces_intro[where ts = "[''subclass_levels'', ''subclass_spells'']",
           unfolded foldr.simps o_apply id_apply])
      prefer 5
      apply (auto intro!: awaits_bindA awaits_forA insert_links_child insert_class_level_child
               insert_class_spell_child insert_proficiency_choice_child
               insert_starting_equipment_child insert_starting_equipment_option_child
               insert_monster_proficiency_child insert_subclass_level_child
               insert_condition_immunities_child insert_subclass_spells_child
             simp: table_facts split: js.splits)[1]
     apply (auto simp: subRecord_def bindE_Inr_iff read_Inr_iff table_facts)
  done

lemma trait_transaction_replaces:
  "replaces (trait_transaction detailData) (field detailData ''index'') ''trait_index''
     [''trait_races'', ''trait_subraces'', ''trait_proficiencies'']"
  unfolding trait_transaction_def traitQuery_def prod.case
  apply (rule replaces_intro[where ts = "[''trait_races'', ''trait_subraces'', ''trait_proficiencies'']",
           unfolded foldr.simps o_apply id_apply])
      prefer 5
      apply (auto intro!: awaits_bindA awaits_forA insert_links_child insert_class_level_child
               insert_class_spell_child insert_proficiency_choice_child
               insert_starting_equipment_child insert_starting_equipment_option_child
               insert_monster_proficiency_child insert_subclass_level_child
               insert_condition_immunities_child insert_subclass_spells_child
             simp: table_facts split: js.splits)[1]
     apply (auto simp: traitRecord_def bindE_Inr_iff read_Inr_iff table_facts)
  done

lemma bindA_completes:
  "snd (bindA m f) = Inr u \<longleftrightarrow> (\<exists>x. snd m = Inr x \<and> snd (f x) = Inr u)"
  by (cases "snd m") (auto simp: snd_bindA)

lemma fst_bindA_completes:
  "snd m = Inr x \<Longrightarrow> fst (bindA m f) = fst m @ fst (f x)"
  by (simp add: fst_bindA)

lemma forA_completes:
  "snd (forA body xs) = Inr u \<Longrightarrow> \<forall>x \<in> set xs. snd (body x) = Inr ()"
  by (induction xs) (auto simp: bindA_completes)

lemma forA_entries:
  assumes "snd (forA body xs) = Inr u"
  shows "fst (forA body xs) = concat (map (\<lambda>x. fst (body x)) xs)"
  using forA_every_entry[OF forA_completes[OF assms]] by simp

lemma insert_links_entries:
  assumes "snd (insert_links t cols idx xs) = Inr ()"
  shows "\<exists>items. for_of xs = Inr items
           \<and> fst (insert_links t cols idx xs)
               = map (\<lambda>x. (InsertValues t cols, JArr [idx, field x ''index''])) items"
proof -
  from assms obtain items where i: "for_of xs = Inr items"
    and l: "snd (forA (\<lambda>x. bindA (evaluate (read x ''index''))
                (\<lambda>x_index. queryAsync (InsertValues t cols) (JArr [idx, x_index]))) items) = Inr ()"
    by (auto simp: insert_links_def bindA_completes evaluate_def)
  let ?body = "\<lambda>x. bindA (evaluate (read x ''index''))
                (\<lambda>x_index. queryAsync (InsertValues t cols) (JArr [idx, x_index]))"
  have b: "fst (?body x) = [(InsertValues t cols, JArr [idx, field x ''index''])]"
    if "x \<in> set items" for x
  proof -
    from forA_completes[OF l] that have "snd (?body x) = Inr ()" by blast
    then have "read x ''index'' = Inr (field x ''index'')"
      by (auto simp: bindA_completes evaluate_def read_Inr_iff)
    then show ?thesis by (simp add: queryAsync_def)
  qed
  have "fst (insert_links t cols idx xs) = fst (forA ?body items)"
    by (simp add: insert_links_def i)
  also have "\<dots> = concat (map (\<lambda>x. fst (?body x)) items)"
    using l by (rule forA_entries)
  also have "\<dots> = concat (map (\<lambda>x. [(InsertValues t cols, JArr [idx, field x ''index''])]) items)"
    using b by (intro arg_cong[where f = concat] map_cong) auto
  also have "\<dots> = map (\<lambda>x. (InsertValues t cols, JArr [idx, field x ''index''])) items"
    by (induction items) auto
  finally show ?thesis using i by blast
qed

lemma prepare_link:
  assumes "not_rejected (prepare (InsertValues t [a, b]) (JArr [idx, v]))"
    and "escape False idx = Some k"
  shows "prepare (InsertValues t [a, b]) (JArr [idx, v])
         = Insert t [(a, k), (b, the (escape False v))]"
  using assms
  by (auto simp: checked_def bind_values_def split: if_splits option.splits)

lemma inserted_links:
  assumes c: "snd (insert_links t [a, b] idx xs) = Inr ()"
    and nr: "list_all not_rejected (prepared (fst (insert_links t [a, b] idx xs)))"
    and k: "escape False idx = Some k"
  shows "\<exists>items. for_of xs = Inr items
           \<and> (\<forall>t'. inserted t' (prepared (fst (insert_links t [a, b] idx xs)))
                      = (if t' = t then map (link_row a k b) items else []))"
proof -
  from insert_links_entries[OF c] obtain items where i: "for_of xs = Inr items"
    and f: "fst (insert_links t [a, b] idx xs)
               = map (\<lambda>x. (InsertValues t [a, b], JArr [idx, field x ''index''])) items"
    by blast
  have p: "prepared (fst (insert_links t [a, b] idx xs))
           = map (\<lambda>x. Insert t (link_row a k b x)) items"
    using nr unfolding f prepared_def
    by (auto simp: list_all_iff link_row_def prepare_link[OF _ k] simp del: prepare.simps)
  have "inserted t' (map (\<lambda>x. Insert t (link_row a k b x)) items)
        = (if t' = t then map (link_row a k b) items else [])" for t'
    by (induction items) auto
  with i p show ?thesis by simp
qed

lemma inserted_upsert [simp]:
  "inserted t (prepare (on_duplicate_key_update pt cols) vals # ops) = inserted t ops"
proof (cases "prepare (on_duplicate_key_update pt cols) vals")
  case (Insert t' r)
  then show ?thesis
    by (cases vals) (auto simp: on_duplicate_key_update_def checked_def split: if_splits option.splits)
qed simp_all

lemma inserted_delete [simp]:
  "inserted t (prepare (DeleteWhere t' c) (JArr [v]) # ops) = inserted t ops"
  by (auto split: option.splits)

lemma proficiency_children:
  assumes run: "run (proficiency_transaction detailData) d = Inr d'"
  shows "\<exists>k xs1 xs2.
           escape False (field detailData ''index'') = Some k \<and> k \<noteq> SqlNull
         \<and> for_of (field detailData ''classes'') = Inr xs1
         \<and> for_of (field detailData ''races'') = Inr xs2
         \<and> d' ''proficiency_classes''
             = filter (\<lambda>x. cell x ''proficiency_index'' \<noteq> k) (d ''proficiency_classes'')
               @ map (link_row ''proficiency_index'' k ''class_index'') xs1
         \<and> d' ''proficiency_races''
             = filter (\<lambda>x. cell x ''proficiency_index'' \<noteq> k) (d ''proficiency_races'')
               @ map (link_row ''proficiency_index'' k ''race_index'') xs2"
proof -
  let ?m = "proficiency_transaction detailData"
  let ?idx = "field detailData ''index''"
  let ?L1 = "insert_links ''proficiency_classes'' [''proficiency_index'', ''class_index'']
               ?idx (field detailData ''classes'')"
  let ?L2 = "insert_links ''proficiency_races'' [''proficiency_index'', ''race_index'']
               ?idx (field detailData ''races'')"
  have tabs: "\<forall>t \<in> set [''proficiency_classes'', ''proficiency_races''].
                \<not> parent_table t \<and> map_of schema t \<noteq> None"
    by (simp add: table_facts)
  note rr = replaces_run[OF proficiency_transaction_replaces tabs run]
  from rr[of "''proficiency_classes''"] obtain k
    where k: "escape False ?idx = Some k" "k \<noteq> SqlNull" by auto
  from run have s: "snd ?m = Inr ()" and ro: "run_operations (prepared (fst ?m)) d = Inr d'"
    by (auto simp: run_Inr_iff run_queries_prepared)
  obtain newRecord where rec: "profRecord detailData = Inr newRecord"
    by (cases "profRecord detailData") (use s in \<open>simp_all add: proficiency_transaction_def\<close>)
  have "snd ?m = snd (bindA ?L1 (\<lambda>u. ?L2))"
    by (simp add: proficiency_transaction_def rec)
  with s have c: "snd ?L1 = Inr ()" "snd ?L2 = Inr ()"
    by (auto simp: bindA_completes)
  have f: "fst ?m = (profQuery, Object_values newRecord)
             # (DeleteWhere ''proficiency_classes'' ''proficiency_index'', JArr [?idx])
             # (DeleteWhere ''proficiency_races'' ''proficiency_index'', JArr [?idx])
             # fst ?L1 @ fst ?L2"
    using c by (simp add: proficiency_transaction_def rec fst_bindA)
  have nr: "list_all not_rejected (prepared (fst ?m))"
    using ro by (rule no_rejected)
  then have nrs: "list_all not_rejected (prepared (fst ?L1))" "list_all not_rejected (prepared (fst ?L2))"
    unfolding f by (simp_all add: prepared_def del: prepare.simps)
  have i: "inserted t (prepared (fst ?m))
           = inserted t (prepared (fst ?L1)) @ inserted t (prepared (fst ?L2))" for t
    unfolding f profQuery_def by (simp add: prepared_def del: prepare.simps)
  from inserted_links[OF c(1) nrs(1) k(1)] obtain xs1
    where xs1: "for_of (field detailData ''classes'') = Inr xs1"
      "\<And>t'. inserted t' (prepared (fst ?L1))
         = (if t' = ''proficiency_classes'' then map (link_row ''proficiency_index'' k ''class_index'') xs1 else [])"
    by blast
  from inserted_links[OF c(2) nrs(2) k(1)] obtain xs2
    where xs2: "for_of (field detailData ''races'') = Inr xs2"
      "\<And>t'. inserted t' (prepared (fst ?L2))
         = (if t' = ''proficiency_races'' then map (link_row ''proficiency_index'' k ''race_index'') xs2 else [])"
    by blast
  have r1: "d' ''proficiency_classes''
             = filter (\<lambda>x. cell x ''proficiency_index'' \<noteq> k) (d ''proficiency_classes'')
               @ map (link_row ''proficiency_index'' k ''class_index'') xs1"
    using rr[of "''proficiency_classes''"] k by (simp add: i xs1 xs2)
  have r2: "d' ''proficiency_races''
             = filter (\<lambda>x. cell x ''proficiency_index'' \<noteq> k) (d ''proficiency_races'')
               @ map (link_row ''proficiency_index'' k ''race_index'') xs2"
    using rr[of "''proficiency_races''"] k by (simp add: i xs1 xs2)
  show ?thesis using k xs1(1) xs2(1) r1 r2 by blast
qed

lemma race_children:
  assumes run: "run (race_transaction detailData) d = Inr d'"
  shows "\<exists>k xs1 xs2 xs3.
           escape False (field detailData ''index'') = Some k \<and> k \<noteq> SqlNull
         \<and> for_of (field detailData ''starting_proficiencies'') = Inr xs1
         \<and> for_of (field detailData ''languages'') = Inr xs2
         \<and> for_of (field detailData ''traits'') = Inr xs3
         \<and> d' ''race_proficiencies''
             = filter (\<lambda>x. cell x ''race_index'' \<noteq> k) (d ''race_proficiencies'')
               @ map (link_row ''race_index'' k ''proficiency_index'') xs1
         \<and> d' ''race_languages''
             = filter (\<lambda>x. cell x ''race_index'' \<noteq> k) (d ''race_languages'')
               @ map (link_row ''race_index'' k ''language_index'') xs2
         \<and> d' ''race_traits''
             = filter (\<lambda>x. cell x ''race_index'' \<noteq> k) (d ''race_traits'')
               @ map (link_row ''race_index'' k ''trait_index'') xs3"
proof -
  let ?m = "race_transaction detailData"
  let ?idx = "field detailData ''index''"
  let ?L1 = "insert_links ''race_proficiencies'' [''race_index'', ''proficiency_index'']
               ?idx (field detailData ''starting_proficiencies'')"
  let ?L2 = "insert_links ''race_languages'' [''race_index'', ''language_index'']
               ?idx (field detailData ''languages'')"
  let ?L3 = "insert_links ''race_traits'' [''race_index'', ''trait_index'']
               ?idx (field detailData ''traits'')"
  have tabs: "\<forall>t \<in> set [''race_proficiencies'', ''race_languages'', ''race_traits''].
                \<not> parent_table t \<and> map_of schema t \<noteq> None"
    by (simp add: table_facts)
  note rr = replaces_run[OF race_transaction_replaces tabs run]
  from rr[of "''race_proficiencies''"] obtain k
    where k: "escape False ?idx = Some k" "k \<noteq> SqlNull" by auto
  from run have s: "snd ?m = Inr ()" and ro: "run_operations (prepared (fst ?m)) d = Inr d'"
    by (auto simp: run_Inr_iff run_queries_prepared)
  obtain newRecord where rec: "raceRecord detailData = Inr newRecord"
    by (cases "raceRecord detailData") (use s in \<open>simp_all add: race_transaction_def\<close>)
  have "snd ?m = snd (bindA ?L1 (\<lambda>u. bindA ?L2 (\<lambda>u. ?L3)))"
    by (simp add: race_transaction_def rec)
  with s have c: "snd ?L1 = Inr ()" "snd ?L2 = Inr ()" "snd ?L3 = Inr ()"
    by (auto simp: bindA_completes)
  have f: "fst ?m = (raceQuery, Object_values newRecord)
             # (DeleteWhere ''race_proficiencies'' ''race_index'', JArr [?idx])
             # (DeleteWhere ''race_languages'' ''race_index'', JArr [?idx])
             # (DeleteWhere ''race_traits'' ''race_index'', JArr [?idx])
             # fst ?L1 @ fst ?L2 @ fst ?L3"
    using c by (simp add: race_transaction_def rec fst_bindA)
  have nr: "list_all not_rejected (prepared (fst ?m))"
    using ro by (rule no_rejected)
  then have nrs: "list_all not_rejected (prepared (fst ?L1))" "list_all not_rejected (prepared (fst ?L2))" "list_all not_rejected (prepared (fst ?L3))"
    unfolding f by (simp_all add: prepared_def del: prepare.simps)
  have i: "inserted t (prepared (fst ?m))
           = inserted t (prepared (fst ?L1)) @ inserted t (prepared (fst ?L2)) @ inserted t (prepared (fst ?L3))" for t
    unfolding f raceQuery_def by (simp add: prepared_def del: prepare.simps)
  from inserted_links[OF c(1) nrs(1) k(1)] obtain xs1
    where xs1: "for_of (field detailData ''starting_proficiencies'') = Inr xs1"
      "\<And>t'. inserted t' (prepared (fst ?L1))
         = (if t' = ''race_proficiencies'' then map (link_row ''race_index'' k ''proficiency_index'') xs1 else [])"
    by blast
  from inserted_links[OF c(2) nrs(2) k(1)] obtain xs2
    where xs2: "for_of (field detailData ''languages'') = Inr xs2"
      "\<And>t'. inserted t' (prepared (fst ?L2))
         = (if t' = ''race_languages'' then map (link_row ''race_index'' k ''language_index'') xs2 else [])"
    by blast
  from inserted_links[OF c(3) nrs(3) k(1)] obtain xs3
    where xs3: "for_of (field detailData ''traits'') = Inr xs3"
      "\<And>t'. inserted t' (prepared (fst ?L3))
         = (if t' = ''race_traits'' then map (link_row ''race_index'' k ''trait_index'') xs3 else [])"
    by blast
  have r1: "d' ''race_proficiencies''
             = filter (\<lambda>x. cell x ''race_index'' \<noteq> k) (d ''race_proficiencies'')
               @ map (link_row ''race_index'' k ''proficiency_index'') xs1"
    using rr[of "''race_proficiencies''"] k by (simp add: i xs1 xs2 xs3)
  have r2: "d' ''race_languages''
             = filter (\<lambda>x. cell x ''race_index'' \<noteq> k) (d ''race_languages'')
               @ map (link_row ''race_index'' k ''language_index'') xs2"
    using rr[of "''race_languages''"] k by (simp add: i xs1 xs2 xs3)
  have r3: "d' ''race_traits''
             = filter (\<lambda>x. cell x ''race_index'' \<noteq> k) (d ''race_traits'')
               @ map (link_row ''race_index'' k ''trait_index'') xs3"
    using rr[of "''race_traits''"] k by (simp add: i xs1 xs2 xs3)
  show ?thesis using k xs1(1) xs2(1) xs3(1) r1 r2 r3 by blast
qed

lemma spell_children:
  assumes run: "run (spell_transaction detailData) d = Inr d'"
  shows "\<exists>k xs1 xs2.
           escape False (field detailData ''index'') = Some k \<and> k \<noteq> SqlNull
         \<and> for_of (field detailData ''classes'') = Inr xs1
         \<and> for_of (field detailData ''subclasses'') = Inr xs2
         \<and> d' ''spell_classes''
             = filter (\<lambda>x. cell x ''spell_index'' \<noteq> k) (d ''spell_classes'')
               @ map (link_row ''spell_index'' k ''class_index'') xs1
         \<and> d' ''spell_subclasses''
             = filter (\<lambda>x. cell x ''spell_index'' \<noteq> k) (d ''spell_subclasses'')
               @ map (link_row ''spell_index'' k ''subclass_index'') xs2"
proof -
  let ?m = "spell_transaction detailData"
  let ?idx = "field detailData ''index''"
  let ?L1 = "insert_links ''spell_classes'' [''spell_index'', ''class_index'']
               ?idx (field detailData ''classes'')"
  let ?L2 = "insert_links ''spell_subclasses'' [''spell_index'', ''subclass_index'']
               ?idx (field detailData ''subclasses'')"
  have tabs: "\<forall>t \<in> set [''spell_classes'', ''spell_subclasses''].
                \<not> parent_table t \<and> map_of schema t \<noteq> None"
    by (simp add: table_facts)
  note rr = replaces_run[OF spell_transaction_replaces tabs run]
  from rr[of "''spell_classes''"] obtain k
    where k: "escape False ?idx = Some k" "k \<noteq> SqlNull" by auto
  from run have s: "snd ?m = Inr ()" and ro: "run_operations (prepared (fst ?m)) d = Inr d'"
    by (auto simp: run_Inr_iff run_queries_prepared)
  obtain newRecord where rec: "spellRecord detailData = Inr newRecord"
    by (cases "spellRecord detailData") (use s in \<open>simp_all add: spell_transaction_def\<close>)
  have "snd ?m = snd (bindA ?L1 (\<lambda>u. ?L2))"
    by (simp add: spell_transaction_def rec)
  with s have c: "snd ?L1 = Inr ()" "snd ?L2 = Inr ()"
    by (auto simp: bindA_completes)
  have f: "fst ?m = (spellQuery, Object_values newRecord)
             # (DeleteWhere ''spell_classes'' ''spell_index'', JArr [?idx])
             # (DeleteWhere ''spell_subclasses'' ''spell_index'', JArr [?idx])
             # fst ?L1 @ fst ?L2"
    using c by (simp add: spell_transaction_def rec fst_bindA)
  have nr: "list_all not_rejected (prepared (fst ?m))"
    using ro by (rule no_rejected)
  then have nrs: "list_all not_rejected (prepared (fst ?L1))" "list_all not_rejected (prepared (fst ?L2))"
    unfolding f by (simp_all add: prepared_def del: prepare.simps)
  have i: "inserted t (prepared (fst ?m))
           = inserted t (prepared (fst ?L1)) @ inserted t (prepared (fst ?L2))" for t
    unfolding f spellQuery_def by (simp add: prepared_def del: prepare.simps)
  from inserted_links[OF c(1) nrs(1) k(1)] obtain xs1
    where xs1: "for_of (field detailData ''classes'') = Inr xs1"
      "\<And>t'. inserted t' (prepared (fst ?L1))
         = (if t' = ''spell_classes'' then map (link_row ''spell_index'' k ''class_index'') xs1 else [])"
    by blast
  from inserted_links[OF c(2) nrs(2) k(1)] obtain xs2
    where xs2: "for_of (field detailData ''subclasses'') = Inr xs2"
      "\<And>t'. inserted t' (prepared (fst ?L2))
         = (if t' = ''spell_subclasses'' then map (link_row ''spell_index'' k ''subclass_index'') xs2 else [])"
    by blast
  have r1: "d' ''spell_classes''
             = filter (\<lambda>x. cell x ''spell_index'' \<noteq> k) (d ''spell_classes'')
               @ map (link_row ''spell_index'' k ''class_index'') xs1"
    using rr[of "''spell_classes''"] k by (simp add: i xs1 xs2)
  have r2: "d' ''spell_subclasses''
             = filter (\<lambda>x. cell x ''spell_index'' \<noteq> k) (d ''spell_subclasses'')
               @ map (link_row ''spell_index'' k ''subclass_index'') xs2"
    using rr[of "''spell_subclasses''"] k by (simp add: i xs1 xs2)
  show ?thesis using k xs1(1) xs2(1) r1 r2 by blast
qed

lemma trait_children:
  assumes run: "run (trait_transaction detailData) d = Inr d'"
  shows "\<exists>k xs1 xs2 xs3.
           escape False (field detailData ''index'') = Some k \<and> k \<noteq> SqlNull
         \<and> for_of (field detailData ''races'') = Inr xs1
         \<and> for_of (field detailData ''subraces'') = Inr xs2
         \<and> for_of (field detailData ''proficiencies'') = Inr xs3
         \<and> d' ''trait_races''
             = filter (\<lambda>x. cell x ''trait_index'' \<noteq> k) (d ''trait_races'')
               @ map (link_row ''trait_index'' k ''race_index'') xs1
         \<and> d' ''trait_subraces''
             = filter (\<lambda>x. cell x ''trait_index'' \<noteq> k) (d ''trait_subraces'')
               @ map (link_row ''trait_index'' k ''subrace_index'') xs2
         \<and> d' ''trait_proficiencies''
             = filter (\<lambda>x. cell x ''trait_index'' \<noteq> k) (d ''trait_proficiencies'')
               @ map (link_row ''trait_index'' k ''proficiency_index'') xs3"
proof -
  let ?m = "trait_transaction detailData"
  let ?idx = "field detailData ''index''"
  let ?L1 = "insert_links ''trait_races'' [''trait_index'', ''race_index'']
               ?idx (field detailData ''races'')"
  let ?L2 = "insert_links ''trait_subraces'' [''trait_index'', ''subrace_index'']
               ?idx (field detailData ''subraces'')"
  let ?L3 = "insert_links ''trait_proficiencies'' [''trait_index'', ''proficiency_index'']
               ?idx (field detailData ''proficiencies'')"
  have tabs: "\<forall>t \<in> set [''trait_races'', ''trait_subraces'', ''trait_proficiencies''].
                \<not> parent_table t \<and> map_of schema t \<noteq> None"
    by (simp add: table_facts)
  note rr = replaces_run[OF trait_transaction_replaces tabs run]
  from rr[of "''trait_races''"] obtain k
    where k: "escape False ?idx = Some k" "k \<noteq> SqlNull" by auto
  from run have s: "snd ?m = Inr ()" and ro: "run_operations (prepared (fst ?m)) d = Inr d'"
    by (auto simp: run_Inr_iff run_queries_prepared)
  obtain newRecord where rec: "traitRecord detailData = Inr newRecord"
    by (cases "traitRecord detailData") (use s in \<open>simp_all add: trait_transaction_def\<close>)
  have "snd ?m = snd (bindA ?L1 (\<lambda>u. bindA ?L2 (\<lambda>u. ?L3)))"
    by (simp add: trait_transaction_def rec)
  with s have c: "snd ?L1 = Inr ()" "snd ?L2 = Inr ()" "snd ?L3 = Inr ()"
    by (auto simp: bindA_completes)
  have f: "fst ?m = (traitQuery, Object_values newRecord)
             # (DeleteWhere ''trait_races'' ''trait_index'', JArr [?idx])
             # (DeleteWhere ''trait_subraces'' ''trait_index'', JArr [?idx])
             # (DeleteWhere ''trait_proficiencies'' ''trait_index'', JArr [?idx])
             # fst ?L1 @ fst ?L2 @ fst ?L3"
    using c by (simp add: trait_transaction_def rec fst_bindA)
  have nr: "list_all not_rejected (prepared (fst ?m))"
    using ro by (rule no_rejected)
  then have nrs: "list_all not_rejected (prepared (fst ?L1))" "list_all not_rejected (prepared (fst ?L2))" "list_all not_rejected (prepared (fst ?L3))"
    unfolding f by (simp_all add: prepared_def del: prepare.simps)
  have i: "inserted t (prepared (fst ?m))
           = inserted t (prepared (fst ?L1)) @ inserted t (prepared (fst ?L2)) @ inserted t (prepared (fst ?L3))" for t
    unfolding f traitQuery_def by (simp add: prepared_def del: prepare.simps)
  from inserted_links[OF c(1) nrs(1) k(1)] obtain xs1
    where xs1: "for_of (field detailData ''races'') = Inr xs1"
      "\<And>t'. inserted t' (prepared (fst ?L1))
         = (if t' = ''trait_races'' then map (link_row ''trait_index'' k ''race_index'') xs1 else [])"
    by blast
  from inserted_links[OF c(2) nrs(2) k(1)] obtain xs2
    where xs2: "for_of (field detailData ''subraces'') = Inr xs2"
      "\<And>t'. inserted t' (prepared (fst ?L2))
         = (if t' = ''trait_subraces'' then map (link_row ''trait_index'' k ''subrace_index'') xs2 else [])"
    by blast
  from inserted_links[OF c(3) nrs(3) k(1)] obtain xs3
    where xs3: "for_of (field detailData ''proficiencies'') = Inr xs3"
      "\<And>t'. inserted t' (prepared (fst ?L3))
         = (if t' = ''trait_proficiencies'' then map (link_row ''trait_index'' k ''proficiency_index'') xs3 else [])"
    by blast
  have r1: "d' ''trait_races''
             = filter (\<lambda>x. cell x ''trait_index'' \<noteq> k) (d ''trait_races'')
               @ map (link_row ''trait_index'' k ''race_index'') xs1"
    using rr[of "''trait_races''"] k by (simp add: i xs1 xs2 xs3)
  have r2: "d' ''trait_subraces''
             = filter (\<lambda>x. cell x ''trait_index'' \<noteq> k) (d ''trait_subraces'')
               @ map (link_row ''trait_index'' k ''subrace_index'') xs2"
    using rr[of "''trait_subraces''"] k by (simp add: i xs1 xs2 xs3)
  have r3: "d' ''trait_proficiencies''
             = filter (\<lambda>x. cell x ''trait_index'' \<noteq> k) (d ''trait_proficiencies'')
               @ map (link_row ''trait_index'' k ''proficiency_index'') xs3"
    using rr[of "''trait_proficiencies''"] k by (simp add: i xs1 xs2 xs3)
  show ?thesis using k xs1(1) xs2(1) xs3(1) r1 r2 r3 by blast
qed

lemma condition_loop_completes:
  "snd (insert_condition_immunities idx cs processed) = Inr ()
   \<Longrightarrow> \<forall>c \<in> set cs. \<not> nullish c"
proof (induction cs arbitrary: processed)
  case Nil
  show ?case by simp
next
  case (Cons c cs)
  from Cons.prems obtain ci where r: "read c ''index'' = Inr ci"
    and b: "snd (if \<not> Set_has processed ci
                 then bindA (queryAsync
                     (InsertValues ''monster_condition_immunities''
                        [''monster_index'', ''condition_index''])
                     (JArr [idx, ci]))
                   (\<lambda>u. insert_condition_immunities idx cs (processed @ [ci]))
                 else insert_condition_immunities idx cs processed) = Inr ()"
    by (auto simp: bindA_completes evaluate_def simp del: bindA_queryAsync)
  from b have "\<exists>p. snd (insert_condition_immunities idx cs p) = Inr ()"
    by (auto split: if_splits)
  with Cons.IH have "\<forall>c \<in> set cs. \<not> nullish c" by blast
  with r show ?case by (simp add: read_Inr_iff)
qed

lemma monster_proficiency_entry:
  assumes "snd (insert_monster_proficiency idx prof) = Inr ()"
  shows "fst (insert_monster_proficiency idx prof)
         = [(InsertSet ''monster_proficiencies'',
             JObj [(''monster_index'', idx),
                   (''proficiency_index'', field (field prof ''proficiency'') ''index''),
                   (''value'', field prof ''value'')])]"
  using assms
  by (auto simp: insert_monster_proficiency_def bindA_completes evaluate_def bindE_Inr_iff
        read_Inr_iff queryAsync_def)

lemma prepare_monster_proficiency:
  assumes "not_rejected (prepare (InsertSet ''monster_proficiencies'')
             (JObj [(''monster_index'', idx), (''proficiency_index'', pi), (''value'', v)]))"
    and "escape False idx = Some k"
  shows "prepare (InsertSet ''monster_proficiencies'')
             (JObj [(''monster_index'', idx), (''proficiency_index'', pi), (''value'', v)])
         = Insert ''monster_proficiencies''
             [(''monster_index'', k), (''proficiency_index'', the (escape True pi)),
              (''value'', the (escape True v))]"
  using assms escape_flag[OF assms(2)]
  by (auto simp: checked_def bind_values_def split: if_splits option.splits)

lemma inserted_map_Insert:
  "inserted t' (map (\<lambda>x. Insert t (f x)) xs) = (if t' = t then map f xs else [])"
  by (induction xs) auto

lemma monster_children:
  assumes run: "run (monster_transaction detailData) d = Inr d'"
  shows "\<exists>k ps cs.
           escape False (field detailData ''index'') = Some k \<and> k \<noteq> SqlNull
         \<and> for_of (field detailData ''proficiencies'') = Inr ps
         \<and> for_of (field detailData ''condition_immunities'') = Inr cs
         \<and> d' ''monster_proficiencies''
             = filter (\<lambda>x. cell x ''monster_index'' \<noteq> k) (d ''monster_proficiencies'')
               @ map (monster_proficiency_row k) ps
         \<and> (list_all (\<lambda>c. is_string (field c ''index'')) cs \<longrightarrow>
              d' ''monster_condition_immunities''
              = filter (\<lambda>x. cell x ''monster_index'' \<noteq> k) (d ''monster_condition_immunities'')
                @ map (link_row ''monster_index'' k ''condition_index'')
                    (first_seen (\<lambda>c. field c ''index'') cs))"
proof -
  let ?m = "monster_transaction detailData"
  let ?idx = "field detailData ''index''"
  have tabs: "\<forall>t \<in> set [''monster_proficiencies'', ''monster_condition_immunities''].
                \<not> parent_table t \<and> map_of schema t \<noteq> None"
    by (simp add: table_facts)
  note rr = replaces_run[OF monster_transaction_replaces tabs run]
  from rr[of "''monster_proficiencies''"] obtain k
    where k: "escape False ?idx = Some k" "k \<noteq> SqlNull" by auto
  from run have s: "snd ?m = Inr ()" and ro: "run_operations (prepared (fst ?m)) d = Inr d'"
    by (auto simp: run_Inr_iff run_queries_prepared)
  obtain newRecord where rec: "monsterRecord detailData = Inr newRecord"
    by (cases "monsterRecord detailData") (use s in \<open>simp_all add: monster_transaction_def\<close>)
  let ?rest = "bindA (evaluate (for_of (field detailData ''proficiencies''))) (\<lambda>proficiencies.
     bindA (forA (insert_monster_proficiency ?idx) proficiencies) (\<lambda>u.
     bindA (evaluate (for_of (field detailData ''condition_immunities'')))
       (\<lambda>condition_immunities. insert_condition_immunities ?idx condition_immunities [])))"
  have sm: "snd ?m = snd ?rest"
    by (simp add: monster_transaction_def rec)
  with s obtain ps cs where ps: "for_of (field detailData ''proficiencies'') = Inr ps"
    and cs: "for_of (field detailData ''condition_immunities'') = Inr cs"
    and c: "snd (forA (insert_monster_proficiency ?idx) ps) = Inr ()"
      "snd (insert_condition_immunities ?idx cs []) = Inr ()"
    by (auto simp: bindA_completes evaluate_def)
  let ?L1 = "forA (insert_monster_proficiency ?idx) ps"
  let ?L2 = "insert_condition_immunities ?idx cs []"
  have f: "fst ?m = (monsterQuery, Object_values newRecord)
             # (DeleteWhere ''monster_proficiencies'' ''monster_index'', JArr [?idx])
             # (DeleteWhere ''monster_condition_immunities'' ''monster_index'', JArr [?idx])
             # fst ?L1 @ fst ?L2"
    using c by (simp add: monster_transaction_def rec ps cs fst_bindA)
  have nr: "list_all not_rejected (prepared (fst ?m))"
    using ro by (rule no_rejected)
  then have nrs: "list_all not_rejected (prepared (fst ?L1))"
    "list_all not_rejected (prepared (fst ?L2))"
    unfolding f by (simp_all add: prepared_def del: prepare.simps)
  have i: "inserted t (prepared (fst ?m))
           = inserted t (prepared (fst ?L1)) @ inserted t (prepared (fst ?L2))" for t
    unfolding f monsterQuery_def by (simp add: prepared_def del: prepare.simps)
  have l1: "fst ?L1 = map (\<lambda>prof. (InsertSet ''monster_proficiencies'',
             JObj [(''monster_index'', ?idx),
                   (''proficiency_index'', field (field prof ''proficiency'') ''index''),
                   (''value'', field prof ''value'')])) ps"
  proof -
    have "fst ?L1 = concat (map (\<lambda>x. fst (insert_monster_proficiency ?idx x)) ps)"
      using c(1) by (rule forA_entries)
    also have "\<dots> = concat (map (\<lambda>prof. [(InsertSet ''monster_proficiencies'',
             JObj [(''monster_index'', ?idx),
                   (''proficiency_index'', field (field prof ''proficiency'') ''index''),
                   (''value'', field prof ''value'')])]) ps)"
      using forA_completes[OF c(1)]
      by (intro arg_cong[where f = concat] map_cong) (auto simp: monster_proficiency_entry)
    also have "\<dots> = map (\<lambda>prof. (InsertSet ''monster_proficiencies'',
             JObj [(''monster_index'', ?idx),
                   (''proficiency_index'', field (field prof ''proficiency'') ''index''),
                   (''value'', field prof ''value'')])) ps"
      by (induction ps) auto
    finally show ?thesis .
  qed
  have p1: "prepared (fst ?L1) = map (\<lambda>prof. Insert ''monster_proficiencies''
                                              (monster_proficiency_row k prof)) ps"
    using nrs(1) unfolding l1 prepared_def
    by (auto simp: list_all_iff monster_proficiency_row_def prepare_monster_proficiency[OF _ k(1)]
             simp del: prepare.simps)
  have i1: "inserted t (prepared (fst ?L1))
            = (if t = ''monster_proficiencies'' then map (monster_proficiency_row k) ps else [])" for t
    unfolding p1 by (rule inserted_map_Insert)
  have i2: "inserted ''monster_proficiencies'' (prepared (fst ?L2)) = []"
  proof -
    have "list_all (child_insert [(''monster_condition_immunities'', ''monster_index'', k)])
            (prepared (fst ?L2))"
      using insert_condition_immunities_child[OF k, of "[(''monster_condition_immunities'', ''monster_index'', k)]" cs "[]"]
      by (simp add: awaits_def prepared_def list_all_iff split_def)
    from child_inserts_only[OF this nrs(2), of "''monster_proficiencies''"]
    show ?thesis by (cases "inserted ''monster_proficiencies'' (prepared (fst ?L2))") auto
  qed
  have r1: "d' ''monster_proficiencies''
             = filter (\<lambda>x. cell x ''monster_index'' \<noteq> k) (d ''monster_proficiencies'')
               @ map (monster_proficiency_row k) ps"
    using rr[of "''monster_proficiencies''"] k by (simp add: i i1 i2)
  have r2: "d' ''monster_condition_immunities''
              = filter (\<lambda>x. cell x ''monster_index'' \<noteq> k) (d ''monster_condition_immunities'')
                @ map (link_row ''monster_index'' k ''condition_index'')
                    (first_seen (\<lambda>c. field c ''index'') cs)"
    if str: "list_all (\<lambda>c. is_string (field c ''index'')) cs"
  proof -
    from condition_loop_completes[OF c(2)] str
    have h: "\<forall>c \<in> set cs. \<not> nullish c \<and> is_string (field c ''index'')"
      by (simp add: list_all_iff)
    have l2: "fst ?L2 = map (\<lambda>c. (InsertValues ''monster_condition_immunities''
                          [''monster_index'', ''condition_index''],
                        JArr [?idx, field c ''index'']))
                (first_seen (\<lambda>c. field c ''index'') cs)"
      by (simp add: insert_condition_immunities_script[OF h] first_seen_def)
    have p2: "prepared (fst ?L2)
              = map (\<lambda>c. Insert ''monster_condition_immunities''
                            (link_row ''monster_index'' k ''condition_index'' c))
                    (first_seen (\<lambda>c. field c ''index'') cs)"
      using nrs(2) unfolding l2 prepared_def
      by (auto simp: list_all_iff link_row_def prepare_link[OF _ k(1)] simp del: prepare.simps)
    have "inserted ''monster_condition_immunities'' (prepared (fst ?L2))
          = map (link_row ''monster_index'' k ''condition_index'')
                (first_seen (\<lambda>c. field c ''index'') cs)"
      unfolding p2 by (simp add: inserted_map_Insert)
    then show ?thesis
      using rr[of "''monster_condition_immunities''"] k by (simp add: i i1)
  qed
  show ?thesis using k ps cs r1 r2 by blast
qed

lemma prepare_set:
  assumes "not_rejected (prepare (InsertSet t) (JObj kvs))"
  shows "prepare (InsertSet t) (JObj kvs) = Insert t (set_row kvs)"
proof -
  have z: "zip (map fst kvs) (map ((\<lambda>v. the (escape True v)) \<circ> snd) kvs) = set_row kvs"
    unfolding set_row_def by (induction kvs) auto
  from assms show ?thesis
    by (auto simp: checked_def bind_values_def z split: if_splits option.splits)
qed

lemma prepare_values:
  assumes "not_rejected (prepare (InsertValues t cols) (JArr vals))"
  shows "prepare (InsertValues t cols) (JArr vals) = Insert t (values_row cols vals)"
  using assms
  by (auto simp: checked_def bind_values_def values_row_def split: if_splits option.splits)

lemma concat_singletons: "concat (map (\<lambda>x. [f x]) xs) = map f xs"
  by (induction xs) auto

lemma set_loop_rows:
  assumes b: "\<And>x. body x = bindA (evaluate (rec x)) (\<lambda>r. queryAsync (InsertSet T) (JObj r))"
    and c: "snd (forA body xs) = Inr ()"
    and nr: "list_all not_rejected (prepared (fst (forA body xs)))"
  shows "inserted t (prepared (fst (forA body xs)))
         = (if t = T then map (\<lambda>x. set_row (projr (rec x))) xs else [])"
proof -
  have e: "fst (body x) = [(InsertSet T, JObj (projr (rec x)))]" if "x \<in> set xs" for x
  proof -
    from forA_completes[OF c] that have "snd (body x) = Inr ()" by blast
    then obtain r where "rec x = Inr r"
      by (auto simp: b bindA_completes evaluate_def)
    then show ?thesis by (simp add: b queryAsync_def)
  qed
  have "fst (forA body xs) = concat (map (\<lambda>x. fst (body x)) xs)"
    using c by (rule forA_entries)
  also have "\<dots> = concat (map (\<lambda>x. [(InsertSet T, JObj (projr (rec x)))]) xs)"
    using e by (intro arg_cong[where f = concat] map_cong) auto
  finally have f: "fst (forA body xs) = map (\<lambda>x. (InsertSet T, JObj (projr (rec x)))) xs"
    by (simp add: concat_singletons)
  have p: "prepared (fst (forA body xs)) = map (\<lambda>x. Insert T (set_row (projr (rec x)))) xs"
    using nr unfolding f prepared_def
    by (auto simp: list_all_iff prepare_set simp del: prepare.simps)
  show ?thesis unfolding p by (rule inserted_map_Insert)
qed

lemma values_loop_rows:
  assumes e: "\<And>x. x \<in> set xs \<Longrightarrow> snd (body x) = Inr ()
                \<Longrightarrow> fst (body x) = (if keep x then [(InsertValues T cols, JArr (vals x))] else [])"
    and c: "snd (forA body xs) = Inr ()"
    and nr: "list_all not_rejected (prepared (fst (forA body xs)))"
  shows "inserted t (prepared (fst (forA body xs)))
         = (if t = T then map (\<lambda>x. values_row cols (vals x)) (filter keep xs) else [])"
proof -
  have "fst (forA body xs) = concat (map (\<lambda>x. fst (body x)) xs)"
    using c by (rule forA_entries)
  also have "\<dots> = concat (map (\<lambda>x. if keep x then [(InsertValues T cols, JArr (vals x))] else []) xs)"
    using e forA_completes[OF c] by (intro arg_cong[where f = concat] map_cong) auto
  also have "\<dots> = map (\<lambda>x. (InsertValues T cols, JArr (vals x))) (filter keep xs)"
    by (induction xs) auto
  finally have f: "fst (forA body xs)
                   = map (\<lambda>x. (InsertValues T cols, JArr (vals x))) (filter keep xs)" .
  have p: "prepared (fst (forA body xs))
           = map (\<lambda>x. Insert T (values_row cols (vals x))) (filter keep xs)"
    using nr unfolding f prepared_def
    by (auto simp: list_all_iff prepare_values simp del: prepare.simps)
  show ?thesis unfolding p by (rule inserted_map_Insert)
qed

lemma class_spell_entry:
  assumes "snd (insert_class_spell idx spell) = Inr ()"
  shows "fst (insert_class_spell idx spell)
         = (if True then [(InsertValues ''class_spells''
                             [''class_index'', ''spell_index'', ''level_acquired''],
                           JArr [idx, field spell ''index'', field spell ''level''])] else [])"
  using assms
  by (auto simp: insert_class_spell_def bindA_completes evaluate_def read_Inr_iff queryAsync_def)

lemma starting_equipment_entry:
  assumes "snd (insert_starting_equipment idx item) = Inr ()"
  shows "fst (insert_starting_equipment idx item)
         = (if has_equipment item
            then [(InsertValues ''class_starting_equipment''
                     [''class_index'', ''equipment_index'', ''quantity''],
                   JArr [idx, field (field item ''equipment'') ''index'', field item ''quantity''])]
            else [])"
  using assms
  by (auto simp: insert_starting_equipment_def has_equipment_def bindA_completes evaluate_def
        read_Inr_iff queryAsync_def)

lemma class_children:
  assumes run: "run (class_transaction (detailData, levelsData, spellsData)) d = Inr d'"
  shows "\<exists>k levels choices items options.
           escape False (field detailData ''index'') = Some k \<and> k \<noteq> SqlNull
         \<and> for_of levelsData = Inr levels
         \<and> entries (field detailData ''proficiency_choices'') = Inr choices
         \<and> for_of (field detailData ''starting_equipment'') = Inr items
         \<and> entries (field detailData ''starting_equipment_options'') = Inr options
         \<and> d' ''class_levels''
             = filter (\<lambda>x. cell x ''class_index'' \<noteq> k) (d ''class_levels'')
               @ map (\<lambda>level. set_row (projr (levelRecord (field detailData ''index'') level)))
                     levels
         \<and> d' ''class_spells''
             = filter (\<lambda>x. cell x ''class_index'' \<noteq> k) (d ''class_spells'')
               @ map (\<lambda>spell. values_row [''class_index'', ''spell_index'', ''level_acquired'']
                                 [field detailData ''index'', field spell ''index'',
                                  field spell ''level''])
                     (array_items spellsData)
         \<and> d' ''class_proficiency_choices''
             = filter (\<lambda>x. cell x ''class_index'' \<noteq> k) (d ''class_proficiency_choices'')
               @ map (\<lambda>entry. set_row (projr (proficiency_choiceRecord
                                                  (field detailData ''index'') entry)))
                     choices
         \<and> d' ''class_starting_equipment''
             = filter (\<lambda>x. cell x ''class_index'' \<noteq> k) (d ''class_starting_equipment'')
               @ map (\<lambda>item. values_row [''class_index'', ''equipment_index'', ''quantity'']
                                [field detailData ''index'',
                                 field (field item ''equipment'') ''index'',
                                 field item ''quantity''])
                     (filter has_equipment items)
         \<and> d' ''class_starting_equipment_options''
             = filter (\<lambda>x. cell x ''class_index'' \<noteq> k) (d ''class_starting_equipment_options'')
               @ map (\<lambda>entry. set_row (projr (equipment_optionRecord
                                                  (field detailData ''index'') entry)))
                     options"
proof -
  let ?m = "class_transaction (detailData, levelsData, spellsData)"
  let ?idx = "field detailData ''index''"
  have tabs: "\<forall>t \<in> set [''class_levels'', ''class_spells'', ''class_proficiency_choices'',
                          ''class_starting_equipment'', ''class_starting_equipment_options''].
                \<not> parent_table t \<and> map_of schema t \<noteq> None"
    by (simp add: table_facts)
  note rr = replaces_run[OF class_transaction_replaces tabs run]
  from rr[of "''class_levels''"] obtain k
    where k: "escape False ?idx = Some k" "k \<noteq> SqlNull" by auto
  from run have s: "snd ?m = Inr ()" and ro: "run_operations (prepared (fst ?m)) d = Inr d'"
    by (auto simp: run_Inr_iff run_queries_prepared)
  obtain newRecord where rec: "classRecord detailData = Inr newRecord"
    by (cases "classRecord detailData") (use s in \<open>simp_all add: class_transaction_def\<close>)
  have sp: "(case spellsData of
              JArr spells \<Rightarrow> forA (insert_class_spell ?idx) spells
            | _ \<Rightarrow> ([], Inr ())) = forA (insert_class_spell ?idx) (array_items spellsData)"
    by (cases spellsData) (simp_all add: array_items_def)
  let ?rest = "bindA (evaluate (for_of levelsData)) (\<lambda>levels.
     bindA (forA (insert_class_level ?idx) levels) (\<lambda>u.
     bindA (forA (insert_class_spell ?idx) (array_items spellsData)) (\<lambda>u.
     bindA (evaluate (entries (field detailData ''proficiency_choices''))) (\<lambda>choices.
     bindA (forA (insert_proficiency_choice ?idx) choices) (\<lambda>u.
     bindA (evaluate (for_of (field detailData ''starting_equipment''))) (\<lambda>items.
     bindA (forA (insert_starting_equipment ?idx) items) (\<lambda>u.
     bindA (evaluate (entries (field detailData ''starting_equipment_options'')))
       (\<lambda>equipment_options.
     forA (insert_starting_equipment_option ?idx) equipment_options))))))))"
  have sm: "snd ?m = snd ?rest"
    by (simp add: class_transaction_def rec sp)
  with s obtain levels choices items options
    where ev: "for_of levelsData = Inr levels"
      "entries (field detailData ''proficiency_choices'') = Inr choices"
      "for_of (field detailData ''starting_equipment'') = Inr items"
      "entries (field detailData ''starting_equipment_options'') = Inr options"
    and c: "snd (forA (insert_class_level ?idx) levels) = Inr ()"
      "snd (forA (insert_class_spell ?idx) (array_items spellsData)) = Inr ()"
      "snd (forA (insert_proficiency_choice ?idx) choices) = Inr ()"
      "snd (forA (insert_starting_equipment ?idx) items) = Inr ()"
      "snd (forA (insert_starting_equipment_option ?idx) options) = Inr ()"
    by (auto simp: bindA_completes evaluate_def)
  let ?L1 = "forA (insert_class_level ?idx) levels"
  let ?L2 = "forA (insert_class_spell ?idx) (array_items spellsData)"
  let ?L3 = "forA (insert_proficiency_choice ?idx) choices"
  let ?L4 = "forA (insert_starting_equipment ?idx) items"
  let ?L5 = "forA (insert_starting_equipment_option ?idx) options"
  let ?R = "bindA ?L1 (\<lambda>u. bindA ?L2 (\<lambda>u. bindA ?L3 (\<lambda>u. bindA ?L4 (\<lambda>u. ?L5))))"
  have fm: "fst ?m = (classQuery, Object_values newRecord)
             # (DeleteWhere ''class_levels'' ''class_index'', JArr [?idx])
             # (DeleteWhere ''class_spells'' ''class_index'', JArr [?idx])
             # (DeleteWhere ''class_proficiency_choices'' ''class_index'', JArr [?idx])
             # (DeleteWhere ''class_starting_equipment'' ''class_index'', JArr [?idx])
             # (DeleteWhere ''class_starting_equipment_options'' ''class_index'', JArr [?idx])
             # fst ?R"
    by (simp add: class_transaction_def rec sp ev)
  have fr: "fst ?R = fst ?L1 @ fst ?L2 @ fst ?L3 @ fst ?L4 @ fst ?L5"
    using c by (simp add: fst_bindA)
  note f = fm[unfolded fr]
  have nr: "list_all not_rejected (prepared (fst ?m))"
    using ro by (rule no_rejected)
  then have nrs: "list_all not_rejected (prepared (fst ?L1))"
    "list_all not_rejected (prepared (fst ?L2))" "list_all not_rejected (prepared (fst ?L3))"
    "list_all not_rejected (prepared (fst ?L4))" "list_all not_rejected (prepared (fst ?L5))"
    unfolding f by (simp_all add: prepared_def del: prepare.simps)
  have i: "inserted t (prepared (fst ?m))
           = inserted t (prepared (fst ?L1)) @ inserted t (prepared (fst ?L2))
             @ inserted t (prepared (fst ?L3)) @ inserted t (prepared (fst ?L4))
             @ inserted t (prepared (fst ?L5))" for t
    unfolding f classQuery_def by (simp add: prepared_def del: prepare.simps)
  have i1: "inserted t (prepared (fst ?L1))
            = (if t = ''class_levels''
               then map (\<lambda>level. set_row (projr (levelRecord ?idx level))) levels else [])" for t
    using c(1) nrs(1) by (intro set_loop_rows) (simp add: insert_class_level_def)
  have i2: "inserted t (prepared (fst ?L2))
            = (if t = ''class_spells''
               then map (\<lambda>spell. values_row [''class_index'', ''spell_index'', ''level_acquired'']
                                 [?idx, field spell ''index'', field spell ''level''])
                     (filter (\<lambda>x. True) (array_items spellsData)) else [])" for t
    using c(2) nrs(2) by (intro values_loop_rows) (simp add: class_spell_entry)
  have i3: "inserted t (prepared (fst ?L3))
            = (if t = ''class_proficiency_choices''
               then map (\<lambda>entry. set_row (projr (proficiency_choiceRecord ?idx entry))) choices
               else [])" for t
    using c(3) nrs(3) by (intro set_loop_rows) (simp add: insert_proficiency_choice_def)
  have i4: "inserted t (prepared (fst ?L4))
            = (if t = ''class_starting_equipment''
               then map (\<lambda>item. values_row [''class_index'', ''equipment_index'', ''quantity'']
                                [?idx, field (field item ''equipment'') ''index'',
                                 field item ''quantity''])
                     (filter has_equipment items) else [])" for t
    using c(4) nrs(4) by (intro values_loop_rows) (simp add: starting_equipment_entry)
  have i5: "inserted t (prepared (fst ?L5))
            = (if t = ''class_starting_equipment_options''
               then map (\<lambda>entry. set_row (projr (equipment_optionRecord ?idx entry))) options
               else [])" for t
    using c(5) nrs(5) by (intro set_loop_rows) (simp add: insert_starting_equipment_option_def)
  note ii = i i1 i2 i3 i4 i5
  have r1: "d' ''class_levels''
             = filter (\<lambda>x. cell x ''class_index'' \<noteq> k) (d ''class_levels'')
               @ map (\<lambda>level. set_row (projr (levelRecord ?idx level))) levels"
    using rr[of "''class_levels''"] k by (simp add: ii)
  have r2: "d' ''class_spells''
             = filter (\<lambda>x. cell x ''class_index'' \<noteq> k) (d ''class_spells'')
               @ map (\<lambda>spell. values_row [''class_index'', ''spell_index'', ''level_acquired'']
                                 [?idx, field spell ''index'', field spell ''level''])
                     (array_items spellsData)"
    using rr[of "''class_spells''"] k by (simp add: ii)
  have r3: "d' ''class_proficiency_choices''
             = filter (\<lambda>x. cell x ''class_index'' \<noteq> k) (d ''class_proficiency_choices'')
               @ map (\<lambda>entry. set_row (projr (proficiency_choiceRecord ?idx entry))) choices"
    using rr[of "''class_proficiency_choices''"] k by (simp add: ii)
  have r4: "d' ''class_starting_equipment''
             = filter (\<lambda>x. cell x ''class_index'' \<noteq> k) (d ''class_starting_equipment'')
               @ map (\<lambda>item. values_row [''class_index'', ''equipment_index'', ''quantity'']
                                [?idx, field (field item ''equipment'') ''index'',
                                 field item ''quantity''])
                     (filter has_equipment items)"
    using rr[of "''class_starting_equipment''"] k by (simp add: ii)
  have r5: "d' ''class_starting_equipment_options''
             = filter (\<lambda>x. cell x ''class_index'' \<noteq> k) (d ''class_starting_equipment_options'')
               @ map (\<lambda>entry. set_row (projr (equipment_optionRecord ?idx entry))) options"
    using rr[of "''class_starting_equipment_options''"] k by (simp add: ii)
  show ?thesis using k ev r1 r2 r3 r4 r5 by blast
qed

lemma subclass_spells_entries:
  assumes "snd (insert_subclass_spells idx spells processed) = Inr ()"
    and "\<forall>s \<in> set spells. is_string (spell_index s)"
  shows "fst (insert_subclass_spells idx spells processed)
         = map (\<lambda>spell. (InsertSet ''subclass_spells'', JObj (subclass_spellRecord idx spell)))
               (skip_seen spell_index processed spells)"
  using assms
proof (induction spells arbitrary: processed)
  case Nil
  show ?case by simp
next
  case (Cons spell spells)
  from Cons.prems(2) have str: "is_string (spell_index spell)" by simp
  from Cons.prems(1) obtain si where p: "path spell [''spell'', ''index''] = Inr si"
    and b: "snd (if \<not> Set_has processed si
       then bindA (evaluate (map_method (field spell ''prerequisites'') (\<lambda>p. read p ''index'')))
              (\<lambda>prerequisites.
            bindA (queryAsync (InsertSet ''subclass_spells'')
                     (JObj [(''subclass_index'', idx), (''spell_index'', si),
                            (''prerequisites'', JSON_stringify prerequisites)]))
              (\<lambda>u. insert_subclass_spells idx spells (processed @ [si])))
       else insert_subclass_spells idx spells processed) = Inr ()"
    by (auto simp: bindA_completes evaluate_def simp del: bindA_queryAsync path.simps)
  from p have si: "si = spell_index spell"
    by (auto simp: spell_index_def bindE_Inr_iff read_Inr_iff)
  show ?case
  proof (cases "Set_has processed si")
    case True
    with b have "snd (insert_subclass_spells idx spells processed) = Inr ()" by simp
    from Cons.IH[OF this] Cons.prems(2) True str show ?thesis
      by (simp add: p si[symmetric] Set_has_string del: path.simps)
  next
    case False
    with b obtain pr where pr: "prerequisites spell = Inr pr"
      and r: "snd (insert_subclass_spells idx spells (processed @ [si])) = Inr ()"
      by (auto simp: bindA_completes evaluate_def prerequisites_def simp del: bindA_queryAsync)
    from pr have q: "map_method (field spell ''prerequisites'') (\<lambda>p. read p ''index'') = Inr pr"
      by (simp add: prerequisites_def)
    from Cons.IH[OF r] Cons.prems(2) False str show ?thesis
      by (simp add: p q pr si[symmetric] Set_has_string subclass_spellRecord_def del: path.simps)
  qed
qed

lemma subclass_children:
  assumes run: "run (subclass_transaction (detailData, levelsData)) d = Inr d'"
  shows "\<exists>k levels.
           escape False (field detailData ''index'') = Some k \<and> k \<noteq> SqlNull
         \<and> for_of levelsData = Inr levels
         \<and> d' ''subclass_levels''
             = filter (\<lambda>x. cell x ''subclass_index'' \<noteq> k) (d ''subclass_levels'')
               @ map (\<lambda>level. set_row (projr (subclass_levelRecord (field detailData ''index'')
                                                  level)))
                     levels
         \<and> (list_all (\<lambda>spell. is_string (spell_index spell)) (subclass_spells detailData) \<longrightarrow>
              d' ''subclass_spells''
              = filter (\<lambda>x. cell x ''subclass_index'' \<noteq> k) (d ''subclass_spells'')
                @ map (\<lambda>spell. set_row (subclass_spellRecord (field detailData ''index'') spell))
                      (first_seen spell_index (subclass_spells detailData)))"
proof -
  let ?m = "subclass_transaction (detailData, levelsData)"
  let ?idx = "field detailData ''index''"
  have tabs: "\<forall>t \<in> set [''subclass_levels'', ''subclass_spells''].
                \<not> parent_table t \<and> map_of schema t \<noteq> None"
    by (simp add: table_facts)
  note rr = replaces_run[OF subclass_transaction_replaces tabs run]
  from rr[of "''subclass_levels''"] obtain k
    where k: "escape False ?idx = Some k" "k \<noteq> SqlNull" by auto
  from run have s: "snd ?m = Inr ()" and ro: "run_operations (prepared (fst ?m)) d = Inr d'"
    by (auto simp: run_Inr_iff run_queries_prepared)
  obtain newRecord where rec: "subRecord detailData = Inr newRecord"
    by (cases "subRecord detailData") (use s in \<open>simp_all add: subclass_transaction_def\<close>)
  let ?tail = "if truthy (field detailData ''spells'')
     then bindA (evaluate (for_of (field detailData ''spells'')))
            (\<lambda>spells. insert_subclass_spells ?idx spells [])
     else ([], Inr ())"
  let ?rest = "bindA (evaluate (for_of levelsData)) (\<lambda>levels.
     bindA (forA (insert_subclass_level ?idx) levels) (\<lambda>u. ?tail))"
  have sm: "snd ?m = snd ?rest"
    by (simp add: subclass_transaction_def rec)
  with s obtain levels where ev: "for_of levelsData = Inr levels"
    and c1: "snd (forA (insert_subclass_level ?idx) levels) = Inr ()"
    and ct: "snd ?tail = Inr ()"
    by (auto simp: bindA_completes evaluate_def)
  let ?L1 = "forA (insert_subclass_level ?idx) levels"
  let ?L2 = "insert_subclass_spells ?idx (subclass_spells detailData) []"
  have tl: "?tail = ?L2"
  proof (cases "truthy (field detailData ''spells'')")
    case True
    with ct obtain spells where "for_of (field detailData ''spells'') = Inr spells"
      by (auto simp: bindA_completes evaluate_def)
    with True show ?thesis by (simp add: subclass_spells_def)
  next
    case False
    then show ?thesis by (simp add: subclass_spells_def)
  qed
  from ct have c2: "snd ?L2 = Inr ()" by (simp only: tl)
  have fm: "fst ?m = (subQuery, Object_values newRecord)
             # (DeleteWhere ''subclass_levels'' ''subclass_index'', JArr [?idx])
             # (DeleteWhere ''subclass_spells'' ''subclass_index'', JArr [?idx])
             # fst (bindA ?L1 (\<lambda>u. ?tail))"
    by (simp add: subclass_transaction_def rec ev)
  have fr: "fst (bindA ?L1 (\<lambda>u. ?tail)) = fst ?L1 @ fst ?L2"
    using c1 by (simp only: fst_bindA_completes tl)
  note f = fm[unfolded fr]
  have nr: "list_all not_rejected (prepared (fst ?m))"
    using ro by (rule no_rejected)
  then have nrs: "list_all not_rejected (prepared (fst ?L1))"
    "list_all not_rejected (prepared (fst ?L2))"
    unfolding f by (simp_all add: prepared_def del: prepare.simps)
  have i: "inserted t (prepared (fst ?m))
           = inserted t (prepared (fst ?L1)) @ inserted t (prepared (fst ?L2))" for t
    unfolding f subQuery_def by (simp add: prepared_def del: prepare.simps)
  have i1: "inserted t (prepared (fst ?L1))
            = (if t = ''subclass_levels''
               then map (\<lambda>level. set_row (projr (subclass_levelRecord ?idx level))) levels
               else [])" for t
    using c1 nrs(1) by (intro set_loop_rows) (simp add: insert_subclass_level_def)
  have i2: "inserted ''subclass_levels'' (prepared (fst ?L2)) = []"
  proof -
    have "list_all (child_insert [(''subclass_spells'', ''subclass_index'', k)])
            (prepared (fst ?L2))"
      using insert_subclass_spells_child[OF k, of "[(''subclass_spells'', ''subclass_index'', k)]"
               "subclass_spells detailData" "[]"]
      by (simp add: awaits_def prepared_def list_all_iff split_def)
    from child_inserts_only[OF this nrs(2), of "''subclass_levels''"]
    show ?thesis by (cases "inserted ''subclass_levels'' (prepared (fst ?L2))") auto
  qed
  have r1: "d' ''subclass_levels''
             = filter (\<lambda>x. cell x ''subclass_index'' \<noteq> k) (d ''subclass_levels'')
               @ map (\<lambda>level. set_row (projr (subclass_levelRecord ?idx level))) levels"
    using rr[of "''subclass_levels''"] k by (simp add: i i1 i2)
  have r2: "d' ''subclass_spells''
              = filter (\<lambda>x. cell x ''subclass_index'' \<noteq> k) (d ''subclass_spells'')
                @ map (\<lambda>spell. set_row (subclass_spellRecord ?idx spell))
                      (first_seen spell_index (subclass_spells detailData))"
    if str: "list_all (\<lambda>spell. is_string (spell_index spell)) (subclass_spells detailData)"
  proof -
    from str have h: "\<forall>s \<in> set (subclass_spells detailData). is_string (spell_index s)"
      by (simp add: list_all_iff)
    have l2: "fst ?L2 = map (\<lambda>spell. (InsertSet ''subclass_spells'',
                                     JObj (subclass_spellRecord ?idx spell)))
                (first_seen spell_index (subclass_spells detailData))"
      using subclass_spells_entries[OF c2 h] by (simp add: first_seen_def)
    have p2: "prepared (fst ?L2)
              = map (\<lambda>spell. Insert ''subclass_spells'' (set_row (subclass_spellRecord ?idx spell)))
                    (first_seen spell_index (subclass_spells detailData))"
      using nrs(2) unfolding l2 prepared_def
      by (auto simp: list_all_iff prepare_set simp del: prepare.simps)
    have "inserted ''subclass_spells'' (prepared (fst ?L2))
          = map (\<lambda>spell. set_row (subclass_spellRecord ?idx spell))
                (first_seen spell_index (subclass_spells detailData))"
      unfolding p2 by (simp add: inserted_map_Insert)
    then show ?thesis
      using rr[of "''subclass_spells''"] k by (simp add: i i1)
  qed
  show ?thesis using k ev r1 r2 by blast
qed

lemma children_rows:
  assumes r: "replaces m (field detailData ''index'') c ts"
    and tabs: "\<forall>t \<in> set ts. \<not> parent_table t \<and> map_of schema t \<noteq> None"
    and run: "run m d = Inr d'" and t: "t \<in> set ts"
    and rows: "\<And>k. escape False (field detailData ''index'') = Some k
                 \<Longrightarrow> d' t = filter (\<lambda>x. cell x c \<noteq> k) (d t) @ rows"
  shows "(DeleteWhere t c, JArr [field detailData ''index'']) \<in> set (fst m)
       \<and> escape False (field detailData ''index'') \<noteq> None
       \<and> parent_key detailData \<noteq> SqlNull
       \<and> d' t = filter (\<lambda>x. cell x c \<noteq> parent_key detailData) (d t) @ rows
       \<and> (\<forall>r \<in> set rows. cell r c = parent_key detailData)"
proof -
  from replaces_run[OF r tabs run t] obtain k
    where del: "(DeleteWhere t c, JArr [field detailData ''index'']) \<in> set (fst m)"
      and k: "escape False (field detailData ''index'') = Some k" "k \<noteq> SqlNull"
      and g: "d' t = filter (\<lambda>x. cell x c \<noteq> k) (d t) @ inserted t (prepared (fst m))"
      and a: "\<forall>r \<in> set (inserted t (prepared (fst m))). cell r c = k"
    by blast
  from rows[OF k(1)] g have "rows = inserted t (prepared (fst m))" by simp
  with a del k rows[OF k(1)] show ?thesis by (simp add: parent_key_def)
qed

lemma class_replaced:
  assumes tab: "(t, known, rows) \<in> set
         [(''class_levels'', True,
             map (\<lambda>level. set_row (projr (levelRecord (field detailData ''index'') level)))
                 (items_of levelsData)),
          (''class_spells'', True,
             map (\<lambda>spell. values_row [''class_index'', ''spell_index'', ''level_acquired'']
                              [field detailData ''index'', field spell ''index'',
                               field spell ''level''])
                 (array_items spellsData)),
          (''class_proficiency_choices'', True,
             map (\<lambda>entry. set_row (projr (proficiency_choiceRecord
                                             (field detailData ''index'') entry)))
                 (entries_of (field detailData ''proficiency_choices''))),
          (''class_starting_equipment'', True,
             map (\<lambda>item. values_row [''class_index'', ''equipment_index'', ''quantity'']
                             [field detailData ''index'',
                              field (field item ''equipment'') ''index'',
                              field item ''quantity''])
                 (filter has_equipment (items_of (field detailData ''starting_equipment'')))),
          (''class_starting_equipment_options'', True,
             map (\<lambda>entry. set_row (projr (equipment_optionRecord
                                             (field detailData ''index'') entry)))
                 (entries_of (field detailData ''starting_equipment_options'')))]"
    and known: "known" and run: "run (class_transaction (detailData, levelsData, spellsData)) d = Inr d'"
  shows "(DeleteWhere t ''class_index'', JArr [field detailData ''index'']) \<in> set (fst (class_transaction (detailData, levelsData, spellsData)))
       \<and> escape False (field detailData ''index'') \<noteq> None
       \<and> parent_key detailData \<noteq> SqlNull
       \<and> d' t = filter (\<lambda>x. cell x ''class_index'' \<noteq> parent_key detailData) (d t) @ rows
       \<and> (\<forall>r \<in> set rows. cell r ''class_index'' = parent_key detailData)"
proof (rule children_rows[OF class_transaction_replaces _ run])
  show "\<forall>t \<in> set [''class_levels'', ''class_spells'', ''class_proficiency_choices'', ''class_starting_equipment'', ''class_starting_equipment_options''].
          \<not> parent_table t \<and> map_of schema t \<noteq> None"
    by (simp add: table_facts)
  show "t \<in> set [''class_levels'', ''class_spells'', ''class_proficiency_choices'', ''class_starting_equipment'', ''class_starting_equipment_options'']"
    using tab by (auto simp: links_def)
next
  fix k assume "escape False (field detailData ''index'') = Some k"
  with class_children[OF run] tab known
  show "d' t = filter (\<lambda>x. cell x ''class_index'' \<noteq> k) (d t) @ rows"
    by (auto simp: links_def items_of_def entries_of_def parent_key_def)
qed

lemma monster_replaced:
  assumes tab: "(t, known, rows) \<in> set
         [(''monster_proficiencies'', True,
             map (monster_proficiency_row (parent_key detailData))
                 (items_of (field detailData ''proficiencies''))),
          (''monster_condition_immunities'',
             list_all (\<lambda>c. is_string (field c ''index''))
                      (items_of (field detailData ''condition_immunities'')),
             map (link_row ''monster_index'' (parent_key detailData) ''condition_index'')
                 (first_seen (\<lambda>c. field c ''index'')
                    (items_of (field detailData ''condition_immunities''))))]"
    and known: "known" and run: "run (monster_transaction detailData) d = Inr d'"
  shows "(DeleteWhere t ''monster_index'', JArr [field detailData ''index'']) \<in> set (fst (monster_transaction detailData))
       \<and> escape False (field detailData ''index'') \<noteq> None
       \<and> parent_key detailData \<noteq> SqlNull
       \<and> d' t = filter (\<lambda>x. cell x ''monster_index'' \<noteq> parent_key detailData) (d t) @ rows
       \<and> (\<forall>r \<in> set rows. cell r ''monster_index'' = parent_key detailData)"
proof (rule children_rows[OF monster_transaction_replaces _ run])
  show "\<forall>t \<in> set [''monster_proficiencies'', ''monster_condition_immunities''].
          \<not> parent_table t \<and> map_of schema t \<noteq> None"
    by (simp add: table_facts)
  show "t \<in> set [''monster_proficiencies'', ''monster_condition_immunities'']"
    using tab by (auto simp: links_def)
next
  fix k assume "escape False (field detailData ''index'') = Some k"
  with monster_children[OF run] tab known
  show "d' t = filter (\<lambda>x. cell x ''monster_index'' \<noteq> k) (d t) @ rows"
    by (auto simp: links_def items_of_def entries_of_def parent_key_def)
qed

lemma proficiency_replaced:
  assumes tab: "(t, known, rows) \<in> set
         [links detailData ''proficiency_classes'' ''proficiency_index'' ''class_index'' ''classes'',
          links detailData ''proficiency_races'' ''proficiency_index'' ''race_index'' ''races'']"
    and known: "known" and run: "run (proficiency_transaction detailData) d = Inr d'"
  shows "(DeleteWhere t ''proficiency_index'', JArr [field detailData ''index'']) \<in> set (fst (proficiency_transaction detailData))
       \<and> escape False (field detailData ''index'') \<noteq> None
       \<and> parent_key detailData \<noteq> SqlNull
       \<and> d' t = filter (\<lambda>x. cell x ''proficiency_index'' \<noteq> parent_key detailData) (d t) @ rows
       \<and> (\<forall>r \<in> set rows. cell r ''proficiency_index'' = parent_key detailData)"
proof (rule children_rows[OF proficiency_transaction_replaces _ run])
  show "\<forall>t \<in> set [''proficiency_classes'', ''proficiency_races''].
          \<not> parent_table t \<and> map_of schema t \<noteq> None"
    by (simp add: table_facts)
  show "t \<in> set [''proficiency_classes'', ''proficiency_races'']"
    using tab by (auto simp: links_def)
next
  fix k assume "escape False (field detailData ''index'') = Some k"
  with proficiency_children[OF run] tab known
  show "d' t = filter (\<lambda>x. cell x ''proficiency_index'' \<noteq> k) (d t) @ rows"
    by (auto simp: links_def items_of_def entries_of_def parent_key_def)
qed

lemma race_replaced:
  assumes tab: "(t, known, rows) \<in> set
         [links detailData ''race_proficiencies'' ''race_index'' ''proficiency_index''
            ''starting_proficiencies'',
          links detailData ''race_languages'' ''race_index'' ''language_index'' ''languages'',
          links detailData ''race_traits'' ''race_index'' ''trait_index'' ''traits'']"
    and known: "known" and run: "run (race_transaction detailData) d = Inr d'"
  shows "(DeleteWhere t ''race_index'', JArr [field detailData ''index'']) \<in> set (fst (race_transaction detailData))
       \<and> escape False (field detailData ''index'') \<noteq> None
       \<and> parent_key detailData \<noteq> SqlNull
       \<and> d' t = filter (\<lambda>x. cell x ''race_index'' \<noteq> parent_key detailData) (d t) @ rows
       \<and> (\<forall>r \<in> set rows. cell r ''race_index'' = parent_key detailData)"
proof (rule children_rows[OF race_transaction_replaces _ run])
  show "\<forall>t \<in> set [''race_proficiencies'', ''race_languages'', ''race_traits''].
          \<not> parent_table t \<and> map_of schema t \<noteq> None"
    by (simp add: table_facts)
  show "t \<in> set [''race_proficiencies'', ''race_languages'', ''race_traits'']"
    using tab by (auto simp: links_def)
next
  fix k assume "escape False (field detailData ''index'') = Some k"
  with race_children[OF run] tab known
  show "d' t = filter (\<lambda>x. cell x ''race_index'' \<noteq> k) (d t) @ rows"
    by (auto simp: links_def items_of_def entries_of_def parent_key_def)
qed

lemma spell_replaced:
  assumes tab: "(t, known, rows) \<in> set
         [links detailData ''spell_classes'' ''spell_index'' ''class_index'' ''classes'',
          links detailData ''spell_subclasses'' ''spell_index'' ''subclass_index'' ''subclasses'']"
    and known: "known" and run: "run (spell_transaction detailData) d = Inr d'"
  shows "(DeleteWhere t ''spell_index'', JArr [field detailData ''index'']) \<in> set (fst (spell_transaction detailData))
       \<and> escape False (field detailData ''index'') \<noteq> None
       \<and> parent_key detailData \<noteq> SqlNull
       \<and> d' t = filter (\<lambda>x. cell x ''spell_index'' \<noteq> parent_key detailData) (d t) @ rows
       \<and> (\<forall>r \<in> set rows. cell r ''spell_index'' = parent_key detailData)"
proof (rule children_rows[OF spell_transaction_replaces _ run])
  show "\<forall>t \<in> set [''spell_classes'', ''spell_subclasses''].
          \<not> parent_table t \<and> map_of schema t \<noteq> None"
    by (simp add: table_facts)
  show "t \<in> set [''spell_classes'', ''spell_subclasses'']"
    using tab by (auto simp: links_def)
next
  fix k assume "escape False (field detailData ''index'') = Some k"
  with spell_children[OF run] tab known
  show "d' t = filter (\<lambda>x. cell x ''spell_index'' \<noteq> k) (d t) @ rows"
    by (auto simp: links_def items_of_def entries_of_def parent_key_def)
qed

lemma subclass_replaced:
  assumes tab: "(t, known, rows) \<in> set
         [(''subclass_levels'', True,
             map (\<lambda>level. set_row (projr (subclass_levelRecord (field detailData ''index'')
                                             level)))
                 (items_of levelsData)),
          (''subclass_spells'',
             list_all (\<lambda>spell. is_string (spell_index spell)) (subclass_spells detailData),
             map (\<lambda>spell. set_row (subclass_spellRecord (field detailData ''index'') spell))
                 (first_seen spell_index (subclass_spells detailData)))]"
    and known: "known" and run: "run (subclass_transaction (detailData, levelsData)) d = Inr d'"
  shows "(DeleteWhere t ''subclass_index'', JArr [field detailData ''index'']) \<in> set (fst (subclass_transaction (detailData, levelsData)))
       \<and> escape False (field detailData ''index'') \<noteq> None
       \<and> parent_key detailData \<noteq> SqlNull
       \<and> d' t = filter (\<lambda>x. cell x ''subclass_index'' \<noteq> parent_key detailData) (d t) @ rows
       \<and> (\<forall>r \<in> set rows. cell r ''subclass_index'' = parent_key detailData)"
proof (rule children_rows[OF subclass_transaction_replaces _ run])
  show "\<forall>t \<in> set [''subclass_levels'', ''subclass_spells''].
          \<not> parent_table t \<and> map_of schema t \<noteq> None"
    by (simp add: table_facts)
  show "t \<in> set [''subclass_levels'', ''subclass_spells'']"
    using tab by (auto simp: links_def)
next
  fix k assume "escape False (field detailData ''index'') = Some k"
  with subclass_children[OF run] tab known
  show "d' t = filter (\<lambda>x. cell x ''subclass_index'' \<noteq> k) (d t) @ rows"
    by (auto simp: links_def items_of_def entries_of_def parent_key_def)
qed

lemma trait_replaced:
  assumes tab: "(t, known, rows) \<in> set
         [links detailData ''trait_races'' ''trait_index'' ''race_index'' ''races'',
          links detailData ''trait_subraces'' ''trait_index'' ''subrace_index'' ''subraces'',
          links detailData ''trait_proficiencies'' ''trait_index'' ''proficiency_index''
            ''proficiencies'']"
    and known: "known" and run: "run (trait_transaction detailData) d = Inr d'"
  shows "(DeleteWhere t ''trait_index'', JArr [field detailData ''index'']) \<in> set (fst (trait_transaction detailData))
       \<and> escape False (field detailData ''index'') \<noteq> None
       \<and> parent_key detailData \<noteq> SqlNull
       \<and> d' t = filter (\<lambda>x. cell x ''trait_index'' \<noteq> parent_key detailData) (d t) @ rows
       \<and> (\<forall>r \<in> set rows. cell r ''trait_index'' = parent_key detailData)"
proof (rule children_rows[OF trait_transaction_replaces _ run])
  show "\<forall>t \<in> set [''trait_races'', ''trait_subraces'', ''trait_proficiencies''].
          \<not> parent_table t \<and> map_of schema t \<noteq> None"
    by (simp add: table_facts)
  show "t \<in> set [''trait_races'', ''trait_subraces'', ''trait_proficiencies'']"
    using tab by (auto simp: links_def)
next
  fix k assume "escape False (field detailData ''index'') = Some k"
  with trait_children[OF run] tab known
  show "d' t = filter (\<lambda>x. cell x ''trait_index'' \<noteq> k) (d t) @ rows"
    by (auto simp: links_def items_of_def entries_of_def parent_key_def)
qed

lemma children_all:
  "list_all (\<lambda>(m, c, tables). \<forall>t known rows d d'.
       (t, known, rows) \<in> set tables \<longrightarrow> known \<longrightarrow> run m d = Inr d' \<longrightarrow>
          (DeleteWhere t c, JArr [field detailData ''index'']) \<in> set (fst m)
          \<and> escape False (field detailData ''index'') \<noteq> None
          \<and> parent_key detailData \<noteq> SqlNull
          \<and> d' t = filter (\<lambda>x. cell x c \<noteq> parent_key detailData) (d t) @ rows
          \<and> (\<forall>r \<in> set rows. cell r c = parent_key detailData))
     (children detailData levelsData spellsData)"
  unfolding children_def list.pred_inject prod.case
  apply (rule conjI, use class_replaced in blast)
  apply (rule conjI, use monster_replaced in blast)
  apply (rule conjI, use proficiency_replaced in blast)
  apply (rule conjI, use race_replaced in blast)
  apply (rule conjI, use spell_replaced in blast)
  apply (rule conjI, use subclass_replaced in blast)
  apply (rule conjI, use trait_replaced in blast)
  apply simp
  done

lemma elf_committed:
  "run (race_transaction elf) (store elf_world)
   = Inr ((store elf_world)
          (''races'' := [[(''index'', SqlStr ''elf''), (''name'', SqlStr ''Elf''),
                          (''speed'', SqlNum 30), (''ability_bonuses'', SqlNull),
                          (''alignment'', SqlNull), (''age'', SqlNull), (''size'', SqlNull),
                          (''size_description'', SqlNull), (''language_desc'', SqlNull)]],
           ''race_proficiencies'' := [], ''race_languages'' := [],
           ''race_traits'' := [race_trait ''dwarf'' ''darkvision'',
                               race_trait ''elf'' ''keen-senses'',
                               race_trait ''elf'' ''fey-ancestry'']))"
  by (simp add: race_transaction_def raceRecord_def raceQuery_def elf_def elf_world_def trait_def
        race_trait_def insert_links_def js_eval sql_eval async_eval)

section \<open>The requests of the generic path\<close>

lemma syncResource_world:
  "snd (syncResource api resourceName tableName recordBuilder w)
   = (case bindE (api (''https://www.dnd5eapi.co/api/'' @ resourceName))
             (\<lambda>listData. bindE (read listData ''results'')
                (\<lambda>endpoints. bindE (read endpoints ''length'') (\<lambda>n. for_of endpoints))) of
        Inl e \<Rightarrow> w\<lparr>requests := requests w @ [''https://www.dnd5eapi.co/api/'' @ resourceName]\<rparr>
      | Inr endpoints \<Rightarrow>
          snd (syncResource_loop api resourceName recordBuilder endpoints []
                 (w\<lparr>requests := requests w
                       @ [''https://www.dnd5eapi.co/api/'' @ resourceName]\<rparr>)))"
  by (cases "api (''https://www.dnd5eapi.co/api/'' @ resourceName)")
     (auto simp: syncResource_def fetch_json_def split: sum.splits prod.splits loop_end.splits)

lemma loop_requests:
  "\<exists>n \<le> length items.
     requests (snd (syncResource_loop api resourceName recordBuilder items queryPromises w))
       = requests w @ map detail_url (take n items)
     \<and> (\<forall>i. Suc i < n \<longrightarrow>
           (\<exists>doc built. api (detail_url (items ! i)) = Inr doc \<and> recordBuilder doc = Inr built))"
proof (induction items arbitrary: queryPromises w)
  case Nil
  show ?case by simp
next
  case (Cons item items)
  let ?loop = "syncResource_loop api resourceName recordBuilder"
  let ?P = "\<lambda>n w'. requests w' = requests w @ map detail_url (take n (item # items))
              \<and> (\<forall>i. Suc i < n \<longrightarrow>
                    (\<exists>doc built. api (detail_url ((item # items) ! i)) = Inr doc
                        \<and> recordBuilder doc = Inr built))"
  define w1 where "w1 = w\<lparr>requests := requests w @ [detail_url item]\<rparr>"
  have none: "?P 0 w" by simp
  have one: "?P 1 w'" if "requests w' = requests w1" for w'
    using that by (simp add: w1_def)
  show ?case
  proof (cases "read item ''url''")
    case (Inl e)
    then have "snd (?loop (item # items) queryPromises w) = w" by simp
    with none show ?thesis by (intro exI[of _ 0]) simp
  next
    case url: (Inr url)
    then have u: "''https://www.dnd5eapi.co'' @ ToString url = detail_url item"
      by (auto simp: read_Inr_iff detail_url_def)
    have f: "fetch_json api (''https://www.dnd5eapi.co'' @ ToString url) w
             = (api (detail_url item), w1)"
      by (simp only: fetch_json_def u w1_def)
    consider (stop) "requests (snd (?loop (item # items) queryPromises w)) = requests w1"
      | (go) doc built ps w2 where "api (detail_url item) = Inr doc" "recordBuilder doc = Inr built"
          "?loop (item # items) queryPromises w = ?loop items ps w2" "requests w2 = requests w1"
    proof (cases "Promise_all queryPromises")
      case (Inl rejection)
      then have "snd (?loop (item # items) queryPromises w) = w1"
        by (simp only: syncResource_loop.simps url sum.case f prod.case snd_conv)
      then show ?thesis using stop by simp
    next
      case handled: (Inr none)
      show ?thesis
      proof (cases "api (detail_url item)")
        case (Inl e)
        then have "snd (?loop (item # items) queryPromises w) = w1"
          by (simp only: syncResource_loop.simps url sum.case f prod.case handled snd_conv)
        then show ?thesis using stop by simp
      next
        case doc: (Inr doc)
        show ?thesis
        proof (cases "recordBuilder doc")
          case (Inl e)
          then have "snd (?loop (item # items) queryPromises w) = w1"
            by (simp only: syncResource_loop.simps url sum.case f prod.case handled doc snd_conv)
          then show ?thesis using stop by simp
        next
          case built: (Inr built)
          obtain newRecord sqlQuery where b: "built = (newRecord, sqlQuery)" by (cases built)
          show ?thesis
          proof (cases "query sqlQuery (Object_values newRecord) (store w1)")
            case (Inl error)
            then have "?loop (item # items) queryPromises w
                = ?loop items (queryPromises @
                                   [Inl (Error (''Failed on '' @ resourceName @ '' ''
                                       @ ToString (field (JObj newRecord) ''name'') @ '': ''
                                       @ error_message error))]) w1"
              by (simp only: syncResource_loop.simps url sum.case f prod.case handled doc built b)
            with doc built show ?thesis by (intro go[of doc built _ w1]) simp_all
          next
            case (Inr d)
            then have "?loop (item # items) queryPromises w
                = ?loop items (queryPromises @ [Inr ()]) (w1\<lparr>store := d\<rparr>)"
              by (simp only: syncResource_loop.simps url sum.case f prod.case handled doc built b)
            with doc built show ?thesis by (intro go[of doc built _ "w1\<lparr>store := d\<rparr>"]) simp_all
          qed
        qed
      qed
    qed
    then show ?thesis
    proof cases
      case stop
      from one[OF stop] show ?thesis by (intro exI[of _ 1]) simp
    next
      case go
      from Cons.IH[of ps w2] obtain n where n: "n \<le> length items"
        and r: "requests (snd (?loop items ps w2)) = requests w2 @ map detail_url (take n items)"
        and b: "\<forall>i. Suc i < n \<longrightarrow>
           (\<exists>doc built. api (detail_url (items ! i)) = Inr doc \<and> recordBuilder doc = Inr built)"
        by blast
      have "\<exists>doc built. api (detail_url ((item # items) ! i)) = Inr doc
              \<and> recordBuilder doc = Inr built" if "Suc i < Suc n" for i
      proof (cases i)
        case 0
        with go(1,2) show ?thesis by auto
      next
        case (Suc j)
        with that b show ?thesis by simp
      qed
      with n r go(3,4) show ?thesis
        by (intro exI[of _ "Suc n"]) (simp add: w1_def)
    qed
  qed
qed

lemma three_conditions_exit:
  "syncResource three_conditions ''conditions'' ''conditions'' conditions_recordBuilder empty_world =
     (Exits charmed_rejection,
      \<lparr>store = blinded_store,
       requests = [''https://www.dnd5eapi.co/api/conditions'',
                   ''https://www.dnd5eapi.co/api/conditions/blinded'',
                   ''https://www.dnd5eapi.co/api/conditions/charmed'',
                   ''https://www.dnd5eapi.co/api/conditions/deafened'']\<rparr>)"
  by (simp add: syncResource_def fetch_json_def three_conditions_def condition_item_def
      conditions_recordBuilder_def js_eval sql_eval empty_world_def blinded_store_def
      charmed_rejection_def)

section \<open>The skills scenario\<close>

lemma skills_recordBuilder_acrobatics:
  "skills_recordBuilder acrobatics =
     Inr ([(''index'', JStr ''acrobatics''), (''name'', JStr ''Acrobatics''),
           (''description'', JStr ''para1\<newline>\<newline>para2''), (''ability_score'', JStr ''DEX'')],
          on_duplicate_key_update ''skills'' [''index'', ''name'', ''description'', ''ability_score''])"
  by (simp add: skills_recordBuilder_def acrobatics_def nullish_def join_def as_array_def)

lemma schema_skills: "map_of schema ''skills'' = Some ([''index'', ''name''], [''index''])"
  by (simp add: schema_def parent_schema_def)

lemma prepare_acrobatics:
  "prepare (on_duplicate_key_update ''skills'' [''index'', ''name'', ''description'', ''ability_score''])
         (Object_values [(''index'', JStr ''acrobatics''), (''name'', JStr ''Acrobatics''),
           (''description'', JStr ''para1\<newline>\<newline>para2''), (''ability_score'', JStr ''DEX'')])
   = Upsert ''skills'' [''name'', ''description'', ''ability_score''] acrobatics_row"
  by (simp add: on_duplicate_key_update_def Object_values_def checked_def schema_skills
      bind_values_def null_violation_def not_null_def cell_def acrobatics_row_def)

lemma upsert_acrobatics:
  "\<exists>d'. query (on_duplicate_key_update ''skills'' [''index'', ''name'', ''description'', ''ability_score''])
         (Object_values [(''index'', JStr ''acrobatics''), (''name'', JStr ''Acrobatics''),
           (''description'', JStr ''para1\<newline>\<newline>para2''), (''ability_score'', JStr ''DEX'')]) d
        = Inr d' \<and> acrobatics_row \<in> set (d' ''skills'')"
proof -
  obtain d' where d': "perform (Upsert ''skills'' [''name'', ''description'', ''ability_score''] acrobatics_row) d = Inr d'"
    using perform_Upsert_succeeds by blast
  have "acrobatics_row \<in> set (d' ''skills'')"
    by (rule perform_Upsert_mem[OF d']) (simp_all add: acrobatics_row_def unique_key_def schema_skills)
  with d' show ?thesis
    by (simp add: query_def prepare_acrobatics)
qed

text \<open>
  C7. The skills scenario of the specification: whatever else the remote API serves and
  whatever the store holds, when the list of skills is the one entry Acrobatics and its
  detail document is the one given, \<open>syncResource\<close> answers HTTP 200 with
  \<open>skills synced successfully! 1 records processed.\<close> (the count of processed items
  inside the message) and the skills table then holds the row with index
  \<open>acrobatics\<close>, name \<open>Acrobatics\<close>, the two paragraphs joined by a blank line as
  description, and ability score \<open>DEX\<close>.
\<close>

theorem skills_scenario:
  assumes "api ''https://www.dnd5eapi.co/api/skills'' = Inr skills_list"
      and "api ''https://www.dnd5eapi.co/api/skills/acrobatics'' = Inr acrobatics"
  shows "fst (syncResource api ''skills'' ''skills'' skills_recordBuilder w) =
           Responds \<lparr>status = 200, success = True,
            message = ''skills synced successfully! 1 records processed.''\<rparr>
         \<and> acrobatics_row \<in>
             set (store (snd (syncResource api ''skills'' ''skills'' skills_recordBuilder w)) ''skills'')"
proof -
  obtain d' where d': "query (on_duplicate_key_update ''skills'' [''index'', ''name'', ''description'', ''ability_score''])
         (Object_values [(''index'', JStr ''acrobatics''), (''name'', JStr ''Acrobatics''),
           (''description'', JStr ''para1\<newline>\<newline>para2''), (''ability_score'', JStr ''DEX'')]) (store w)
        = Inr d'" "acrobatics_row \<in> set (d' ''skills'')"
    using upsert_acrobatics by blast
  show ?thesis using assms d'
    by (simp add: syncResource_def fetch_json_def skills_list_def read_def nullish_def
        for_of_def skills_recordBuilder_acrobatics show_nat.simps)
qed

theorem skills_scenario_witness:
  "skills_api ''https://www.dnd5eapi.co/api/skills'' = Inr skills_list
   \<and> skills_api ''https://www.dnd5eapi.co/api/skills/acrobatics'' = Inr acrobatics
   \<and> fst (syncResource skills_api ''skills'' ''skills'' skills_recordBuilder empty_world) =
           Responds \<lparr>status = 200, success = True,
            message = ''skills synced successfully! 1 records processed.''\<rparr>
   \<and> acrobatics_row \<in>
             set (store (snd (syncResource skills_api ''skills'' ''skills'' skills_recordBuilder empty_world)) ''skills'')"
  using skills_scenario [of skills_api empty_world] by (simp add: skills_api_def)

section \<open>Descriptions\<close>

lemma joined_description:
  assumes "field d ''desc'' = JArr (map JStr paragraphs)"
    and "recordBuilder d = Inr (newRecord, sqlQuery)"
    and "recordBuilder \<in>
           {ability_scores_recordBuilder, skills_recordBuilder, features_recordBuilder,
            damage_types_recordBuilder, conditions_recordBuilder, equipment_recordBuilder,
            magic_items_recordBuilder, feats_recordBuilder, weapon_properties_recordBuilder,
            with_query spellRecord spellQuery, with_query subRecord subQuery,
            with_query traitRecord traitQuery}"
  shows "field (JObj newRecord) ''description'' = JStr (intercalate ''\<newline>\<newline>'' paragraphs)"
  using assms
  unfolding insert_iff empty_iff with_query_def
    ability_scores_recordBuilder_def skills_recordBuilder_def features_recordBuilder_def
    damage_types_recordBuilder_def conditions_recordBuilder_def equipment_recordBuilder_def
    magic_items_recordBuilder_def feats_recordBuilder_def weapon_properties_recordBuilder_def
    spellRecord_def subRecord_def traitRecord_def
  by (auto simp: join_strings bindE_Inr_iff split: sum.splits)

lemma passed_description:
  assumes "field d ''desc'' = JArr (map JStr paragraphs)"
    and "recordBuilder d = Inr (newRecord, sqlQuery)"
    and "recordBuilder \<in>
           {rules_recordBuilder, rule_sections_recordBuilder, magic_schools_recordBuilder,
            alignments_recordBuilder, subraces_recordBuilder}"
  shows "field (JObj newRecord) ''description'' = JArr (map JStr paragraphs)"
  using assms
  unfolding insert_iff empty_iff
    rules_recordBuilder_def rule_sections_recordBuilder_def magic_schools_recordBuilder_def
    alignments_recordBuilder_def subraces_recordBuilder_def
  by (auto simp: bindE_Inr_iff or_else_def)

lemma no_description:
  assumes "recordBuilder d = Inr (newRecord, sqlQuery)"
    and "recordBuilder \<in>
           {with_query classRecord classQuery, with_query monsterRecord monsterQuery,
            with_query profRecord profQuery, with_query raceRecord raceQuery,
            languages_recordBuilder, equipment_categories_recordBuilder,
            backgrounds_recordBuilder}"
  shows "''description'' \<notin> fst ` set newRecord"
  using assms
  unfolding insert_iff empty_iff with_query_def
    classRecord_def monsterRecord_def profRecord_def raceRecord_def
    languages_recordBuilder_def equipment_categories_recordBuilder_def
    backgrounds_recordBuilder_def
  by (auto simp: bindE_Inr_iff)

text \<open>
  The builders of rules and of magic schools hand \<open>desc\<close> on as it is: of a document with
  two paragraphs they make a record whose \<open>description\<close> is still the array, not the
  paragraphs joined.
\<close>

theorem description_not_joined:
  "field adventuring ''desc'' = JArr [JStr ''para1'', JStr ''para2'']
   \<and> rules_recordBuilder adventuring
       = Inr (adventuring_record,
              on_duplicate_key_update ''rules''
                [''index'', ''name'', ''description'', ''rule_section_index''])
   \<and> field (JObj adventuring_record) ''description'' = JArr [JStr ''para1'', JStr ''para2'']
   \<and> field (JObj adventuring_record) ''description'' \<noteq> JStr ''para1\<newline>\<newline>para2''
   \<and> field evocation ''desc'' = JArr [JStr ''para1'', JStr ''para2'']
   \<and> magic_schools_recordBuilder evocation
       = Inr (evocation_record,
              on_duplicate_key_update ''magic_schools'' [''index'', ''name'', ''description''])
   \<and> field (JObj evocation_record) ''description'' = JArr [JStr ''para1'', JStr ''para2'']
   \<and> field (JObj evocation_record) ''description'' \<noteq> JStr ''para1\<newline>\<newline>para2''"
  by (simp add: adventuring_def evocation_def adventuring_record_def evocation_record_def
      two_paragraphs_def rules_recordBuilder_def magic_schools_recordBuilder_def
      if_present_def nullish_def)

text \<open>
  C5. Of a detail document that gives \<open>desc\<close> as an array of paragraphs, the twelve
  builders that call \<open>desc.join\<close> (ability scores, skills, features, damage types,
  conditions, equipment, magic items, feats, weapon properties, spells, subclasses,
  traits) make a record whose \<open>description\<close> is the paragraphs joined with the two
  characters \<open>\\n\\n\<close> between them, as one string. The builders of rules, rule sections,
  magic schools and alignments, and that of subraces with its \<open>desc || null\<close>, leave the
  array as it is. Every other builder of the routes makes a record without a
  \<open>description\<close>.
\<close>

theorem description_joined:
  assumes "field d ''desc'' = JArr (map JStr paragraphs)"
    and "recordBuilder d = Inr (newRecord, sqlQuery)"
  shows "(recordBuilder \<in>
           {ability_scores_recordBuilder, skills_recordBuilder, features_recordBuilder,
            damage_types_recordBuilder, conditions_recordBuilder, equipment_recordBuilder,
            magic_items_recordBuilder, feats_recordBuilder, weapon_properties_recordBuilder,
            with_query spellRecord spellQuery, with_query subRecord subQuery,
            with_query traitRecord traitQuery}
          \<longrightarrow> field (JObj newRecord) ''description''
                = JStr (intercalate ''\<newline>\<newline>'' paragraphs))
       \<and> (recordBuilder \<in>
           {rules_recordBuilder, rule_sections_recordBuilder, magic_schools_recordBuilder,
            alignments_recordBuilder, subraces_recordBuilder}
          \<longrightarrow> field (JObj newRecord) ''description'' = JArr (map JStr paragraphs))
       \<and> (recordBuilder \<in> set recordBuilders
          \<longrightarrow> recordBuilder \<in>
                {ability_scores_recordBuilder, skills_recordBuilder, features_recordBuilder,
                 damage_types_recordBuilder, conditions_recordBuilder, equipment_recordBuilder,
                 magic_items_recordBuilder, feats_recordBuilder, weapon_properties_recordBuilder,
                 with_query spellRecord spellQuery, with_query subRecord subQuery,
                 with_query traitRecord traitQuery,
                 rules_recordBuilder, rule_sections_recordBuilder, magic_schools_recordBuilder,
                 alignments_recordBuilder, subraces_recordBuilder}
              \<or> ''description'' \<notin> fst ` set newRecord)"
proof (intro conjI impI)
  assume "recordBuilder \<in> set recordBuilders"
  then consider
      "recordBuilder \<in>
           {ability_scores_recordBuilder, skills_recordBuilder, features_recordBuilder,
            damage_types_recordBuilder, conditions_recordBuilder, equipment_recordBuilder,
            magic_items_recordBuilder, feats_recordBuilder, weapon_properties_recordBuilder,
            with_query spellRecord spellQuery, with_query subRecord subQuery,
            with_query traitRecord traitQuery,
            rules_recordBuilder, rule_sections_recordBuilder, magic_schools_recordBuilder,
            alignments_recordBuilder, subraces_recordBuilder}"
    | "recordBuilder \<in>
           {with_query classRecord classQuery, with_query monsterRecord monsterQuery,
            with_query profRecord profQuery, with_query raceRecord raceQuery,
            languages_recordBuilder, equipment_categories_recordBuilder,
            backgrounds_recordBuilder}"
    unfolding recordBuilders_def list.set insert_iff empty_iff by blast
  then show "recordBuilder \<in>
                {ability_scores_recordBuilder, skills_recordBuilder, features_recordBuilder,
                 damage_types_recordBuilder, conditions_recordBuilder, equipment_recordBuilder,
                 magic_items_recordBuilder, feats_recordBuilder, weapon_properties_recordBuilder,
                 with_query spellRecord spellQuery, with_query subRecord subQuery,
                 with_query traitRecord traitQuery,
                 rules_recordBuilder, rule_sections_recordBuilder, magic_schools_recordBuilder,
                 alignments_recordBuilder, subraces_recordBuilder}
              \<or> ''description'' \<notin> fst ` set newRecord"
  proof cases
    case 1
    then show ?thesis by (rule disjI1)
  next
    case 2
    from no_description[where recordBuilder = recordBuilder and d = d, OF assms(2) this] show ?thesis by (rule disjI2)
  qed
qed (rule joined_description[where recordBuilder = recordBuilder and d = d, OF assms]
      passed_description[where recordBuilder = recordBuilder and d = d, OF assms]; assumption)+

theorem description_joined_witness:
  "field acrobatics ''desc'' = JArr (map JStr [''para1'', ''para2''])
   \<and> skills_recordBuilder acrobatics =
        Inr ([(''index'', JStr ''acrobatics''), (''name'', JStr ''Acrobatics''),
              (''description'', JStr ''para1\<newline>\<newline>para2''), (''ability_score'', JStr ''DEX'')],
             on_duplicate_key_update ''skills''
               [''index'', ''name'', ''description'', ''ability_score''])
   \<and> skills_recordBuilder \<in> set recordBuilders
   \<and> field (JObj [(''index'', JStr ''acrobatics''), (''name'', JStr ''Acrobatics''),
             (''description'', JStr ''para1\<newline>\<newline>para2''), (''ability_score'', JStr ''DEX'')])
         ''description'' = JStr (intercalate ''\<newline>\<newline>'' [''para1'', ''para2''])
   \<and> field adventuring ''desc'' = JArr (map JStr [''para1'', ''para2''])
   \<and> rules_recordBuilder adventuring
       = Inr (adventuring_record,
              on_duplicate_key_update ''rules''
                [''index'', ''name'', ''description'', ''rule_section_index''])
   \<and> rules_recordBuilder \<in> set recordBuilders
   \<and> field (JObj adventuring_record) ''description'' = JArr (map JStr [''para1'', ''para2''])"
proof -
  have a1: "field acrobatics ''desc'' = JArr (map JStr [''para1'', ''para2''])"
    by (simp add: acrobatics_def)
  have b1: "field adventuring ''desc'' = JArr (map JStr [''para1'', ''para2''])"
    by (simp add: adventuring_def two_paragraphs_def)
  have b2: "rules_recordBuilder adventuring
       = Inr (adventuring_record,
              on_duplicate_key_update ''rules''
                [''index'', ''name'', ''description'', ''rule_section_index''])"
    by (simp add: adventuring_def adventuring_record_def rules_recordBuilder_def
        if_present_def nullish_def)
  have m1: "skills_recordBuilder \<in> set recordBuilders"
    and m2: "rules_recordBuilder \<in> set recordBuilders"
    by (simp_all add: recordBuilders_def)
  from description_joined[where recordBuilder = skills_recordBuilder and d = acrobatics,
      OF a1 skills_recordBuilder_acrobatics]
  have c1: "field (JObj [(''index'', JStr ''acrobatics''), (''name'', JStr ''Acrobatics''),
             (''description'', JStr ''para1\<newline>\<newline>para2''), (''ability_score'', JStr ''DEX'')])
         ''description'' = JStr (intercalate ''\<newline>\<newline>'' [''para1'', ''para2''])"
    by blast
  from description_joined[where recordBuilder = rules_recordBuilder and d = adventuring, OF b1 b2]
  have c2: "field (JObj adventuring_record) ''description'' = JArr (map JStr [''para1'', ''para2''])"
    by blast
  show ?thesis
    by (intro conjI a1 b1 b2 m1 m2 c1 c2 skills_recordBuilder_acrobatics)
qed

section \<open>Absent optional fields\<close>



section \<open>What the classes sync leaves out\<close>

lemma filter_item_options:
  "filter truthy (map (\<lambda>opt. if truthy (field opt ''item'') then field (field opt ''item'') ''index'' else JNull) options)
   = item_options options"
  by (induction options) (simp_all add: item_options_def)

lemma proficiency_options_eq:
  assumes "path choice [''from'', ''options''] = Inr (JArr options)"
    and "list_all (\<lambda>opt. \<not> nullish opt) options"
  shows "proficiency_options choice = Inr (JArr (item_options options))"
proof -
  have "mapE (\<lambda>opt. bindE (read opt ''item'') (\<lambda>item. Inr (if truthy item then field item ''index'' else JNull))) options
        = Inr (map (\<lambda>opt. if truthy (field opt ''item'') then field (field opt ''item'') ''index'' else JNull) options)"
    using assms(2) by (intro mapE_total) (simp add: list_all_iff)
  with assms(1) show ?thesis
    by (simp add: proficiency_options_def map_method_def as_array_def filter_item_options)
qed

lemma skip_starting_equipment:
  "\<not> nullish item \<Longrightarrow> \<not> has_equipment item \<Longrightarrow> insert_starting_equipment index item = ([], Inr ())"
  by (auto simp: insert_starting_equipment_def has_equipment_def)

lemma forA_skip:
  "list_all (\<lambda>item. \<not> nullish item) items \<Longrightarrow>
   forA (insert_starting_equipment index) items
     = forA (insert_starting_equipment index) (filter has_equipment items)"
proof (induction items)
  case Nil
  then show ?case by simp
next
  case (Cons item items)
  show ?case
  proof (cases "has_equipment item")
    case True
    with Cons show ?thesis by simp
  next
    case False
    with Cons show ?thesis by (simp add: skip_starting_equipment)
  qed
qed

text \<open>
  C10. In the classes sync, a \<open>starting_equipment\<close> entry without an \<open>equipment\<close> that has
  an \<open>index\<close> is passed over: no statement is awaited, nothing is thrown, and the loop does
  what it would do on the list without such entries. The \<open>options\<close> stored for a
  proficiency choice are the JSON text of the indexes of the options that have an
  \<open>item\<close>; every option without one is dropped before serialisation.
\<close>

theorem class_entries_dropped:
  "(\<not> nullish item \<and> \<not> has_equipment item \<longrightarrow>
        insert_starting_equipment index item = ([], Inr ()))
   \<and> (list_all (\<lambda>item. \<not> nullish item) items \<longrightarrow>
        forA (insert_starting_equipment index) items
          = forA (insert_starting_equipment index) (filter has_equipment items))
   \<and> (path choice [''from'', ''options''] = Inr (JArr options)
        \<and> list_all (\<lambda>opt. \<not> nullish opt) options \<longrightarrow>
        insert_proficiency_choice index (i, choice)
          = queryAsync (InsertSet ''class_proficiency_choices'')
              (JObj [(''class_index'', index), (''choice_index'', JNum (int i)),
                     (''description'', field choice ''desc''),
                     (''choose'', field choice ''choose''), (''type'', field choice ''type''),
                     (''options'', JSON_stringify (JArr (item_options options)))]))"
proof (intro conjI impI)
  assume h: "path choice [''from'', ''options''] = Inr (JArr options)
        \<and> list_all (\<lambda>opt. \<not> nullish opt) options"
  then have "\<not> nullish choice" by (auto simp: read_def split: if_splits)
  with h show "insert_proficiency_choice index (i, choice)
          = queryAsync (InsertSet ''class_proficiency_choices'')
              (JObj [(''class_index'', index), (''choice_index'', JNum (int i)),
                     (''description'', field choice ''desc''),
                     (''choose'', field choice ''choose''), (''type'', field choice ''type''),
                     (''options'', JSON_stringify (JArr (item_options options)))])"
    by (simp add: insert_proficiency_choice_def proficiency_choiceRecord_def proficiency_options_eq)
qed (simp_all add: skip_starting_equipment forA_skip)

theorem class_entries_dropped_witness:
  "insert_starting_equipment (JStr ''bard'') pack_only = ([], Inr ())
   \<and> forA (insert_starting_equipment (JStr ''bard'')) [pack_only] = ([], Inr ())
   \<and> insert_proficiency_choice (JStr ''bard'') (0, skill_choice)
       = queryAsync (InsertSet ''class_proficiency_choices'')
           (JObj [(''class_index'', JStr ''bard''), (''choice_index'', JNum 0),
                  (''description'', JStr ''Choose two''), (''choose'', JNum 2),
                  (''type'', JStr ''proficiencies''),
                  (''options'', JStr (''['' @ [CHR 0x22] @ ''skill-arcana'' @ [CHR 0x22] @ '']''))])"
  using class_entries_dropped [of pack_only "JStr ''bard''" "[pack_only]" skill_choice
      skill_options 0]
  by (simp add: pack_only_def skill_choice_def skill_options_def nullish_def has_equipment_def
      read_def item_options_def JSON_stringify_def quoted_def)

section \<open>Fail-fast in the enriched path\<close>

lemma sync_items_stops:
  assumes "sync_items fetch_item body before w = (None, w1)"
    and "fetch_item item w1 = (Inr fetched, w2)"
    and "run (body fetched) (store w2) = Inl e"
  shows "sync_items fetch_item body (before @ item # after) w = (Some e, w2)"
  using assms
proof (induction before arbitrary: w)
  case Nil
  then show ?case by (simp add: transaction_def)
next
  case (Cons x xs)
  then show ?case
    by (auto split: prod.splits sum.splits option.splits)
qed

lemma fetch_json_storeD: "fetch_json api url w = (r, w') \<Longrightarrow> store w' = store w"
  by (auto simp: fetch_json_def)

lemma fetch_detail_storeD: "fetch_detail api item w = (r, w') \<Longrightarrow> store w' = store w"
  by (auto simp: fetch_detail_def split: sum.splits dest: fetch_json_storeD)

lemma fetch_class_storeD: "fetch_class api item w = (r, w') \<Longrightarrow> store w' = store w"
  by (auto simp: fetch_class_def split: prod.splits sum.splits if_splits
           dest!: fetch_json_storeD fetch_detail_storeD)

lemma fetch_subclass_storeD: "fetch_subclass api item w = (r, w') \<Longrightarrow> store w' = store w"
  by (auto simp: fetch_subclass_def split: prod.splits sum.splits
           dest!: fetch_json_storeD fetch_detail_storeD)

lemma fetch_detail_store: "store (snd (fetch_detail api item w)) = store w"
  by (metis fetch_detail_storeD prod.collapse)

lemma fetch_class_store: "store (snd (fetch_class api item w)) = store w"
  by (metis fetch_class_storeD prod.collapse)

lemma fetch_subclass_store: "store (snd (fetch_subclass api item w)) = store w"
  by (metis fetch_subclass_storeD prod.collapse)

text \<open>
  C3. The seven enriched functions are \<open>sync_enriched\<close> with their own fetches and
  transaction body. When the items before the k-th have committed, the k-th has been
  fetched and its transaction fails with an error, the sync stops there: the answer is
  status 500 with \<open>success: false\<close> and the message of that error, the store is the one
  the earlier items left (nothing of the k-th item is kept), and the world is the one
  right after the k-th fetch, so no later item is fetched or written.
\<close>

theorem fail_fast:
  assumes "\<And>x v. store (snd (fetch_item x v)) = store v"
    and "api (''https://www.dnd5eapi.co/api/'' @ resource) = Inr listData"
    and "bindE (read listData ''results'') for_of = Inr (before @ item # after)"
    and "sync_items fetch_item body before
           (w\<lparr>requests := requests w @ [''https://www.dnd5eapi.co/api/'' @ resource]\<rparr>) = (None, w1)"
    and "fetch_item item w1 = (Inr fetched, w2)"
    and "run (body fetched) (store w1) = Inl e"
  shows "sync_enriched api resource label fetch_item body w = (failure e, w2)
         \<and> store w2 = store w1
         \<and> status (failure e) = 500 \<and> \<not> success (failure e)
         \<and> (error_message e \<noteq> [] \<longrightarrow> message (failure e) = error_message e)"
proof -
  have s: "store w2 = store w1"
    using assms(1)[of item w1] assms(5) by simp
  with assms(6) have "run (body fetched) (store w2) = Inl e" by simp
  with assms(4,5) have "sync_items fetch_item body (before @ item # after)
           (w\<lparr>requests := requests w @ [''https://www.dnd5eapi.co/api/'' @ resource]\<rparr>) = (Some e, w2)"
    by (rule sync_items_stops)
  with assms(2,3) s show ?thesis
    by (simp add: sync_enriched_def fetch_json_def failure_def)
qed


lemma aboleth_committed:
  "run (monster_transaction (monster_doc ''aboleth'' ''Aboleth'' [''skill-history''] [])) (\<lambda>t. [])
     = Inr aboleth_store"
  by (simp add: monster_transaction_def monsterRecord_def monsterQuery_def monster_doc_def
      insert_monster_proficiency_def js_eval sql_eval async_eval aboleth_store_def aboleth_row_def)

lemma bandit_rejected:
  "run (monster_transaction
          (monster_doc ''bandit'' ''Bandit'' [''skill-stealth'', ''skill-stealth''] [])) d
     = Inl (dup_entry ''monster_proficiencies'')"
  by (simp add: monster_transaction_def monsterRecord_def monsterQuery_def monster_doc_def
      insert_monster_proficiency_def js_eval sql_eval async_eval)

theorem fail_fast_witness:
  "syncMonsters three_monsters empty_world =
     (\<lparr>status = 500, success = False,
       message = ''ER_DUP_ENTRY: Duplicate entry for a unique key of monster_proficiencies''\<rparr>,
      \<lparr>store = aboleth_store,
       requests = [''https://www.dnd5eapi.co/api/monsters'',
                   ''https://www.dnd5eapi.co/api/monsters/aboleth'',
                   ''https://www.dnd5eapi.co/api/monsters/bandit'']\<rparr>)"
proof -
  let ?list = "JObj [(''count'', JNum 3),
                      (''results'', JArr [monster_item ''aboleth'' ''Aboleth'',
                                          monster_item ''bandit'' ''Bandit'',
                                          monster_item ''cat'' ''Cat''])]"
  let ?w1 = "\<lparr>store = aboleth_store,
       requests = [''https://www.dnd5eapi.co/api/monsters'',
                   ''https://www.dnd5eapi.co/api/monsters/aboleth'']\<rparr>"
  let ?w2 = "\<lparr>store = aboleth_store,
       requests = [''https://www.dnd5eapi.co/api/monsters'',
                   ''https://www.dnd5eapi.co/api/monsters/aboleth'',
                   ''https://www.dnd5eapi.co/api/monsters/bandit'']\<rparr>"
  have h1: "\<And>x v. store (snd (fetch_detail three_monsters x v)) = store v"
    by (rule fetch_detail_store)
  have h2: "three_monsters (''https://www.dnd5eapi.co/api/'' @ ''monsters'') = Inr ?list"
    by (simp add: three_monsters_def)
  have h3: "bindE (read ?list ''results'') for_of
              = Inr ([monster_item ''aboleth'' ''Aboleth''] @ monster_item ''bandit'' ''Bandit''
                       # [monster_item ''cat'' ''Cat''])"
    by (simp add: js_eval)
  have h4: "sync_items (fetch_detail three_monsters) monster_transaction
              [monster_item ''aboleth'' ''Aboleth'']
              (empty_world\<lparr>requests := requests empty_world
                              @ [''https://www.dnd5eapi.co/api/'' @ ''monsters'']\<rparr>)
            = (None, ?w1)"
    by (simp add: empty_world_def fetch_detail_def fetch_json_def monster_item_def three_monsters_def
        read_def nullish_def transaction_def aboleth_committed)
  have h5: "fetch_detail three_monsters (monster_item ''bandit'' ''Bandit'') ?w1
            = (Inr (monster_doc ''bandit'' ''Bandit'' [''skill-stealth'', ''skill-stealth''] []), ?w2)"
    by (simp add: fetch_detail_def fetch_json_def monster_item_def three_monsters_def
        read_def nullish_def)
  have h6: "run (monster_transaction
              (monster_doc ''bandit'' ''Bandit'' [''skill-stealth'', ''skill-stealth''] []))
              (store ?w1) = Inl (dup_entry ''monster_proficiencies'')"
    by (rule bandit_rejected)
  show ?thesis
    using fail_fast [of "fetch_detail three_monsters" three_monsters "''monsters''", OF h1 h2 h3 h4 h5 h6,
        of "''Monsters''"]
    by (simp add: syncMonsters_def failure_def dup_entry_def)
qed

section \<open>A failed upsert in the generic path\<close>

text \<open>
  C9. In \<open>syncResource\<close> a query that fails rejects the promise made for it, and that
  promise has no handler until \<open>Promise.all\<close>, after the loop. With three conditions of
  which the second has no name: the first is stored, the upsert of the second is
  rejected with \<open>ER_BAD_NULL_ERROR\<close>, the loop goes on to request the third document,
  and while it waits the rejection, which nothing handles, ends the process: no answer is
  sent and the third condition is never built or upserted. Only when the failing item
  is the last of the list (the same list cut after the second condition) does
  \<open>Promise.all\<close> receive the rejection, and the answer is status 500 with its message.
\<close>

theorem rejected_upsert_unhandled:
  "syncResource three_conditions ''conditions'' ''conditions'' conditions_recordBuilder empty_world =
     (Exits charmed_rejection,
      \<lparr>store = blinded_store,
       requests = [''https://www.dnd5eapi.co/api/conditions'',
                   ''https://www.dnd5eapi.co/api/conditions/blinded'',
                   ''https://www.dnd5eapi.co/api/conditions/charmed'',
                   ''https://www.dnd5eapi.co/api/conditions/deafened'']\<rparr>)
   \<and> syncResource two_conditions ''conditions'' ''conditions'' conditions_recordBuilder empty_world =
     (Responds \<lparr>status = 500, success = False,
                message = ''Failed on conditions undefined: ER_BAD_NULL_ERROR: Column ''
                  @ [CHR 0x27] @ ''name'' @ [CHR 0x27] @ '' cannot be null''\<rparr>,
      \<lparr>store = blinded_store,
       requests = [''https://www.dnd5eapi.co/api/conditions'',
                   ''https://www.dnd5eapi.co/api/conditions/blinded'',
                   ''https://www.dnd5eapi.co/api/conditions/charmed'']\<rparr>)"
proof -
  have three: "syncResource three_conditions ''conditions'' ''conditions''
                 conditions_recordBuilder empty_world =
     (Exits charmed_rejection,
      \<lparr>store = blinded_store,
       requests = [''https://www.dnd5eapi.co/api/conditions'',
                   ''https://www.dnd5eapi.co/api/conditions/blinded'',
                   ''https://www.dnd5eapi.co/api/conditions/charmed'',
                   ''https://www.dnd5eapi.co/api/conditions/deafened'']\<rparr>)"
    by (simp add: syncResource_def fetch_json_def three_conditions_def condition_item_def
        conditions_recordBuilder_def js_eval sql_eval empty_world_def blinded_store_def
        charmed_rejection_def)
  have two: "syncResource two_conditions ''conditions'' ''conditions''
               conditions_recordBuilder empty_world =
     (Responds \<lparr>status = 500, success = False,
                message = ''Failed on conditions undefined: ER_BAD_NULL_ERROR: Column ''
                  @ [CHR 0x27] @ ''name'' @ [CHR 0x27] @ '' cannot be null''\<rparr>,
      \<lparr>store = blinded_store,
       requests = [''https://www.dnd5eapi.co/api/conditions'',
                   ''https://www.dnd5eapi.co/api/conditions/blinded'',
                   ''https://www.dnd5eapi.co/api/conditions/charmed'']\<rparr>)"
    by (simp add: syncResource_def fetch_json_def two_conditions_def three_conditions_def
        condition_item_def conditions_recordBuilder_def js_eval sql_eval empty_world_def
        blinded_store_def failure_def)
  show ?thesis by (intro conjI three two)
qed

section \<open>Upserts and repeated syncs\<close>

lemma stale_upsert:
  "perform (Upsert ''skills'' [''name'', ''description'', ''ability_score''] acrobatics_row) stale_store
   = Inr (stale_store(''skills'' := [acrobatics_row]))"
  by (simp add: stale_store_def stale_acrobatics_def acrobatics_row_def unique_key_def
        schema_skills conflicts_def cell_def update_row_def)



section \<open>Repeated entries\<close>

text \<open>
  C4. Skipping an entry whose key was already inserted in the same call is what the loop
  over a monster's condition immunities does (and the loop over a subclass's spells),
  with its set of the indexes processed: a monster that lists \<open>charmed\<close> twice is
  stored with one row for that pair. The loop over the monster's proficiencies, in the
  same function, keeps no such set. When a monster lists the same proficiency twice,
  both inserts are issued, the second collides with the first on the unique key of
  \<open>monster_proficiencies\<close>, the transaction is rolled back, and the sync answers with
  status 500 and the duplicate-key error, nothing of the monster being stored.
\<close>

theorem repeated_proficiency_rejected:
  "fst (transaction (monster_transaction charmed_twice) empty_world) = None
   \<and> store (snd (transaction (monster_transaction charmed_twice) empty_world))
        ''monster_condition_immunities''
       = [[(''monster_index'', SqlStr ''ghost''), (''condition_index'', SqlStr ''charmed'')]]
   \<and> bandit_only ''https://www.dnd5eapi.co/api/monsters/bandit''
       = Inr (monster_doc ''bandit'' ''Bandit'' [''skill-stealth'', ''skill-stealth''] [])
   \<and> transaction (monster_transaction
         (monster_doc ''bandit'' ''Bandit'' [''skill-stealth'', ''skill-stealth''] [])) empty_world
       = (Some (dup_entry ''monster_proficiencies''), empty_world)
   \<and> syncMonsters bandit_only empty_world
       = (\<lparr>status = 500, success = False,
           message = ''ER_DUP_ENTRY: Duplicate entry for a unique key of monster_proficiencies''\<rparr>,
          \<lparr>store = (\<lambda>t. []),
           requests = [''https://www.dnd5eapi.co/api/monsters'',
                       ''https://www.dnd5eapi.co/api/monsters/bandit'']\<rparr>)"
proof -
  obtain d' where c: "run (monster_transaction charmed_twice) (\<lambda>t. []) = Inr d'"
    and r: "d' ''monster_condition_immunities''
          = [[(''monster_index'', SqlStr ''ghost''), (''condition_index'', SqlStr ''charmed'')]]"
    using charmed_twice_committed by blast
  have c1: "fst (transaction (monster_transaction charmed_twice) empty_world) = None"
    and c2: "store (snd (transaction (monster_transaction charmed_twice) empty_world))
        ''monster_condition_immunities''
       = [[(''monster_index'', SqlStr ''ghost''), (''condition_index'', SqlStr ''charmed'')]]"
    by (simp_all add: transaction_def empty_world_def c r)
  have c3: "bandit_only ''https://www.dnd5eapi.co/api/monsters/bandit''
       = Inr (monster_doc ''bandit'' ''Bandit'' [''skill-stealth'', ''skill-stealth''] [])"
    by (simp add: bandit_only_def)
  have c4: "transaction (monster_transaction
         (monster_doc ''bandit'' ''Bandit'' [''skill-stealth'', ''skill-stealth''] [])) empty_world
       = (Some (dup_entry ''monster_proficiencies''), empty_world)"
    by (simp add: transaction_def bandit_rejected)
  have c5: "syncMonsters bandit_only empty_world
       = (\<lparr>status = 500, success = False,
           message = ''ER_DUP_ENTRY: Duplicate entry for a unique key of monster_proficiencies''\<rparr>,
          \<lparr>store = (\<lambda>t. []),
           requests = [''https://www.dnd5eapi.co/api/monsters'',
                       ''https://www.dnd5eapi.co/api/monsters/bandit'']\<rparr>)"
    by (simp add: syncMonsters_def sync_enriched_def fetch_json_def bandit_only_def js_eval
          fetch_detail_def monster_item_def transaction_def bandit_rejected empty_world_def
          failure_def dup_entry_def)
  show ?thesis
    by (intro conjI c1 c2 c3 c4 c5)
qed

section \<open>Replacement of the children\<close>




section \<open>The order of the fetches in the generic path\<close>




end
